(* ===== verification/Prelude.thy ===== *)
theory Prelude
  imports "HOL-Library.Word" "HOL-Library.State_Monad"
begin

text \<open>
  Shared material of the development: the machine types of the Go source, the
  \<^theory_text>\<open>named_theorems\<close> collections the component theories extend, and generic
  lemmas on words, lists and the state monad.

  Go's \<open>uint8\<close>, \<open>uint32\<close> and \<open>uint64\<close> are words of that width; \<open>[]byte\<close> is a list
  of 8-bit words; a Go \<open>string\<close> is a byte sequence and is an Isabelle \<open>string\<close> (a list
  of 8-bit characters). Go's \<open>int\<close> and \<open>int64\<close> are \<open>int\<close> (or \<open>nat\<close> for lengths),
  with the 64-bit wrap-around written out (\<open>wrap64\<close>) where the code relies on it.
\<close>

unbundle bit_operations_syntax

type_synonym u8 = "8 word"
type_synonym u32 = "32 word"
type_synonym u64 = "64 word"
type_synonym bytes = "u8 list"

named_theorems wire_writes "what an encoder appends to its buffer"
named_theorems wire_reads "what a decoder returns on an encoded prefix"
named_theorems progress_rules "decoding operations that never unread their input"
named_theorems sticky_rules "decoders and encoders that keep the first error"

subsection \<open>Signed 64-bit wrap-around\<close>

text \<open>The value of an \<open>int64\<close> expression whose mathematical value is \<open>x\<close>.\<close>

definition wrap64 :: "int \<Rightarrow> int" where
  "wrap64 x = (x + 2 ^ 63) mod 2 ^ 64 - 2 ^ 63"

lemma wrap64_id [simp]: "- (2 ^ 63) \<le> x \<Longrightarrow> x < 2 ^ 63 \<Longrightarrow> wrap64 x = x"
  by (simp add: wrap64_def)

lemma wrap64_range: "- (2 ^ 63) \<le> wrap64 x \<and> wrap64 x < 2 ^ 63"
proof -
  have "0 \<le> (x + 2 ^ 63) mod 2 ^ 64" and "(x + 2 ^ 63) mod 2 ^ 64 < (2 ^ 64 :: int)"
    by simp_all
  then show ?thesis by (simp add: wrap64_def)
qed

subsection \<open>Strings and bytes\<close>

definition byte_of_char :: "char \<Rightarrow> u8" where
  "byte_of_char c = word_of_nat (of_char c)"

definition char_of_byte :: "u8 \<Rightarrow> char" where
  "char_of_byte b = char_of (unat b)"

text \<open>The Go conversions \<open>[]byte(s)\<close> and \<open>string(b)\<close>.\<close>

definition bytes_of_string :: "string \<Rightarrow> bytes" where
  "bytes_of_string s = map byte_of_char s"

definition string_of_bytes :: "bytes \<Rightarrow> string" where
  "string_of_bytes b = map char_of_byte b"

lemma char_of_byte_of_char [simp]: "char_of_byte (byte_of_char c) = c"
proof -
  have "(of_char c :: nat) < 2 ^ 8" by simp
  then have "unat (word_of_nat (of_char c) :: u8) = of_char c"
    by (simp add: unsigned_of_nat take_bit_nat_eq_self)
  then show ?thesis by (simp add: char_of_byte_def byte_of_char_def)
qed

lemma byte_of_char_of_byte [simp]: "byte_of_char (char_of_byte b) = b"
proof -
  have "unat b < 256" using unsigned_less [of b] by simp
  then show ?thesis by (simp add: char_of_byte_def byte_of_char_def)
qed

lemma string_of_bytes_of_string [simp]: "string_of_bytes (bytes_of_string s) = s"
  by (simp add: string_of_bytes_def bytes_of_string_def comp_def)

lemma bytes_of_string_of_bytes [simp]: "bytes_of_string (string_of_bytes b) = b"
  by (simp add: string_of_bytes_def bytes_of_string_def comp_def)

lemma length_bytes_of_string [simp]: "length (bytes_of_string s) = length s"
  by (simp add: bytes_of_string_def)

lemma length_string_of_bytes [simp]: "length (string_of_bytes b) = length b"
  by (simp add: string_of_bytes_def)

lemma bytes_of_string_Nil [simp]: "bytes_of_string [] = []"
  by (simp add: bytes_of_string_def)

lemma string_of_bytes_Nil [simp]: "string_of_bytes [] = []"
  by (simp add: string_of_bytes_def)

lemma bytes_of_string_inj [simp]: "bytes_of_string s = bytes_of_string t \<longleftrightarrow> s = t"
  by (metis string_of_bytes_of_string)

subsection \<open>Conversions of lengths to words\<close>

lemma unat_word_of_nat_u32: "n < 2 ^ 32 \<Longrightarrow> unat (word_of_nat n :: u32) = n"
  by (simp add: unsigned_of_nat take_bit_nat_eq_self)

lemma unat_word_of_nat_u64: "n < 2 ^ 64 \<Longrightarrow> unat (word_of_nat n :: u64) = n"
  by (simp add: unsigned_of_nat take_bit_nat_eq_self)

lemma unat_u32_less: "unat (x :: u32) < 4294967296"
  using unsigned_less [of x] by simp

lemma word_of_nat_u32_le_iff:
  "n < 2 ^ 32 \<Longrightarrow> (word_of_nat n :: u32) \<le> m \<longleftrightarrow> n \<le> unat m"
  by (simp add: word_le_nat_alt unat_word_of_nat_u32)

subsection \<open>Repeating a state-monad computation\<close>

text \<open>The loop \<open>for i := 0; i < n; i++ { x[i] = m() }\<close>.\<close>

fun repeatM :: "nat \<Rightarrow> ('s, 'a) state \<Rightarrow> ('s, 'a list) state" where
  "repeatM 0 m = State_Monad.return []"
| "repeatM (Suc n) m = do { x \<leftarrow> m; xs \<leftarrow> repeatM n m; State_Monad.return (x # xs) }"

text \<open>The loop \<open>for _, x := range xs { f(x) }\<close>.\<close>

fun forM :: "'a list \<Rightarrow> ('a \<Rightarrow> ('s, unit) state) \<Rightarrow> ('s, unit) state" where
  "forM [] f = State_Monad.return ()"
| "forM (x # xs) f = do { f x; forM xs f }"

lemma length_repeatM: "length (fst (run_state (repeatM n m) s)) = n"
  by (induction n arbitrary: s) (auto split: prod.splits dest: sym, metis fst_conv)

end
