(* ===== verification/Go_Std.thy ===== *)
theory Go_Std
  imports Prelude
begin

text \<open>
  The fragment of Go's standard library the source relies on, as executable definitions:
  \<^item> error values: the sentinels of \<open>io\<close>, \<open>io/fs\<close> and \<open>context\<close>, errors built by
    \<open>errors.New\<close> and \<open>fmt.Errorf\<close> (the format and its arguments are kept unrendered),
    \<open>*fs.PathError\<close>, and the two error types the repository declares;
  \<^item> \<open>encoding/binary\<close>'s big-endian conversions;
  \<^item> \<open>bytes.Buffer\<close> as an \<open>io.Writer\<close>, and readers with \<open>io.ReadFull\<close>;
  \<^item> decimal formatting (\<open>%d\<close>), \<open>strings.Split\<close>, \<open>strings.Trim\<close>.
  None of these is code of the repository; they have no entry in the map.
\<close>

subsection \<open>Error values\<close>

datatype sentinel =
    EOF | ErrUnexpectedEOF | ErrShortWrite
  | Canceled | DeadlineExceeded
  | ErrInvalid | ErrExist | ErrNotExist | ErrPermission | ErrClosed
  | ErrLimitExceeded | ErrFragmentTooLarge

datatype fmtarg = FInt nat | FStr string

text \<open>
  \<open>ErrorF\<close> is \<open>fmt.Errorf\<close> or \<open>errors.New\<close> with no wrapped error, \<open>WrapF\<close> is
  \<open>fmt.Errorf\<close> with a \<open>%w\<close> verb. \<open>ExtError n ss\<close> is an error made by the runtime (a
  socket, a dialler, a random source), opaque but for the sentinels \<open>ss\<close> that its own
  \<open>Is\<close> method accepts.
\<close>

datatype goerror =
    Sentinel sentinel
  | ErrorF string "fmtarg list"
  | WrapF string "fmtarg list" goerror
  | PathError string string goerror
  | StatusError u32
  | AuthError u32
  | ExtError nat "sentinel list"

subsection \<open>encoding/binary: big-endian integers\<close>

definition BigEndian_PutUint32 :: "u32 \<Rightarrow> bytes" where
  "BigEndian_PutUint32 v =
     [ucast (drop_bit 24 v), ucast (drop_bit 16 v), ucast (drop_bit 8 v), ucast v]"

definition BigEndian_Uint32 :: "bytes \<Rightarrow> u32" where
  "BigEndian_Uint32 b =
     ucast (b ! 3) OR push_bit 8 (ucast (b ! 2)) OR
     push_bit 16 (ucast (b ! 1)) OR push_bit 24 (ucast (b ! 0))"

definition BigEndian_PutUint64 :: "u64 \<Rightarrow> bytes" where
  "BigEndian_PutUint64 v =
     [ucast (drop_bit 56 v), ucast (drop_bit 48 v), ucast (drop_bit 40 v), ucast (drop_bit 32 v),
      ucast (drop_bit 24 v), ucast (drop_bit 16 v), ucast (drop_bit 8 v), ucast v]"

definition BigEndian_Uint64 :: "bytes \<Rightarrow> u64" where
  "BigEndian_Uint64 b =
     ucast (b ! 7) OR push_bit 8 (ucast (b ! 6)) OR
     push_bit 16 (ucast (b ! 5)) OR push_bit 24 (ucast (b ! 4)) OR
     push_bit 32 (ucast (b ! 3)) OR push_bit 40 (ucast (b ! 2)) OR
     push_bit 48 (ucast (b ! 1)) OR push_bit 56 (ucast (b ! 0))"

lemma length_BigEndian_PutUint32 [simp]: "length (BigEndian_PutUint32 v) = 4"
  by (simp add: BigEndian_PutUint32_def)

lemma length_BigEndian_PutUint64 [simp]: "length (BigEndian_PutUint64 v) = 8"
  by (simp add: BigEndian_PutUint64_def)

lemma BigEndian_Uint32_Put [simp]: "BigEndian_Uint32 (BigEndian_PutUint32 v) = v"
proof (rule bit_word_eqI)
  fix n :: nat
  assume "n < LENGTH(32)"
  then consider "n < 8" | "8 \<le> n" "n < 16" | "16 \<le> n" "n < 24" | "24 \<le> n" "n < 32"
    by fastforce
  then show "bit (BigEndian_Uint32 (BigEndian_PutUint32 v)) n = bit v n"
    by cases (auto simp: BigEndian_Uint32_def BigEndian_PutUint32_def bit_simps less_diff_conv2)
qed

lemma BigEndian_Uint64_Put [simp]: "BigEndian_Uint64 (BigEndian_PutUint64 v) = v"
proof (rule bit_word_eqI)
  fix n :: nat
  assume "n < LENGTH(64)"
  then consider "n < 8" | "8 \<le> n" "n < 16" | "16 \<le> n" "n < 24" | "24 \<le> n" "n < 32"
    | "32 \<le> n" "n < 40" | "40 \<le> n" "n < 48" | "48 \<le> n" "n < 56" | "56 \<le> n" "n < 64"
    by fastforce
  then show "bit (BigEndian_Uint64 (BigEndian_PutUint64 v)) n = bit v n"
    by cases (auto simp: BigEndian_Uint64_def BigEndian_PutUint64_def bit_simps less_diff_conv2)
qed

subsection \<open>io.Writer: bytes.Buffer\<close>

text \<open>
  The \<open>Write\<close> method of an \<open>io.Writer\<close> with state \<open>'w\<close>: it takes the bytes, and
  returns the error (\<open>None\<close> when all of them were written) and the new state.
\<close>

type_synonym 'w writer = "bytes \<Rightarrow> 'w \<Rightarrow> goerror option \<times> 'w"

definition Buffer_Write :: "bytes writer" where
  "Buffer_Write p b = (None, b @ p)"

subsection \<open>io.Reader and io.ReadFull\<close>

text \<open>
  A reader is the sequence of segments in which its data arrive and the error \<open>Read\<close>
  returns once they are used up: \<open>io.EOF\<close> for a \<open>bytes.Reader\<close> or an orderly shutdown, a
  socket error otherwise. One \<open>Read\<close> returns bytes of one segment only, so a reader with
  many small segments models a stream that delivers its data piecemeal.
\<close>

record reader =
  rd_chunks :: "bytes list"
  rd_end :: goerror

fun Reader_Read :: "nat \<Rightarrow> reader \<Rightarrow> (bytes \<times> goerror option) \<times> reader" where
  "Reader_Read n r =
     (case rd_chunks r of
        [] \<Rightarrow> (([], Some (rd_end r)), r)
      | c # cs \<Rightarrow>
          if length c \<le> n then ((c, None), r\<lparr>rd_chunks := cs\<rparr>)
          else ((take n c, None), r\<lparr>rd_chunks := drop n c # cs\<rparr>))"

definition rd_bytes :: "reader \<Rightarrow> bytes" where
  "rd_bytes r = concat (rd_chunks r)"

definition rd_measure :: "reader \<Rightarrow> nat" where
  "rd_measure r = length (rd_bytes r) + length (rd_chunks r)"

lemma Reader_Read_None:
  "Reader_Read n r = ((p, None), r') \<Longrightarrow> rd_bytes r = p @ rd_bytes r' \<and> rd_end r' = rd_end r"
  by (auto simp: rd_bytes_def split: list.splits if_splits)

lemma Reader_Read_Some:
  "Reader_Read n r = ((p, Some e), r') \<Longrightarrow> p = [] \<and> rd_bytes r = [] \<and> e = rd_end r \<and> r' = r"
  by (auto simp: rd_bytes_def split: list.splits if_splits)

lemma Reader_Read_length: "Reader_Read n r = ((p, e), r') \<Longrightarrow> length p \<le> n"
  by (auto split: list.splits if_splits)

lemma Reader_Read_measure:
  "0 < n \<Longrightarrow> Reader_Read n r = ((p, None), r') \<Longrightarrow> rd_measure r' < rd_measure r"
  by (auto simp: rd_measure_def rd_bytes_def split: list.splits if_splits)

declare Reader_Read.simps [simp del]

text \<open>The loop of \<open>io.ReadAtLeast\<close> with \<open>min = len(buf) = want\<close>.\<close>

function ReadFull_loop :: "nat \<Rightarrow> bytes \<Rightarrow> reader \<Rightarrow> (bytes \<times> goerror option) \<times> reader" where
  "ReadFull_loop want got r =
     (if want \<le> length got then ((got, None), r)
      else case Reader_Read (want - length got) r of
             ((p, Some e), r') \<Rightarrow> ((got @ p, Some e), r')
           | ((p, None), r') \<Rightarrow> ReadFull_loop want (got @ p) r')"
  by pat_completeness auto
termination
proof (relation "measure (\<lambda>(want, got, r). rd_measure r)", goal_cases)
  case 1
  show ?case by simp
next
  case (2 want got r x r' p e)
  then have "0 < want - length got" and "Reader_Read (want - length got) r = ((p, None), r')"
    by simp_all
  then have "rd_measure r' < rd_measure r" by (rule Reader_Read_measure)
  then show ?case by simp
qed

declare ReadFull_loop.simps [simp del]

text \<open>
  \<open>io.ReadFull(r, buf)\<close> with \<open>len(buf) = n\<close>: the bytes read and the error. \<open>io.EOF\<close>
  after some bytes becomes \<open>io.ErrUnexpectedEOF\<close>.
\<close>

definition io_ReadFull :: "nat \<Rightarrow> reader \<Rightarrow> (bytes \<times> goerror option) \<times> reader" where
  "io_ReadFull n r =
     (case ReadFull_loop n [] r of
        ((p, err), r') \<Rightarrow>
          if n \<le> length p then ((p, None), r')
          else if p \<noteq> [] \<and> err = Some (Sentinel EOF)
            then ((p, Some (Sentinel ErrUnexpectedEOF)), r')
          else ((p, err), r'))"

lemma ReadFull_loop_enough:
  assumes "want \<le> length got + length (rd_bytes r)" and "length got \<le> want"
  shows "\<exists>r'. ReadFull_loop want got r = ((got @ take (want - length got) (rd_bytes r), None), r')
           \<and> rd_bytes r' = drop (want - length got) (rd_bytes r) \<and> rd_end r' = rd_end r"
  using assms
proof (induction want got r rule: ReadFull_loop.induct)
  case (1 want got r)
  show ?case
  proof (cases "want \<le> length got")
    case True
    then show ?thesis using "1.prems" by (subst ReadFull_loop.simps) auto
  next
    case False
    obtain p e r' where rd: "Reader_Read (want - length got) r = ((p, e), r')"
      by (metis prod.exhaust)
    with False "1.prems" have e: "e = None"
      by (cases e) (auto dest: Reader_Read_Some)
    from rd e have dr: "rd_bytes r = p @ rd_bytes r'" "rd_end r' = rd_end r"
      by (auto dest: Reader_Read_None)
    from rd have lp: "length p \<le> want - length got" by (rule Reader_Read_length)
    from "1.IH" [OF False rd [symmetric] refl] e dr "1.prems" lp False
    show ?thesis by (subst ReadFull_loop.simps) (auto simp: rd)
  qed
qed

lemma ReadFull_loop_short:
  assumes "length got + length (rd_bytes r) < want"
  shows "\<exists>r'. ReadFull_loop want got r = ((got @ rd_bytes r, Some (rd_end r)), r')
           \<and> rd_bytes r' = [] \<and> rd_end r' = rd_end r"
  using assms
proof (induction want got r rule: ReadFull_loop.induct)
  case (1 want got r)
  then have False: "\<not> want \<le> length got" by simp
  obtain p e r' where rd: "Reader_Read (want - length got) r = ((p, e), r')"
    by (metis prod.exhaust)
  show ?case
  proof (cases e)
    case None
    with rd have dr: "rd_bytes r = p @ rd_bytes r'" "rd_end r' = rd_end r"
      by (auto dest: Reader_Read_None)
    from "1.IH" [OF False rd [symmetric] refl] None dr "1.prems" False
    show ?thesis by (subst ReadFull_loop.simps) (auto simp: rd)
  next
    case (Some e')
    with rd False show ?thesis
      by (subst ReadFull_loop.simps) (auto dest: Reader_Read_Some)
  qed
qed

text \<open>
  \<open>io.ReadFull\<close> depends on the data only, not on the segments they arrive in.
\<close>

lemma io_ReadFull_ok:
  assumes "n \<le> length (rd_bytes r)"
  shows "\<exists>r'. io_ReadFull n r = ((take n (rd_bytes r), None), r')
           \<and> rd_bytes r' = drop n (rd_bytes r) \<and> rd_end r' = rd_end r"
  using ReadFull_loop_enough [of n "[]" r] assms by (auto simp: io_ReadFull_def)

definition short_error :: "bytes \<Rightarrow> goerror \<Rightarrow> goerror" where
  "short_error p e =
     (if p \<noteq> [] \<and> e = Sentinel EOF then Sentinel ErrUnexpectedEOF else e)"

lemma io_ReadFull_short:
  assumes "length (rd_bytes r) < n"
  shows "\<exists>r'. io_ReadFull n r = ((rd_bytes r, Some (short_error (rd_bytes r) (rd_end r))), r')
           \<and> rd_bytes r' = [] \<and> rd_end r' = rd_end r"
  using ReadFull_loop_short [of "[]" r n] assms
  by (auto simp: io_ReadFull_def short_error_def)

lemma io_ReadFull_NoneD:
  assumes "io_ReadFull n r = ((p, None), r')"
  shows "n \<le> length (rd_bytes r) \<and> p = take n (rd_bytes r) \<and>
         rd_bytes r' = drop n (rd_bytes r) \<and> rd_end r' = rd_end r"
  using io_ReadFull_ok [of n r] io_ReadFull_short [of r n] assms
  by (cases "n \<le> length (rd_bytes r)") auto

lemma io_ReadFull_SomeD:
  assumes "io_ReadFull n r = ((p, Some e), r')"
  shows "length (rd_bytes r) < n \<and> e = short_error (rd_bytes r) (rd_end r) \<and>
         rd_bytes r' = [] \<and> rd_end r' = rd_end r"
  using io_ReadFull_ok [of n r] io_ReadFull_short [of r n] assms
  by (cases "n \<le> length (rd_bytes r)") auto

text \<open>\<open>bytes.NewReader(s)\<close>.\<close>

definition bytes_reader :: "bytes \<Rightarrow> reader" where
  "bytes_reader s = \<lparr>rd_chunks = (if s = [] then [] else [s]), rd_end = Sentinel EOF\<rparr>"

lemma rd_bytes_bytes_reader [simp]: "rd_bytes (bytes_reader s) = s"
  by (simp add: bytes_reader_def rd_bytes_def)

lemma rd_end_bytes_reader [simp]: "rd_end (bytes_reader s) = Sentinel EOF"
  by (simp add: bytes_reader_def)

lemma Reader_Read_bytes_reader:
  "Reader_Read n (bytes_reader s) =
     (if s = [] then (([], Some (Sentinel EOF)), bytes_reader [])
      else ((take n s, None), bytes_reader (drop n s)))"
  by (auto simp: Reader_Read.simps bytes_reader_def)

lemma ReadFull_loop_bytes_reader:
  "want \<le> length got + length s \<Longrightarrow> length got \<le> want \<Longrightarrow>
   ReadFull_loop want got (bytes_reader s) =
     ((got @ take (want - length got) s, None), bytes_reader (drop (want - length got) s))"
  by (subst ReadFull_loop.simps)
    (auto simp: Reader_Read_bytes_reader ReadFull_loop.simps [of want "got @ take _ s"])

lemma io_ReadFull_bytes_reader [simp]:
  "n \<le> length s \<Longrightarrow> io_ReadFull n (bytes_reader s) = ((take n s, None), bytes_reader (drop n s))"
  by (simp add: io_ReadFull_def ReadFull_loop_bytes_reader)

lemma io_ReadFull_bytes_reader_short:
  assumes "length s < n"
  shows "io_ReadFull n (bytes_reader s) =
           ((s, Some (Sentinel (if s = [] then EOF else ErrUnexpectedEOF))), bytes_reader [])"
proof -
  have "ReadFull_loop n [] (bytes_reader s) = ((s, Some (Sentinel EOF)), bytes_reader [])"
    using assms
    by (subst ReadFull_loop.simps)
      (auto simp: Reader_Read_bytes_reader ReadFull_loop.simps [of n s "bytes_reader []"])
  then show ?thesis using assms by (auto simp: io_ReadFull_def)
qed

subsection \<open>Decimal formatting and string splitting\<close>

text \<open>The verb \<open>%d\<close> on an unsigned value.\<close>

fun dec_string :: "nat \<Rightarrow> string" where
  "dec_string n =
     (if n < 10 then [char_of (48 + n)] else dec_string (n div 10) @ [char_of (48 + n mod 10)])"

declare dec_string.simps [simp del]

text \<open>\<open>strings.Split(s, sep)\<close> for a separator of one character.\<close>

fun strings_Split :: "string \<Rightarrow> char \<Rightarrow> string list" where
  "strings_Split [] sep = [[]]"
| "strings_Split (c # cs) sep =
     (if c = sep then [] # strings_Split cs sep
      else case strings_Split cs sep of
             [] \<Rightarrow> [[c]]
           | w # ws \<Rightarrow> (c # w) # ws)"

text \<open>\<open>strings.Trim(s, cutset)\<close> for a cutset of one character.\<close>

definition strings_Trim :: "string \<Rightarrow> char \<Rightarrow> string" where
  "strings_Trim s c = rev (dropWhile (\<lambda>x. x = c) (rev (dropWhile (\<lambda>x. x = c) s)))"

lemma strings_Split_nonempty [simp]: "strings_Split s sep \<noteq> []"
  by (cases s) (auto split: list.splits)

end
