(* ===== verification/Xdr.thy ===== *)
theory Xdr
  imports Go_Std
begin

text \<open>
  Package \<open>xdr\<close>: the sticky-error encoder and decoder of \<open>src/xdr/encoder.go\<close> and
  \<open>src/xdr/decoder.go\<close>. Both are state-monad programs over a record that holds the
  underlying writer or reader and the first error; the scratch array \<open>buf\<close> of the source
  is never read before it is written and is left out. The interface \<open>io.Writer\<close> is a
  method and its state, the interface \<open>io.Reader\<close> the record \<open>reader\<close>.

  After the operations come two predicates that carry the proofs of every wire type,
  \<open>writes\<close> (what an encoder appends to a buffer) and \<open>reads\<close> (what a decoder returns on
  a prefix of its input), both closed under sequencing, and the locale \<open>codec\<close> that states
  what an encoder and a decoder of one type promise each other.
\<close>

subsection \<open>Encoder\<close>

definition Unit :: nat where
  "Unit = 4"

record 'w encoder =
  enc_w :: 'w
  enc_Write :: "'w writer"
  enc_err :: "goerror option"

definition NewEncoder :: "'w writer \<Rightarrow> 'w \<Rightarrow> 'w encoder" where
  "NewEncoder wr w = \<lparr>enc_w = w, enc_Write = wr, enc_err = None\<rparr>"

definition Encoder_Err :: "'w encoder \<Rightarrow> goerror option" where
  "Encoder_Err e = enc_err e"

definition Encoder_write :: "bytes \<Rightarrow> ('w encoder, unit) state" where
  "Encoder_write p = do {
     e \<leftarrow> State_Monad.get;
     if enc_err e \<noteq> None then State_Monad.return ()
     else case enc_Write e p (enc_w e) of
            (err, w') \<Rightarrow> State_Monad.set (e\<lparr>enc_w := w', enc_err := err\<rparr>)
   }"

definition Encoder_pad :: "nat \<Rightarrow> ('w encoder, unit) state" where
  "Encoder_pad n =
     (if n = 0 then State_Monad.return () else Encoder_write (take n (replicate Unit 0)))"

definition pad4 :: "nat \<Rightarrow> nat" where
  "pad4 n = (let r = n mod Unit in if r = 0 then 0 else Unit - r)"

definition Encoder_Uint32 :: "u32 \<Rightarrow> ('w encoder, unit) state" where
  "Encoder_Uint32 v = Encoder_write (BigEndian_PutUint32 v)"

definition Encoder_Int32 :: "int \<Rightarrow> ('w encoder, unit) state" where
  "Encoder_Int32 v = Encoder_Uint32 (word_of_int v)"

definition Encoder_Uint64 :: "u64 \<Rightarrow> ('w encoder, unit) state" where
  "Encoder_Uint64 v = Encoder_write (BigEndian_PutUint64 v)"

definition Encoder_Int64 :: "int \<Rightarrow> ('w encoder, unit) state" where
  "Encoder_Int64 v = Encoder_Uint64 (word_of_int v)"

definition Encoder_Bool :: "bool \<Rightarrow> ('w encoder, unit) state" where
  "Encoder_Bool v = (if v then Encoder_Uint32 1 else Encoder_Uint32 0)"

definition Encoder_Opaque :: "bytes \<Rightarrow> ('w encoder, unit) state" where
  "Encoder_Opaque p = do {
     Encoder_Uint32 (word_of_nat (length p));
     Encoder_write p;
     Encoder_pad (pad4 (length p))
   }"

definition Encoder_FixedOpaque :: "bytes \<Rightarrow> ('w encoder, unit) state" where
  "Encoder_FixedOpaque p = do {
     Encoder_write p;
     Encoder_pad (pad4 (length p))
   }"

definition Encoder_String :: "string \<Rightarrow> ('w encoder, unit) state" where
  "Encoder_String s = do {
     Encoder_Uint32 (word_of_nat (length s));
     Encoder_write (bytes_of_string s);
     Encoder_pad (pad4 (length s))
   }"

definition Encoder_Union :: "u32 \<Rightarrow> ('w encoder, unit) state option \<Rightarrow> ('w encoder, unit) state" where
  "Encoder_Union discriminant encodeArm = do {
     Encoder_Uint32 discriminant;
     (case encodeArm of None \<Rightarrow> State_Monad.return () | Some arm \<Rightarrow> arm)
   }"

subsection \<open>Decoder\<close>

definition defaultMaxLen :: u32 where
  "defaultMaxLen = 64 * 2 ^ 20"

record decoder =
  dec_r :: reader
  dec_MaxLen :: u32
  dec_err :: "goerror option"

definition NewDecoder :: "reader \<Rightarrow> decoder" where
  "NewDecoder r = \<lparr>dec_r = r, dec_MaxLen = 0, dec_err = None\<rparr>"

definition Decoder_Err :: "(decoder, goerror option) state" where
  "Decoder_Err = do { d \<leftarrow> State_Monad.get; State_Monad.return (dec_err d) }"

definition Decoder_maxLen :: "decoder \<Rightarrow> u32" where
  "Decoder_maxLen d = (if dec_MaxLen d = 0 then defaultMaxLen else dec_MaxLen d)"

text \<open>
  \<open>read\<close> fills a buffer of length \<open>n\<close>; the value is the buffer, all zero when nothing is
  read. Its contents after a failed read are never looked at by the callers.
\<close>

definition Decoder_read :: "nat \<Rightarrow> (decoder, bytes) state" where
  "Decoder_read n = do {
     d \<leftarrow> State_Monad.get;
     if dec_err d \<noteq> None then State_Monad.return (replicate n 0)
     else case io_ReadFull n (dec_r d) of
            ((p, err), r') \<Rightarrow> do {
              State_Monad.set (d\<lparr>dec_r := r', dec_err := err\<rparr>);
              State_Monad.return p
            }
   }"

definition Decoder_discard :: "nat \<Rightarrow> (decoder, unit) state" where
  "Decoder_discard n = do {
     err \<leftarrow> Decoder_Err;
     if n = 0 \<or> err \<noteq> None then State_Monad.return ()
     else do { Decoder_read n; State_Monad.return () }
   }"

definition Decoder_Uint32 :: "(decoder, u32) state" where
  "Decoder_Uint32 = do {
     p \<leftarrow> Decoder_read 4;
     err \<leftarrow> Decoder_Err;
     State_Monad.return (if err \<noteq> None then 0 else BigEndian_Uint32 p)
   }"

definition Decoder_Int32 :: "(decoder, int) state" where
  "Decoder_Int32 = do { v \<leftarrow> Decoder_Uint32; State_Monad.return (sint v) }"

definition Decoder_Uint64 :: "(decoder, u64) state" where
  "Decoder_Uint64 = do {
     p \<leftarrow> Decoder_read 8;
     err \<leftarrow> Decoder_Err;
     State_Monad.return (if err \<noteq> None then 0 else BigEndian_Uint64 p)
   }"

definition Decoder_Int64 :: "(decoder, int) state" where
  "Decoder_Int64 = do { v \<leftarrow> Decoder_Uint64; State_Monad.return (sint v) }"

definition Decoder_Bool :: "(decoder, bool) state" where
  "Decoder_Bool = do { v \<leftarrow> Decoder_Uint32; State_Monad.return (v \<noteq> 0) }"

text \<open>A nil slice is \<open>None\<close>: \<open>Opaque\<close> returns nil exactly when it fails.\<close>

definition Decoder_set_err :: "goerror \<Rightarrow> (decoder, unit) state" where
  "Decoder_set_err e = do { d \<leftarrow> State_Monad.get; State_Monad.set (d\<lparr>dec_err := Some e\<rparr>) }"

definition Decoder_Opaque :: "(decoder, bytes option) state" where
  "Decoder_Opaque = do {
     n \<leftarrow> Decoder_Uint32;
     d \<leftarrow> State_Monad.get;
     if dec_err d \<noteq> None then State_Monad.return None
     else if n > Decoder_maxLen d then do {
       Decoder_set_err (Sentinel ErrLimitExceeded);
       State_Monad.return None
     }
     else do {
       out \<leftarrow> Decoder_read (unat n);
       err \<leftarrow> Decoder_Err;
       if err \<noteq> None then State_Monad.return None
       else do {
         Decoder_discard (pad4 (unat n));
         err \<leftarrow> Decoder_Err;
         State_Monad.return (if err \<noteq> None then None else Some out)
       }
     }
   }"

definition Decoder_FixedOpaque :: "int \<Rightarrow> (decoder, bytes option) state" where
  "Decoder_FixedOpaque n =
     (if n < 0 then do {
        Decoder_set_err (Sentinel ErrLimitExceeded);
        State_Monad.return None
      }
      else do {
        out \<leftarrow> Decoder_read (nat n);
        err \<leftarrow> Decoder_Err;
        if err \<noteq> None then State_Monad.return None
        else do {
          Decoder_discard (pad4 (nat n));
          err \<leftarrow> Decoder_Err;
          State_Monad.return (if err \<noteq> None then None else Some out)
        }
      })"

text \<open>The contents of a slice where nil and empty are not told apart.\<close>

definition nilb :: "bytes option \<Rightarrow> bytes" where
  "nilb b = (case b of None \<Rightarrow> [] | Some p \<Rightarrow> p)"

definition Decoder_String :: "(decoder, string) state" where
  "Decoder_String = do { b \<leftarrow> Decoder_Opaque; State_Monad.return (string_of_bytes (nilb b)) }"

definition Decoder_Union :: "(u32 \<Rightarrow> (decoder, unit) state) option \<Rightarrow> (decoder, u32) state" where
  "Decoder_Union decodeArm = do {
     disc \<leftarrow> Decoder_Uint32;
     err \<leftarrow> Decoder_Err;
     if err \<noteq> None then State_Monad.return 0
     else do {
       (case decodeArm of None \<Rightarrow> State_Monad.return () | Some arm \<Rightarrow> arm disc);
       State_Monad.return disc
     }
   }"

subsection \<open>Sticky errors\<close>

definition enc_sticky :: "('w encoder, 'a) state \<Rightarrow> bool" where
  "enc_sticky m \<longleftrightarrow> (\<forall>e. enc_err e \<noteq> None \<longrightarrow> snd (run_state m e) = e)"

definition dec_sticky :: "(decoder, 'a) state \<Rightarrow> bool" where
  "dec_sticky m \<longleftrightarrow> (\<forall>d. dec_err d \<noteq> None \<longrightarrow> snd (run_state m d) = d)"

text \<open>In a failed decoder the program also returns the zero value \<open>z\<close>.\<close>

definition dec_zero :: "(decoder, 'a) state \<Rightarrow> 'a \<Rightarrow> bool" where
  "dec_zero m z \<longleftrightarrow> (\<forall>d. dec_err d \<noteq> None \<longrightarrow> run_state m d = (z, d))"

lemma dec_zero_sticky: "dec_zero m z \<Longrightarrow> dec_sticky m"
  by (simp add: dec_zero_def dec_sticky_def)

lemma dec_zeroD: "dec_zero m z \<Longrightarrow> dec_err d \<noteq> None \<Longrightarrow> run_state m d = (z, d)"
  by (simp add: dec_zero_def)

lemma dec_stickyD: "dec_sticky m \<Longrightarrow> dec_err d \<noteq> None \<Longrightarrow> snd (run_state m d) = d"
  by (simp add: dec_sticky_def)

lemma enc_stickyD: "enc_sticky m \<Longrightarrow> enc_err e \<noteq> None \<Longrightarrow> snd (run_state m e) = e"
  by (simp add: enc_sticky_def)

lemma enc_sticky_return [sticky_rules]: "enc_sticky (State_Monad.return x)"
  by (simp add: enc_sticky_def)

lemma enc_sticky_bind [sticky_rules]:
  "enc_sticky m \<Longrightarrow> (\<And>x. enc_sticky (f x)) \<Longrightarrow> enc_sticky (State_Monad.bind m f)"
  by (auto simp: enc_sticky_def split: prod.splits)

lemma enc_sticky_if [sticky_rules]:
  "enc_sticky m \<Longrightarrow> enc_sticky n \<Longrightarrow> enc_sticky (if b then m else n)"
  by simp

lemma enc_sticky_write [sticky_rules]: "enc_sticky (Encoder_write p)"
  by (simp add: enc_sticky_def Encoder_write_def)

lemma enc_sticky_forM [sticky_rules]: "(\<And>x. enc_sticky (f x)) \<Longrightarrow> enc_sticky (forM xs f)"
  by (induction xs) (auto intro: sticky_rules)

lemma dec_sticky_return [sticky_rules]: "dec_sticky (State_Monad.return x)"
  by (simp add: dec_sticky_def)

lemma dec_sticky_bind [sticky_rules]:
  "dec_sticky m \<Longrightarrow> (\<And>x. dec_sticky (f x)) \<Longrightarrow> dec_sticky (State_Monad.bind m f)"
  by (auto simp: dec_sticky_def split: prod.splits)

lemma dec_sticky_if [sticky_rules]:
  "dec_sticky m \<Longrightarrow> dec_sticky n \<Longrightarrow> dec_sticky (if b then m else n)"
  by simp

lemma dec_sticky_get [sticky_rules]: "dec_sticky State_Monad.get"
  by (simp add: dec_sticky_def)

lemma dec_sticky_Err [sticky_rules]: "dec_sticky Decoder_Err"
  by (simp add: dec_sticky_def Decoder_Err_def)

lemma dec_sticky_repeatM [sticky_rules]: "dec_sticky m \<Longrightarrow> dec_sticky (repeatM n m)"
  by (induction n) (auto intro: sticky_rules)

lemma run_Decoder_Err [simp]: "run_state Decoder_Err d = (dec_err d, d)"
  by (simp add: Decoder_Err_def)

lemma Decoder_read_failed: "dec_zero (Decoder_read n) (replicate n 0)"
  by (auto simp: dec_zero_def Decoder_read_def)

lemma Decoder_discard_failed: "dec_zero (Decoder_discard n) ()"
  by (auto simp: dec_zero_def Decoder_discard_def)

lemma Decoder_Uint32_failed: "dec_zero Decoder_Uint32 0"
  by (auto simp: dec_zero_def Decoder_Uint32_def dec_zeroD [OF Decoder_read_failed])

lemma Decoder_Uint64_failed: "dec_zero Decoder_Uint64 0"
  by (auto simp: dec_zero_def Decoder_Uint64_def dec_zeroD [OF Decoder_read_failed])

lemma Decoder_Int32_failed: "dec_zero Decoder_Int32 0"
  by (auto simp: dec_zero_def Decoder_Int32_def dec_zeroD [OF Decoder_Uint32_failed])

lemma Decoder_Int64_failed: "dec_zero Decoder_Int64 0"
  by (auto simp: dec_zero_def Decoder_Int64_def dec_zeroD [OF Decoder_Uint64_failed])

lemma Decoder_Bool_failed: "dec_zero Decoder_Bool False"
  by (auto simp: dec_zero_def Decoder_Bool_def dec_zeroD [OF Decoder_Uint32_failed])

lemma Decoder_Opaque_failed: "dec_zero Decoder_Opaque None"
  by (auto simp: dec_zero_def Decoder_Opaque_def dec_zeroD [OF Decoder_Uint32_failed])

lemma Decoder_FixedOpaque_failed: "0 \<le> n \<Longrightarrow> dec_zero (Decoder_FixedOpaque n) None"
  by (auto simp: dec_zero_def Decoder_FixedOpaque_def dec_zeroD [OF Decoder_read_failed])

lemma Decoder_String_failed: "dec_zero Decoder_String []"
  by (auto simp: dec_zero_def Decoder_String_def nilb_def dec_zeroD [OF Decoder_Opaque_failed])

lemma Decoder_Union_failed: "dec_zero (Decoder_Union arm) 0"
  by (auto simp: dec_zero_def Decoder_Union_def dec_zeroD [OF Decoder_Uint32_failed])

lemmas decoder_failed =
  Decoder_read_failed Decoder_discard_failed Decoder_Uint32_failed Decoder_Uint64_failed
  Decoder_Int32_failed Decoder_Int64_failed Decoder_Bool_failed Decoder_Opaque_failed
  Decoder_String_failed

lemmas decoder_sticky [sticky_rules] = decoder_failed [THEN dec_zero_sticky]
  Decoder_FixedOpaque_failed [THEN dec_zero_sticky]

lemmas encoder_defs =
  Encoder_pad_def Encoder_Uint32_def Encoder_Int32_def Encoder_Uint64_def Encoder_Int64_def
  Encoder_Bool_def Encoder_Opaque_def Encoder_FixedOpaque_def Encoder_String_def

lemma encoder_sticky [sticky_rules]:
  "enc_sticky (Encoder_pad n)" "enc_sticky (Encoder_Uint32 v)" "enc_sticky (Encoder_Int32 i)"
  "enc_sticky (Encoder_Uint64 u)" "enc_sticky (Encoder_Int64 i)" "enc_sticky (Encoder_Bool b)"
  "enc_sticky (Encoder_Opaque p)" "enc_sticky (Encoder_FixedOpaque p)"
  "enc_sticky (Encoder_String s)"
  by (auto simp: encoder_defs intro!: sticky_rules)

subsection \<open>What is written to a buffer, what is read from a prefix\<close>

abbreviation benc :: "bytes \<Rightarrow> bytes encoder" where
  "benc b \<equiv> NewEncoder Buffer_Write b"

abbreviation bdec :: "bytes \<Rightarrow> decoder" where
  "bdec s \<equiv> NewDecoder (bytes_reader s)"

definition writes :: "(bytes encoder, unit) state \<Rightarrow> bytes \<Rightarrow> bool" where
  "writes m bs \<longleftrightarrow> (\<forall>b. run_state m (benc b) = ((), benc (b @ bs)))"

definition reads :: "(decoder, 'a) state \<Rightarrow> 'a \<Rightarrow> bytes \<Rightarrow> bool" where
  "reads m v bs \<longleftrightarrow> (\<forall>rest. run_state m (bdec (bs @ rest)) = (v, bdec rest))"

text \<open>The bytes a program leaves in a fresh \<open>bytes.Buffer\<close>.\<close>

definition encoded :: "(bytes encoder, unit) state \<Rightarrow> bytes" where
  "encoded m = enc_w (snd (run_state m (benc [])))"

lemma writesD: "writes m bs \<Longrightarrow> run_state m (benc b) = ((), benc (b @ bs))"
  by (simp add: writes_def)

lemma readsD: "reads m v bs \<Longrightarrow> run_state m (bdec (bs @ rest)) = (v, bdec rest)"
  by (simp add: reads_def)

lemma readsD0: "reads m v bs \<Longrightarrow> run_state m (bdec bs) = (v, bdec [])"
  using readsD [of m v bs "[]"] by simp

lemma encoded_writes: "writes m bs \<Longrightarrow> encoded m = bs"
  by (simp add: encoded_def writes_def NewEncoder_def)

lemma writes_return [wire_writes]: "writes (State_Monad.return ()) []"
  by (simp add: writes_def)

lemma writes_bind:
  "writes m xs \<Longrightarrow> writes n ys \<Longrightarrow> writes (State_Monad.bind m (\<lambda>_. n)) (xs @ ys)"
  by (simp add: writes_def)

lemma reads_return [wire_reads]: "reads (State_Monad.return v) v []"
  by (simp add: reads_def)

lemma reads_bind:
  "reads m v xs \<Longrightarrow> reads (f v) w ys \<Longrightarrow> reads (State_Monad.bind m f) w (xs @ ys)"
  by (simp add: reads_def)

lemma writes_forM:
  "(\<And>x. x \<in> set xs \<Longrightarrow> writes (f x) (w x)) \<Longrightarrow> writes (forM xs f) (concat (map w xs))"
  by (induction xs) (auto intro: wire_writes writes_bind)

lemma reads_repeatM:
  "(\<And>x. x \<in> set xs \<Longrightarrow> reads m x (w x)) \<Longrightarrow> reads (repeatM (length xs) m) xs (concat (map w xs))"
proof (induction xs)
  case Nil
  then show ?case by (simp add: reads_def)
next
  case (Cons x xs)
  then have "reads m x (w x)" and "reads (repeatM (length xs) m) xs (concat (map w xs))"
    by simp_all
  then show ?case by (simp add: reads_def)
qed

lemma dec_err_bdec [simp]: "dec_err (bdec s) = None"
  by (simp add: NewDecoder_def)

lemma Decoder_maxLen_bdec [simp]: "Decoder_maxLen (bdec s) = defaultMaxLen"
  by (simp add: NewDecoder_def Decoder_maxLen_def)

lemma run_Decoder_Err_bdec [simp]: "run_state Decoder_Err (bdec s) = (None, bdec s)"
  by simp

subsection \<open>Wire forms of the primitive types\<close>

definition zeros :: "nat \<Rightarrow> bytes" where
  "zeros n = replicate n 0"

definition wire_fixed :: "bytes \<Rightarrow> bytes" where
  "wire_fixed p = p @ zeros (pad4 (length p))"

definition wire_opaque :: "bytes \<Rightarrow> bytes" where
  "wire_opaque p = BigEndian_PutUint32 (word_of_nat (length p)) @ wire_fixed p"

definition wire_string :: "string \<Rightarrow> bytes" where
  "wire_string s = wire_opaque (bytes_of_string s)"

definition wire_bool :: "bool \<Rightarrow> bytes" where
  "wire_bool b = BigEndian_PutUint32 (if b then 1 else 0)"

definition opaque_ok :: "bytes \<Rightarrow> bool" where
  "opaque_ok p \<longleftrightarrow> length p \<le> 64 * 2 ^ 20"

lemma pad4_less: "pad4 n < 4"
  by (simp add: pad4_def Unit_def Let_def)

lemma pad4_dvd: "4 dvd n + pad4 n"
  unfolding pad4_def Unit_def Let_def by presburger

lemma pad4_dvd_0 [simp]: "4 dvd n \<Longrightarrow> pad4 n = 0"
  by (auto simp: pad4_def Unit_def)

lemma length_zeros [simp]: "length (zeros n) = n"
  by (simp add: zeros_def)

lemma zeros_0 [simp]: "zeros 0 = []"
  by (simp add: zeros_def)

lemma wire_fixed_dvd [simp]: "4 dvd length p \<Longrightarrow> wire_fixed p = p"
  by (simp add: wire_fixed_def)

lemma length_wire_fixed: "length (wire_fixed p) = length p + pad4 (length p)"
  by (simp add: wire_fixed_def)

lemma aligned_wire_fixed: "4 dvd length (wire_fixed p)"
  by (simp add: length_wire_fixed pad4_dvd)

lemma aligned_wire_opaque: "4 dvd length (wire_opaque p)"
  using aligned_wire_fixed [of p] by (simp add: wire_opaque_def)

lemma writes_write [wire_writes]: "writes (Encoder_write p) p"
  by (simp add: writes_def Encoder_write_def NewEncoder_def Buffer_Write_def)

lemma writes_pad [wire_writes]: "n < 4 \<Longrightarrow> writes (Encoder_pad n) (zeros n)"
  by (auto simp: Encoder_pad_def Unit_def zeros_def min_def
      intro: wire_writes writes_write [of "replicate n 0"])

lemma writes_Uint32 [wire_writes]: "writes (Encoder_Uint32 v) (BigEndian_PutUint32 v)"
  by (simp add: Encoder_Uint32_def wire_writes)

lemma writes_Uint64 [wire_writes]: "writes (Encoder_Uint64 v) (BigEndian_PutUint64 v)"
  by (simp add: Encoder_Uint64_def wire_writes)

lemma writes_Int32 [wire_writes]: "writes (Encoder_Int32 v) (BigEndian_PutUint32 (word_of_int v))"
  by (simp add: Encoder_Int32_def wire_writes)

lemma writes_Int64 [wire_writes]: "writes (Encoder_Int64 v) (BigEndian_PutUint64 (word_of_int v))"
  by (simp add: Encoder_Int64_def wire_writes)

lemma writes_Bool [wire_writes]: "writes (Encoder_Bool b) (wire_bool b)"
  by (simp add: Encoder_Bool_def wire_bool_def wire_writes)

lemma writes_FixedOpaque [wire_writes]: "writes (Encoder_FixedOpaque p) (wire_fixed p)"
  unfolding Encoder_FixedOpaque_def wire_fixed_def
  by (intro writes_bind wire_writes pad4_less)

lemma writes_Opaque [wire_writes]: "writes (Encoder_Opaque p) (wire_opaque p)"
  unfolding Encoder_Opaque_def wire_opaque_def wire_fixed_def
  by (intro writes_bind wire_writes pad4_less)

lemma writes_String [wire_writes]: "writes (Encoder_String s) (wire_string s)"
  using writes_Opaque [of "bytes_of_string s"]
  by (simp add: Encoder_String_def Encoder_Opaque_def wire_string_def)

lemma run_Decoder_read [simp]:
  "n \<le> length s \<Longrightarrow> run_state (Decoder_read n) (bdec s) = (take n s, bdec (drop n s))"
  by (simp add: Decoder_read_def NewDecoder_def)

lemma reads_read [wire_reads]: "reads (Decoder_read (length p)) p p"
  by (simp add: reads_def)

lemma reads_discard [wire_reads]: "reads (Decoder_discard n) () (zeros n)"
  by (simp add: reads_def Decoder_discard_def)

lemma reads_Uint32 [wire_reads]: "reads Decoder_Uint32 v (BigEndian_PutUint32 v)"
  by (simp add: reads_def Decoder_Uint32_def)

lemma reads_Uint64 [wire_reads]: "reads Decoder_Uint64 v (BigEndian_PutUint64 v)"
  by (simp add: reads_def Decoder_Uint64_def)

lemma reads_Int32 [wire_reads]:
  "- (2 ^ 31) \<le> v \<Longrightarrow> v < 2 ^ 31 \<Longrightarrow> reads Decoder_Int32 v (BigEndian_PutUint32 (word_of_int v))"
  by (simp add: reads_def Decoder_Int32_def readsD [OF reads_Uint32] signed_of_int
      signed_take_bit_int_eq_self)

lemma reads_Int64 [wire_reads]:
  "- (2 ^ 63) \<le> v \<Longrightarrow> v < 2 ^ 63 \<Longrightarrow> reads Decoder_Int64 v (BigEndian_PutUint64 (word_of_int v))"
  by (simp add: reads_def Decoder_Int64_def readsD [OF reads_Uint64] signed_of_int
      signed_take_bit_int_eq_self)

lemma reads_Bool [wire_reads]: "reads Decoder_Bool b (wire_bool b)"
  by (simp add: reads_def Decoder_Bool_def wire_bool_def readsD [OF reads_Uint32])

lemma reads_FixedOpaque [wire_reads]:
  assumes "n = int (length p)"
  shows "reads (Decoder_FixedOpaque n) (Some p) (wire_fixed p)"
proof -
  have "run_state (Decoder_discard (pad4 (length p))) (bdec (zeros (pad4 (length p)) @ rest)) =
          ((), bdec rest)" for rest
    by (rule readsD [OF reads_discard])
  then show ?thesis using assms
    by (simp add: reads_def Decoder_FixedOpaque_def wire_fixed_def)
qed

lemma reads_FixedOpaque_aligned:
  "n = int (length p) \<Longrightarrow> 4 dvd length p \<Longrightarrow> reads (Decoder_FixedOpaque n) (Some p) p"
  using reads_FixedOpaque [of n p] by simp

lemma unat_defaultMaxLen: "unat defaultMaxLen = 64 * 2 ^ 20"
  by (simp add: defaultMaxLen_def)

lemma opaque_ok_length: "opaque_ok p \<Longrightarrow> unat (word_of_nat (length p) :: u32) = length p"
  by (simp add: opaque_ok_def unat_word_of_nat_u32)

lemma opaque_ok_limit: "opaque_ok p \<Longrightarrow> \<not> defaultMaxLen < word_of_nat (length p)"
  by (simp add: word_less_nat_alt unat_defaultMaxLen opaque_ok_length) (simp add: opaque_ok_def)

lemma reads_Opaque [wire_reads]:
  assumes "opaque_ok p"
  shows "reads Decoder_Opaque (Some p) (wire_opaque p)"
proof -
  have "run_state (Decoder_discard (pad4 (length p))) (bdec (zeros (pad4 (length p)) @ rest)) =
          ((), bdec rest)" for rest
    by (rule readsD [OF reads_discard])
  then show ?thesis using assms
    by (simp add: reads_def Decoder_Opaque_def wire_opaque_def wire_fixed_def
        readsD [OF reads_Uint32] opaque_ok_length opaque_ok_limit)
qed

definition string_ok :: "string \<Rightarrow> bool" where
  "string_ok s \<longleftrightarrow> opaque_ok (bytes_of_string s)"

lemma reads_String [wire_reads]: "string_ok s \<Longrightarrow> reads Decoder_String s (wire_string s)"
  by (simp add: reads_def Decoder_String_def wire_string_def string_ok_def nilb_def
      readsD [OF reads_Opaque])

lemma aligned_wire_string: "4 dvd length (wire_string s)"
  by (simp add: wire_string_def aligned_wire_opaque)

lemma aligned_wire_bool: "4 dvd length (wire_bool b)"
  by (simp add: wire_bool_def)

subsection \<open>The contract of an encoder and a decoder of one type\<close>

text \<open>
  \<open>enc\<close> and \<open>dec\<close> are the operations of one wire type, \<open>wire\<close> its wire form and
  \<open>ok\<close> the values the decoder accepts (size limits). Every pair of the source that is
  meant to be inverse is an interpretation of this locale.
\<close>

locale codec =
  fixes enc :: "'a \<Rightarrow> (bytes encoder, unit) state"
    and dec :: "(decoder, 'a) state"
    and wire :: "'a \<Rightarrow> bytes"
    and ok :: "'a \<Rightarrow> bool"
  assumes enc_writes: "writes (enc x) (wire x)"
    and dec_reads: "ok x \<Longrightarrow> reads dec x (wire x)"
    and wire_aligned: "ok x \<Longrightarrow> 4 dvd length (wire x)"
begin

lemma encoded_eq: "encoded (enc x) = wire x"
  by (rule encoded_writes) (rule enc_writes)

lemma roundtrip: "ok x \<Longrightarrow> run_state dec (bdec (encoded (enc x) @ rest)) = (x, bdec rest)"
  by (simp add: encoded_eq readsD [OF dec_reads])

lemma wire_prefix_free:
  assumes "ok x" and "ok y" and "wire x @ r = wire y @ t"
  shows "x = y \<and> r = t"
proof -
  have "(x, bdec r) = run_state dec (bdec (wire x @ r))"
    by (rule readsD [OF dec_reads, symmetric]) (rule assms)
  also have "\<dots> = (y, bdec t)"
    by (simp add: assms(3) readsD [OF dec_reads] assms(2))
  finally have "x = y" and "bytes_reader r = bytes_reader t"
    by (simp_all add: NewDecoder_def)
  then have "x = y" and "rd_bytes (bytes_reader r) = rd_bytes (bytes_reader t)"
    by simp_all
  then show ?thesis by simp
qed

lemma wire_inj: "ok x \<Longrightarrow> ok y \<Longrightarrow> wire x = wire y \<Longrightarrow> x = y"
  using wire_prefix_free [of x y "[]" "[]"] by simp

lemma list_writes: "writes (forM xs enc) (concat (map wire xs))"
  by (rule writes_forM) (rule enc_writes)

lemma list_reads:
  "list_all ok xs \<Longrightarrow> reads (repeatM (length xs) dec) xs (concat (map wire xs))"
  by (rule reads_repeatM) (auto simp: list_all_iff intro: dec_reads)

lemma list_aligned: "list_all ok xs \<Longrightarrow> 4 dvd length (concat (map wire xs))"
  by (induction xs) (auto simp: wire_aligned)

end

definition Decoder_OpaqueB :: "(decoder, bytes) state" where
  "Decoder_OpaqueB = do { b \<leftarrow> Decoder_Opaque; State_Monad.return (nilb b) }"

lemma reads_OpaqueB [wire_reads]: "opaque_ok p \<Longrightarrow> reads Decoder_OpaqueB p (wire_opaque p)"
  by (simp add: Decoder_OpaqueB_def reads_def nilb_def readsD [OF reads_Opaque])

lemma Decoder_OpaqueB_failed: "dec_zero Decoder_OpaqueB []"
  by (auto simp: dec_zero_def Decoder_OpaqueB_def nilb_def dec_zeroD [OF Decoder_Opaque_failed])

lemmas decoder_OpaqueB_sticky [sticky_rules] = Decoder_OpaqueB_failed [THEN dec_zero_sticky]

interpretation uint32: codec Encoder_Uint32 Decoder_Uint32 BigEndian_PutUint32 "\<lambda>_. True"
  by unfold_locales (auto intro: wire_writes wire_reads)

interpretation uint64: codec Encoder_Uint64 Decoder_Uint64 BigEndian_PutUint64 "\<lambda>_. True"
  by unfold_locales (auto intro: wire_writes wire_reads)

interpretation int64: codec Encoder_Int64 Decoder_Int64 "\<lambda>v. BigEndian_PutUint64 (word_of_int v)"
  "\<lambda>v. - (2 ^ 63) \<le> v \<and> v < 2 ^ 63"
  by unfold_locales (auto intro: wire_writes wire_reads)

interpretation xbool: codec Encoder_Bool Decoder_Bool wire_bool "\<lambda>_. True"
  by unfold_locales (auto intro: wire_writes wire_reads aligned_wire_bool)

interpretation opaque: codec Encoder_Opaque Decoder_OpaqueB wire_opaque opaque_ok
  by unfold_locales (auto intro: wire_writes wire_reads aligned_wire_opaque)

interpretation xstring: codec Encoder_String Decoder_String wire_string string_ok
  by unfold_locales (auto intro: wire_writes wire_reads aligned_wire_string)

subsection \<open>Short and oversized input\<close>

lemma Decoder_read_short:
  "length s < n \<Longrightarrow> run_state (Decoder_read n) (bdec s) =
     (s, (bdec [])\<lparr>dec_err := Some (Sentinel (if s = [] then EOF else ErrUnexpectedEOF))\<rparr>)"
  by (simp add: Decoder_read_def NewDecoder_def io_ReadFull_bytes_reader_short)

lemma Decoder_Opaque_too_long:
  "defaultMaxLen < n \<Longrightarrow>
   run_state Decoder_Opaque (bdec (BigEndian_PutUint32 n @ rest)) =
     (None, (bdec rest)\<lparr>dec_err := Some (Sentinel ErrLimitExceeded)\<rparr>)"
  by (simp add: Decoder_Opaque_def readsD [OF reads_Uint32] Decoder_set_err_def)

lemma Decoder_Opaque_Some:
  assumes "run_state Decoder_Opaque d = (Some p, d')"
  shows "length p \<le> unat (Decoder_maxLen d) \<and> dec_err d' = None \<and> dec_err d = None"
proof -
  obtain n d1 where n: "run_state Decoder_Uint32 d = (n, d1)" by (metis prod.exhaust)
  have err: "dec_err d = None"
    using assms dec_zeroD [OF Decoder_Opaque_failed, of d] by (cases "dec_err d") auto
  have mx: "dec_MaxLen d1 = dec_MaxLen d"
    using n err
    by (auto simp: Decoder_Uint32_def Decoder_read_def split: prod.splits)
  obtain out d2 where out: "run_state (Decoder_read (unat n)) d1 = (out, d2)" by (metis prod.exhaust)
  from assms n out have "dec_err d1 = None" "\<not> n > Decoder_maxLen d1" "dec_err d2 = None" "p = out"
    and d': "dec_err d' = None"
    by (auto simp: Decoder_Opaque_def split: if_splits prod.splits)
  moreover from this out have "length out = unat n"
    by (auto simp: Decoder_read_def split: prod.splits dest!: io_ReadFull_NoneD)
  ultimately show ?thesis using mx err
    by (simp add: word_le_nat_alt Decoder_maxLen_def not_less split: if_splits)
qed

subsection \<open>Progress\<close>

text \<open>
  The bytes left to a decoder. No operation puts bytes back, and a \<open>true\<close> costs four: loops
  that decode while a flag says so end.
\<close>

definition dec_left :: "decoder \<Rightarrow> nat" where
  "dec_left d = length (rd_bytes (dec_r d))"

definition dec_mono :: "(decoder, 'a) state \<Rightarrow> bool" where
  "dec_mono m \<longleftrightarrow> (\<forall>d. dec_left (snd (run_state m d)) \<le> dec_left d)"

lemma dec_monoD: "dec_mono m \<Longrightarrow> dec_left (snd (run_state m d)) \<le> dec_left d"
  by (simp add: dec_mono_def)

lemma dec_mono_return [progress_rules]: "dec_mono (State_Monad.return x)"
  by (simp add: dec_mono_def)

lemma dec_mono_bind [progress_rules]:
  assumes "dec_mono m" and "\<And>x. dec_mono (f x)"
  shows "dec_mono (State_Monad.bind m f)"
proof (unfold dec_mono_def, intro allI)
  fix d
  obtain v d' where v: "run_state m d = (v, d')" by (metis prod.exhaust)
  then have "dec_left d' \<le> dec_left d" using dec_monoD [OF assms(1), of d] by simp
  moreover have "dec_left (snd (run_state (f v) d')) \<le> dec_left d'"
    by (rule dec_monoD [OF assms(2)])
  ultimately show "dec_left (snd (run_state (State_Monad.bind m f) d)) \<le> dec_left d"
    using v by simp
qed

lemma dec_mono_if [progress_rules]: "dec_mono m \<Longrightarrow> dec_mono m' \<Longrightarrow> dec_mono (if b then m else m')"
  by simp

lemma dec_mono_get [progress_rules]: "dec_mono State_Monad.get"
  by (simp add: dec_mono_def State_Monad.get_def)

lemma dec_mono_Err [progress_rules]: "dec_mono Decoder_Err"
  by (simp add: dec_mono_def)

lemma dec_mono_repeatM [progress_rules]: "dec_mono m \<Longrightarrow> dec_mono (repeatM n m)"
  by (induction n) (auto intro: progress_rules)

lemma dec_mono_set_err [progress_rules]: "dec_mono (Decoder_set_err e)"
  by (simp add: dec_mono_def Decoder_set_err_def dec_left_def)

lemma dec_mono_read [progress_rules]: "dec_mono (Decoder_read n)"
  by (auto simp: dec_mono_def Decoder_read_def dec_left_def split: prod.splits option.splits
      dest!: io_ReadFull_NoneD io_ReadFull_SomeD)
     (metis diff_le_self io_ReadFull_NoneD io_ReadFull_SomeD length_drop list.size(3) not_None_eq zero_le)

lemma dec_mono_discard [progress_rules]: "dec_mono (Decoder_discard n)"
  unfolding Decoder_discard_def by (intro progress_rules)

lemma dec_mono_ops [progress_rules]:
  "dec_mono Decoder_Uint32" "dec_mono Decoder_Int32" "dec_mono Decoder_Uint64"
  "dec_mono Decoder_Int64" "dec_mono Decoder_Bool" "dec_mono Decoder_Opaque"
  "dec_mono (Decoder_FixedOpaque i)" "dec_mono Decoder_String" "dec_mono Decoder_OpaqueB"
  unfolding Decoder_Uint32_def Decoder_Int32_def Decoder_Uint64_def Decoder_Int64_def
    Decoder_Bool_def Decoder_Opaque_def Decoder_FixedOpaque_def Decoder_String_def Decoder_OpaqueB_def
  by (intro progress_rules)+

lemma Decoder_Bool_True_progress:
  assumes "run_state Decoder_Bool d = (True, d')"
  shows "dec_left d' < dec_left d"
proof -
  have "dec_err d = None"
    using assms dec_zeroD [OF Decoder_Bool_failed, of d] by (cases "dec_err d") auto
  with assms obtain p r' where "io_ReadFull 4 (dec_r d) = ((p, None), r')" "dec_r d' = r'"
    by (auto simp: Decoder_Bool_def Decoder_Uint32_def Decoder_read_def split: prod.splits if_splits)
  then show ?thesis by (auto simp: dec_left_def dest: io_ReadFull_NoneD)
qed

subsection \<open>Properties\<close>

text \<open>C24: Decoding what was encoded gives the value back and consumes exactly the encoding,
  whatever follows it: opaque data and strings of at most 64 MiB, and the 32-bit, 64-bit,
  signed and boolean primitives.\<close>

theorem xdr_roundtrip:
  assumes "opaque_ok p" and "string_ok s" and "- (2 ^ 63) \<le> i" and "i < 2 ^ 63"
  shows "run_state Decoder_Opaque (bdec (encoded (Encoder_Opaque p) @ rest)) = (Some p, bdec rest)
       \<and> run_state (Decoder_FixedOpaque (int (length p)))
           (bdec (encoded (Encoder_FixedOpaque p) @ rest)) = (Some p, bdec rest)
       \<and> run_state Decoder_String (bdec (encoded (Encoder_String s) @ rest)) = (s, bdec rest)
       \<and> run_state Decoder_Int64 (bdec (encoded (Encoder_Int64 i) @ rest)) = (i, bdec rest)
       \<and> run_state Decoder_Uint32 (bdec (encoded (Encoder_Uint32 v) @ rest)) = (v, bdec rest)
       \<and> run_state Decoder_Uint64 (bdec (encoded (Encoder_Uint64 u) @ rest)) = (u, bdec rest)
       \<and> run_state Decoder_Bool (bdec (encoded (Encoder_Bool b) @ rest)) = (b, bdec rest)"
  using assms
  by (simp add: uint32.roundtrip uint64.roundtrip int64.roundtrip xbool.roundtrip
      xstring.roundtrip opaque.encoded_eq readsD [OF reads_Opaque]
      encoded_writes [OF writes_FixedOpaque] readsD [OF reads_FixedOpaque [OF refl]])

theorem xdr_roundtrip_witness:
  "run_state Decoder_Opaque (bdec (encoded (Encoder_Opaque [1, 2, 3]) @ [7])) =
     (Some [1, 2, 3], bdec [7])"
  using xdr_roundtrip [of "[1, 2, 3]" "''a''" "- 1" "[7]" 0 0 False]
  by (simp add: opaque_ok_def string_ok_def)

text \<open>In a decoder that has failed, every operation returns its zero value and leaves the
  decoder, its error and its input as they are, so the first error is the one a caller sees
  however many fields it decodes after it (for \<open>FixedOpaque\<close>, with a non-negative
  length).\<close>

theorem Decoder_sticky:
  assumes "dec_err d = Some e" and "0 \<le> n"
  shows "run_state Decoder_Uint32 d = (0, d) \<and> run_state Decoder_Int32 d = (0, d)
       \<and> run_state Decoder_Uint64 d = (0, d) \<and> run_state Decoder_Int64 d = (0, d)
       \<and> run_state Decoder_Bool d = (False, d) \<and> run_state Decoder_Opaque d = (None, d)
       \<and> run_state (Decoder_FixedOpaque n) d = (None, d) \<and> run_state Decoder_String d = ([], d)
       \<and> run_state (Decoder_Union arm) d = (0, d)"
  using assms
  by (simp add: dec_zeroD [OF Decoder_Uint32_failed] dec_zeroD [OF Decoder_Int32_failed]
      dec_zeroD [OF Decoder_Uint64_failed] dec_zeroD [OF Decoder_Int64_failed]
      dec_zeroD [OF Decoder_Bool_failed] dec_zeroD [OF Decoder_Opaque_failed]
      dec_zeroD [OF Decoder_FixedOpaque_failed] dec_zeroD [OF Decoder_String_failed]
      dec_zeroD [OF Decoder_Union_failed])

theorem Decoder_sticky_witness:
  "run_state Decoder_Uint64 ((bdec [1, 2])\<lparr>dec_err := Some (Sentinel EOF)\<rparr>) =
     (0, (bdec [1, 2])\<lparr>dec_err := Some (Sentinel EOF)\<rparr>)"
  using Decoder_sticky [of "(bdec [1, 2])\<lparr>dec_err := Some (Sentinel EOF)\<rparr>" "Sentinel EOF" 0 None]
  by simp

text \<open>\<open>Opaque\<close> never returns more bytes than the decoder's limit (64 MiB when \<open>MaxLen\<close> is
  zero), on any reader and however its data are segmented; and a declared length above the limit
  fails with \<open>ErrLimitExceeded\<close> before any of the data are read.\<close>

theorem Decoder_Opaque_bounded:
  "(run_state Decoder_Opaque d = (Some p, d') \<longrightarrow> length p \<le> unat (Decoder_maxLen d))
   \<and> (defaultMaxLen < n \<longrightarrow>
        run_state Decoder_Opaque (bdec (BigEndian_PutUint32 n @ rest)) =
          (None, (bdec rest)\<lparr>dec_err := Some (Sentinel ErrLimitExceeded)\<rparr>))"
  using Decoder_Opaque_Some [of d p d'] Decoder_Opaque_too_long [of n rest] by blast

theorem Decoder_Opaque_bounded_witness:
  "run_state Decoder_Opaque (bdec (BigEndian_PutUint32 67108865 @ [1, 2])) =
     (None, (bdec [1, 2])\<lparr>dec_err := Some (Sentinel ErrLimitExceeded)\<rparr>)"
  using Decoder_Opaque_bounded [of undefined undefined undefined 67108865 "[1, 2]"]
  by (simp add: defaultMaxLen_def)

text \<open>
  The one operation that is not sticky: a negative length replaces an earlier error.
\<close>

lemma FixedOpaque_overwrites_error:
  "dec_err (snd (run_state (Decoder_FixedOpaque (- 1)) d)) = Some (Sentinel ErrLimitExceeded)"
  by (simp add: Decoder_FixedOpaque_def Decoder_set_err_def)

end
