(* ===== verification/Nfs_Status.thy ===== *)
theory Nfs_Status
  imports Go_Std
begin

text \<open>
  Status codes, operation numbers and error mapping of \<open>src/nfs4/consts.go\<close>. A \<open>Status\<close> is
  the 32-bit \<open>nfsstat4\<close> of the wire; any value can arrive, so the type is \<open>u32\<close> and the
  constants are abbreviations of their values. \<open>errors.Is\<close> and \<open>errors.As\<close> are defined here
  because they call the \<open>Is\<close> method of \<open>StatusError\<close>.
\<close>

subsection \<open>Constants\<close>

type_synonym Status = u32
type_synonym Opnum = u32

abbreviation (input) Program :: u32 where "Program \<equiv> 100003"
abbreviation (input) Version4 :: u32 where "Version4 \<equiv> 4"
abbreviation (input) ProcCompound :: u32 where "ProcCompound \<equiv> 1"

abbreviation (input) VerifierSize :: nat where "VerifierSize \<equiv> 8"
abbreviation (input) SessionIDLen :: nat where "SessionIDLen \<equiv> 16"

abbreviation (input) MinorV40 :: u32 where "MinorV40 \<equiv> 0"
abbreviation (input) MinorV41 :: u32 where "MinorV41 \<equiv> 1"

abbreviation (input) OpAccess :: Opnum where "OpAccess \<equiv> 3"
abbreviation (input) OpClose :: Opnum where "OpClose \<equiv> 4"
abbreviation (input) OpCommit :: Opnum where "OpCommit \<equiv> 5"
abbreviation (input) OpCreate :: Opnum where "OpCreate \<equiv> 6"
abbreviation (input) OpDelegpurge :: Opnum where "OpDelegpurge \<equiv> 7"
abbreviation (input) OpDelegreturn :: Opnum where "OpDelegreturn \<equiv> 8"
abbreviation (input) OpGetattr :: Opnum where "OpGetattr \<equiv> 9"
abbreviation (input) OpGetfh :: Opnum where "OpGetfh \<equiv> 10"
abbreviation (input) OpLink :: Opnum where "OpLink \<equiv> 11"
abbreviation (input) OpLock :: Opnum where "OpLock \<equiv> 12"
abbreviation (input) OpLockt :: Opnum where "OpLockt \<equiv> 13"
abbreviation (input) OpLocku :: Opnum where "OpLocku \<equiv> 14"
abbreviation (input) OpLookup :: Opnum where "OpLookup \<equiv> 15"
abbreviation (input) OpLookupp :: Opnum where "OpLookupp \<equiv> 16"
abbreviation (input) OpNverify :: Opnum where "OpNverify \<equiv> 17"
abbreviation (input) OpOpen :: Opnum where "OpOpen \<equiv> 18"
abbreviation (input) OpOpenattr :: Opnum where "OpOpenattr \<equiv> 19"
abbreviation (input) OpOpenConfirm :: Opnum where "OpOpenConfirm \<equiv> 20"
abbreviation (input) OpOpenDowngrade :: Opnum where "OpOpenDowngrade \<equiv> 21"
abbreviation (input) OpPutfh :: Opnum where "OpPutfh \<equiv> 22"
abbreviation (input) OpPutpubfh :: Opnum where "OpPutpubfh \<equiv> 23"
abbreviation (input) OpPutrootfh :: Opnum where "OpPutrootfh \<equiv> 24"
abbreviation (input) OpRead :: Opnum where "OpRead \<equiv> 25"
abbreviation (input) OpReaddir :: Opnum where "OpReaddir \<equiv> 26"
abbreviation (input) OpReadlink :: Opnum where "OpReadlink \<equiv> 27"
abbreviation (input) OpRemove :: Opnum where "OpRemove \<equiv> 28"
abbreviation (input) OpRename :: Opnum where "OpRename \<equiv> 29"
abbreviation (input) OpRenew :: Opnum where "OpRenew \<equiv> 30"
abbreviation (input) OpRestorefh :: Opnum where "OpRestorefh \<equiv> 31"
abbreviation (input) OpSavefh :: Opnum where "OpSavefh \<equiv> 32"
abbreviation (input) OpSecinfo :: Opnum where "OpSecinfo \<equiv> 33"
abbreviation (input) OpSetattr :: Opnum where "OpSetattr \<equiv> 34"
abbreviation (input) OpSetclientid :: Opnum where "OpSetclientid \<equiv> 35"
abbreviation (input) OpSetclientidConfirm :: Opnum where "OpSetclientidConfirm \<equiv> 36"
abbreviation (input) OpVerify :: Opnum where "OpVerify \<equiv> 37"
abbreviation (input) OpWrite :: Opnum where "OpWrite \<equiv> 38"
abbreviation (input) OpReleaseLockowner :: Opnum where "OpReleaseLockowner \<equiv> 39"
abbreviation (input) OpBindConnToSession :: Opnum where "OpBindConnToSession \<equiv> 41"
abbreviation (input) OpExchangeID :: Opnum where "OpExchangeID \<equiv> 42"
abbreviation (input) OpCreateSession :: Opnum where "OpCreateSession \<equiv> 43"
abbreviation (input) OpDestroySession :: Opnum where "OpDestroySession \<equiv> 44"
abbreviation (input) OpSequence :: Opnum where "OpSequence \<equiv> 53"
abbreviation (input) OpDestroyClientID :: Opnum where "OpDestroyClientID \<equiv> 57"
abbreviation (input) OpReclaimComplete :: Opnum where "OpReclaimComplete \<equiv> 58"
abbreviation (input) OpIllegal :: Opnum where "OpIllegal \<equiv> 10044"

abbreviation (input) NFS4_OK :: Status where "NFS4_OK \<equiv> 0"
abbreviation (input) NFS4ERR_PERM :: Status where "NFS4ERR_PERM \<equiv> 1"
abbreviation (input) NFS4ERR_NOENT :: Status where "NFS4ERR_NOENT \<equiv> 2"
abbreviation (input) NFS4ERR_IO :: Status where "NFS4ERR_IO \<equiv> 5"
abbreviation (input) NFS4ERR_NXIO :: Status where "NFS4ERR_NXIO \<equiv> 6"
abbreviation (input) NFS4ERR_ACCESS :: Status where "NFS4ERR_ACCESS \<equiv> 13"
abbreviation (input) NFS4ERR_EXIST :: Status where "NFS4ERR_EXIST \<equiv> 17"
abbreviation (input) NFS4ERR_XDEV :: Status where "NFS4ERR_XDEV \<equiv> 18"
abbreviation (input) NFS4ERR_NOTDIR :: Status where "NFS4ERR_NOTDIR \<equiv> 20"
abbreviation (input) NFS4ERR_ISDIR :: Status where "NFS4ERR_ISDIR \<equiv> 21"
abbreviation (input) NFS4ERR_INVAL :: Status where "NFS4ERR_INVAL \<equiv> 22"
abbreviation (input) NFS4ERR_FBIG :: Status where "NFS4ERR_FBIG \<equiv> 27"
abbreviation (input) NFS4ERR_NOSPC :: Status where "NFS4ERR_NOSPC \<equiv> 28"
abbreviation (input) NFS4ERR_ROFS :: Status where "NFS4ERR_ROFS \<equiv> 30"
abbreviation (input) NFS4ERR_MLINK :: Status where "NFS4ERR_MLINK \<equiv> 31"
abbreviation (input) NFS4ERR_NAMETOOLONG :: Status where "NFS4ERR_NAMETOOLONG \<equiv> 63"
abbreviation (input) NFS4ERR_NOTEMPTY :: Status where "NFS4ERR_NOTEMPTY \<equiv> 66"
abbreviation (input) NFS4ERR_DQUOT :: Status where "NFS4ERR_DQUOT \<equiv> 69"
abbreviation (input) NFS4ERR_STALE :: Status where "NFS4ERR_STALE \<equiv> 70"
abbreviation (input) NFS4ERR_BADHANDLE :: Status where "NFS4ERR_BADHANDLE \<equiv> 10001"
abbreviation (input) NFS4ERR_BAD_COOKIE :: Status where "NFS4ERR_BAD_COOKIE \<equiv> 10003"
abbreviation (input) NFS4ERR_NOTSUPP :: Status where "NFS4ERR_NOTSUPP \<equiv> 10004"
abbreviation (input) NFS4ERR_TOOSMALL :: Status where "NFS4ERR_TOOSMALL \<equiv> 10005"
abbreviation (input) NFS4ERR_SERVERFAULT :: Status where "NFS4ERR_SERVERFAULT \<equiv> 10006"
abbreviation (input) NFS4ERR_BADTYPE :: Status where "NFS4ERR_BADTYPE \<equiv> 10007"
abbreviation (input) NFS4ERR_DELAY :: Status where "NFS4ERR_DELAY \<equiv> 10008"
abbreviation (input) NFS4ERR_SAME :: Status where "NFS4ERR_SAME \<equiv> 10009"
abbreviation (input) NFS4ERR_DENIED :: Status where "NFS4ERR_DENIED \<equiv> 10010"
abbreviation (input) NFS4ERR_EXPIRED :: Status where "NFS4ERR_EXPIRED \<equiv> 10011"
abbreviation (input) NFS4ERR_LOCKED :: Status where "NFS4ERR_LOCKED \<equiv> 10012"
abbreviation (input) NFS4ERR_GRACE :: Status where "NFS4ERR_GRACE \<equiv> 10013"
abbreviation (input) NFS4ERR_FHEXPIRED :: Status where "NFS4ERR_FHEXPIRED \<equiv> 10014"
abbreviation (input) NFS4ERR_WRONGSEC :: Status where "NFS4ERR_WRONGSEC \<equiv> 10016"
abbreviation (input) NFS4ERR_CLID_INUSE :: Status where "NFS4ERR_CLID_INUSE \<equiv> 10017"
abbreviation (input) NFS4ERR_RESOURCE :: Status where "NFS4ERR_RESOURCE \<equiv> 10018"
abbreviation (input) NFS4ERR_MOVED :: Status where "NFS4ERR_MOVED \<equiv> 10019"
abbreviation (input) NFS4ERR_NOFILEHANDLE :: Status where "NFS4ERR_NOFILEHANDLE \<equiv> 10020"
abbreviation (input) NFS4ERR_MINOR_VERS_MISMATCH :: Status where "NFS4ERR_MINOR_VERS_MISMATCH \<equiv> 10021"
abbreviation (input) NFS4ERR_STALE_CLIENTID :: Status where "NFS4ERR_STALE_CLIENTID \<equiv> 10022"
abbreviation (input) NFS4ERR_STALE_STATEID :: Status where "NFS4ERR_STALE_STATEID \<equiv> 10023"
abbreviation (input) NFS4ERR_OLD_STATEID :: Status where "NFS4ERR_OLD_STATEID \<equiv> 10024"
abbreviation (input) NFS4ERR_BAD_STATEID :: Status where "NFS4ERR_BAD_STATEID \<equiv> 10025"
abbreviation (input) NFS4ERR_BAD_SEQID :: Status where "NFS4ERR_BAD_SEQID \<equiv> 10026"
abbreviation (input) NFS4ERR_NOT_SAME :: Status where "NFS4ERR_NOT_SAME \<equiv> 10027"
abbreviation (input) NFS4ERR_LOCK_RANGE :: Status where "NFS4ERR_LOCK_RANGE \<equiv> 10028"
abbreviation (input) NFS4ERR_SYMLINK :: Status where "NFS4ERR_SYMLINK \<equiv> 10029"
abbreviation (input) NFS4ERR_RESTOREFH :: Status where "NFS4ERR_RESTOREFH \<equiv> 10030"
abbreviation (input) NFS4ERR_BADXDR :: Status where "NFS4ERR_BADXDR \<equiv> 10036"
abbreviation (input) NFS4ERR_OPENMODE :: Status where "NFS4ERR_OPENMODE \<equiv> 10038"
abbreviation (input) NFS4ERR_BADOWNER :: Status where "NFS4ERR_BADOWNER \<equiv> 10039"
abbreviation (input) NFS4ERR_LOCKS_HELD :: Status where "NFS4ERR_LOCKS_HELD \<equiv> 10037"
abbreviation (input) NFS4ERR_RECLAIM_BAD :: Status where "NFS4ERR_RECLAIM_BAD \<equiv> 10034"
abbreviation (input) NFS4ERR_BADSESSION :: Status where "NFS4ERR_BADSESSION \<equiv> 10052"
abbreviation (input) NFS4ERR_BADSLOT :: Status where "NFS4ERR_BADSLOT \<equiv> 10053"
abbreviation (input) NFS4ERR_COMPLETE_ALREADY :: Status where "NFS4ERR_COMPLETE_ALREADY \<equiv> 10054"
abbreviation (input) NFS4ERR_SEQ_MISORDERED :: Status where "NFS4ERR_SEQ_MISORDERED \<equiv> 10063"
abbreviation (input) NFS4ERR_SEQUENCE_POS :: Status where "NFS4ERR_SEQUENCE_POS \<equiv> 10064"
abbreviation (input) NFS4ERR_DEADSESSION :: Status where "NFS4ERR_DEADSESSION \<equiv> 10078"
abbreviation (input) NFS4ERR_CONN_NOT_BOUND_TO_SESSION :: Status where "NFS4ERR_CONN_NOT_BOUND_TO_SESSION \<equiv> 10080"
abbreviation (input) NFS4ERR_OP_ILLEGAL :: Status where "NFS4ERR_OP_ILLEGAL \<equiv> 10044"

subsection \<open>Status names and errors\<close>

definition statusNames :: "(Status \<times> string) list" where
  "statusNames = [
     (NFS4_OK, ''NFS4_OK''),
     (NFS4ERR_PERM, ''NFS4ERR_PERM''),
     (NFS4ERR_NOENT, ''NFS4ERR_NOENT''),
     (NFS4ERR_IO, ''NFS4ERR_IO''),
     (NFS4ERR_NXIO, ''NFS4ERR_NXIO''),
     (NFS4ERR_ACCESS, ''NFS4ERR_ACCESS''),
     (NFS4ERR_EXIST, ''NFS4ERR_EXIST''),
     (NFS4ERR_XDEV, ''NFS4ERR_XDEV''),
     (NFS4ERR_NOTDIR, ''NFS4ERR_NOTDIR''),
     (NFS4ERR_ISDIR, ''NFS4ERR_ISDIR''),
     (NFS4ERR_INVAL, ''NFS4ERR_INVAL''),
     (NFS4ERR_FBIG, ''NFS4ERR_FBIG''),
     (NFS4ERR_NOSPC, ''NFS4ERR_NOSPC''),
     (NFS4ERR_ROFS, ''NFS4ERR_ROFS''),
     (NFS4ERR_MLINK, ''NFS4ERR_MLINK''),
     (NFS4ERR_NAMETOOLONG, ''NFS4ERR_NAMETOOLONG''),
     (NFS4ERR_NOTEMPTY, ''NFS4ERR_NOTEMPTY''),
     (NFS4ERR_DQUOT, ''NFS4ERR_DQUOT''),
     (NFS4ERR_STALE, ''NFS4ERR_STALE''),
     (NFS4ERR_BADHANDLE, ''NFS4ERR_BADHANDLE''),
     (NFS4ERR_BAD_COOKIE, ''NFS4ERR_BAD_COOKIE''),
     (NFS4ERR_NOTSUPP, ''NFS4ERR_NOTSUPP''),
     (NFS4ERR_TOOSMALL, ''NFS4ERR_TOOSMALL''),
     (NFS4ERR_SERVERFAULT, ''NFS4ERR_SERVERFAULT''),
     (NFS4ERR_BADTYPE, ''NFS4ERR_BADTYPE''),
     (NFS4ERR_DELAY, ''NFS4ERR_DELAY''),
     (NFS4ERR_SAME, ''NFS4ERR_SAME''),
     (NFS4ERR_DENIED, ''NFS4ERR_DENIED''),
     (NFS4ERR_EXPIRED, ''NFS4ERR_EXPIRED''),
     (NFS4ERR_LOCKED, ''NFS4ERR_LOCKED''),
     (NFS4ERR_GRACE, ''NFS4ERR_GRACE''),
     (NFS4ERR_FHEXPIRED, ''NFS4ERR_FHEXPIRED''),
     (NFS4ERR_WRONGSEC, ''NFS4ERR_WRONGSEC''),
     (NFS4ERR_CLID_INUSE, ''NFS4ERR_CLID_INUSE''),
     (NFS4ERR_RESOURCE, ''NFS4ERR_RESOURCE''),
     (NFS4ERR_MOVED, ''NFS4ERR_MOVED''),
     (NFS4ERR_NOFILEHANDLE, ''NFS4ERR_NOFILEHANDLE''),
     (NFS4ERR_MINOR_VERS_MISMATCH, ''NFS4ERR_MINOR_VERS_MISMATCH''),
     (NFS4ERR_STALE_CLIENTID, ''NFS4ERR_STALE_CLIENTID''),
     (NFS4ERR_STALE_STATEID, ''NFS4ERR_STALE_STATEID''),
     (NFS4ERR_OLD_STATEID, ''NFS4ERR_OLD_STATEID''),
     (NFS4ERR_BAD_STATEID, ''NFS4ERR_BAD_STATEID''),
     (NFS4ERR_BAD_SEQID, ''NFS4ERR_BAD_SEQID''),
     (NFS4ERR_NOT_SAME, ''NFS4ERR_NOT_SAME''),
     (NFS4ERR_LOCK_RANGE, ''NFS4ERR_LOCK_RANGE''),
     (NFS4ERR_SYMLINK, ''NFS4ERR_SYMLINK''),
     (NFS4ERR_RESTOREFH, ''NFS4ERR_RESTOREFH''),
     (NFS4ERR_BADXDR, ''NFS4ERR_BADXDR''),
     (NFS4ERR_OPENMODE, ''NFS4ERR_OPENMODE''),
     (NFS4ERR_BADOWNER, ''NFS4ERR_BADOWNER''),
     (NFS4ERR_LOCKS_HELD, ''NFS4ERR_LOCKS_HELD''),
     (NFS4ERR_RECLAIM_BAD, ''NFS4ERR_RECLAIM_BAD''),
     (NFS4ERR_BADSESSION, ''NFS4ERR_BADSESSION''),
     (NFS4ERR_BADSLOT, ''NFS4ERR_BADSLOT''),
     (NFS4ERR_COMPLETE_ALREADY, ''NFS4ERR_COMPLETE_ALREADY''),
     (NFS4ERR_SEQ_MISORDERED, ''NFS4ERR_SEQ_MISORDERED''),
     (NFS4ERR_SEQUENCE_POS, ''NFS4ERR_SEQUENCE_POS''),
     (NFS4ERR_DEADSESSION, ''NFS4ERR_DEADSESSION''),
     (NFS4ERR_CONN_NOT_BOUND_TO_SESSION, ''NFS4ERR_CONN_NOT_BOUND_TO_SESSION''),
     (NFS4ERR_OP_ILLEGAL, ''NFS4ERR_OP_ILLEGAL'')]"

definition Status_String :: "Status \<Rightarrow> string" where
  "Status_String s =
     (case map_of statusNames s of
        Some name \<Rightarrow> name
      | None \<Rightarrow> ''NFS4ERR('' @ dec_string (unat s) @ '')'')"

definition Status_Err :: "Status \<Rightarrow> goerror option" where
  "Status_Err s = (if s = NFS4_OK then None else Some (StatusError s))"

definition StatusError_Error :: "Status \<Rightarrow> string" where
  "StatusError_Error s = ''nfs4: '' @ Status_String s"

text \<open>The \<open>Is\<close> method of \<open>*StatusError\<close>.\<close>

fun StatusError_Is :: "Status \<Rightarrow> sentinel \<Rightarrow> bool" where
  "StatusError_Is s ErrNotExist =
     (s = NFS4ERR_NOENT \<or> s = NFS4ERR_STALE \<or> s = NFS4ERR_FHEXPIRED \<or> s = NFS4ERR_NOFILEHANDLE)"
| "StatusError_Is s ErrExist = (s = NFS4ERR_EXIST)"
| "StatusError_Is s ErrPermission =
     (s = NFS4ERR_PERM \<or> s = NFS4ERR_ACCESS \<or> s = NFS4ERR_ROFS)"
| "StatusError_Is s ErrInvalid =
     (s = NFS4ERR_INVAL \<or> s = NFS4ERR_BADXDR \<or> s = NFS4ERR_BADHANDLE \<or> s = NFS4ERR_BADTYPE)"
| "StatusError_Is s _ = False"

text \<open>
  \<open>errors.Is(err, target)\<close> for a sentinel target: compare, ask the error's own \<open>Is\<close>
  method, unwrap. \<open>errors.As(err, &se)\<close> for \<open>se *StatusError\<close>: the first one in the chain.
\<close>

fun errors_Is :: "goerror \<Rightarrow> sentinel \<Rightarrow> bool" where
  "errors_Is (Sentinel s) t = (s = t)"
| "errors_Is (ErrorF f as) t = False"
| "errors_Is (WrapF f as e) t = errors_Is e t"
| "errors_Is (PathError op p e) t = errors_Is e t"
| "errors_Is (StatusError s) t = StatusError_Is s t"
| "errors_Is (AuthError a) t = False"
| "errors_Is (ExtError n ss) t = (t \<in> set ss)"

fun errors_As_StatusError :: "goerror \<Rightarrow> Status option" where
  "errors_As_StatusError (WrapF f as e) = errors_As_StatusError e"
| "errors_As_StatusError (PathError op p e) = errors_As_StatusError e"
| "errors_As_StatusError (StatusError s) = Some s"
| "errors_As_StatusError _ = None"

definition errorHasStatus :: "goerror \<Rightarrow> Status \<Rightarrow> bool" where
  "errorHasStatus err s = (errors_As_StatusError err = Some s)"

subsection \<open>Lemmas\<close>

lemma Status_Err_None [simp]: "Status_Err s = None \<longleftrightarrow> s = NFS4_OK"
  by (simp add: Status_Err_def)

lemma Status_Err_OK [simp]: "Status_Err 0 = None"
  by (simp add: Status_Err_def)

lemma errors_As_Status_Err: "Status_Err s = Some e \<Longrightarrow> errors_As_StatusError e = Some s"
  by (auto simp: Status_Err_def split: if_splits)

text \<open>Each status matches at most one of the \<open>io/fs\<close> sentinels.\<close>

lemma StatusError_Is_unique: "StatusError_Is s t \<Longrightarrow> StatusError_Is s t' \<Longrightarrow> t = t'"
  by (cases t; cases t') auto

text \<open>The name table has one name per code.\<close>

lemma distinct_statusNames: "distinct (map fst statusNames) \<and> distinct (map snd statusNames)"
  by (simp add: statusNames_def)

end
