(* ===== verification/Rpc_Record.thy ===== *)
theory Rpc_Record
  imports Xdr Nfs_Status
begin

text \<open>
  Record marking of \<open>src/rpc/record.go\<close>: \<open>WriteRecord\<close> frames a message as one last
  fragment, \<open>ReadRecord\<close> reassembles the fragments of a message. The writer and the reader
  are those of \<open>Go_Std\<close>; the loop over fragments is a recursion that ends because every
  fragment consumes the four bytes of its header.
\<close>

subsection \<open>Operations\<close>

definition lastFragmentFlag :: u32 where
  "lastFragmentFlag = 0x80000000"

definition fragmentSizeMask :: u32 where
  "fragmentSizeMask = 0x7FFFFFFF"

definition maxFragmentSize :: nat where
  "maxFragmentSize = 256 * 2 ^ 20"

definition maxMessageSize :: nat where
  "maxMessageSize = 512 * 2 ^ 20"

definition WriteRecord :: "'w writer \<Rightarrow> bytes \<Rightarrow> 'w \<Rightarrow> goerror option \<times> 'w" where
  "WriteRecord wr payload w =
     (if word_of_nat (length payload) > fragmentSizeMask
      then (Some (Sentinel ErrFragmentTooLarge), w)
      else case wr (BigEndian_PutUint32 (lastFragmentFlag OR word_of_nat (length payload))) w of
             (Some err, w1) \<Rightarrow> (Some err, w1)
           | (None, w1) \<Rightarrow>
               (case wr payload w1 of
                  (Some err, w2) \<Rightarrow> (Some err, w2)
                | (None, w2) \<Rightarrow> (None, w2)))"

function ReadRecord_loop :: "bytes \<Rightarrow> reader \<Rightarrow> (goerror + bytes) \<times> reader" where
  "ReadRecord_loop msg r =
     (case io_ReadFull 4 r of
        ((hdr, Some err), r1) \<Rightarrow>
          if errors_Is err ErrUnexpectedEOF then (Inl err, r1)
          else if errors_Is err EOF \<and> length msg = 0 then (Inl (Sentinel EOF), r1)
          else (Inl err, r1)
      | ((hdr, None), r1) \<Rightarrow>
          (let marker = BigEndian_Uint32 hdr;
               last = (marker AND lastFragmentFlag \<noteq> 0);
               size = unat (marker AND fragmentSizeMask)
           in
             if size > maxFragmentSize
             then (Inl (WrapF ''%w: %d bytes'' [FInt size] (Sentinel ErrFragmentTooLarge)), r1)
             else if length msg + size > maxMessageSize
             then (Inl (WrapF ''%w: reassembled message too large'' []
                      (Sentinel ErrFragmentTooLarge)), r1)
             else case io_ReadFull size r1 of
                    ((frag, Some err), r2) \<Rightarrow>
                      if errors_Is err EOF then (Inl (Sentinel ErrUnexpectedEOF), r2)
                      else (Inl err, r2)
                  | ((frag, None), r2) \<Rightarrow>
                      if last then (Inr (msg @ frag), r2)
                      else ReadRecord_loop (msg @ frag) r2))"
  by pat_completeness auto
termination
proof (relation "measure (\<lambda>(msg, r). length (rd_bytes r))", goal_cases)
  case 1
  show ?case by simp
next
  case (2 msg r x r1 hdr e marker last size y r2 frag e')
  then have "io_ReadFull 4 r = ((hdr, None), r1)" and "io_ReadFull size r1 = ((frag, None), r2)"
    by simp_all
  then have "4 \<le> length (rd_bytes r)" and "length (rd_bytes r1) = length (rd_bytes r) - 4"
    and "length (rd_bytes r2) \<le> length (rd_bytes r1)"
    by (auto dest!: io_ReadFull_NoneD)
  then show ?case by simp
qed

definition ReadRecord :: "reader \<Rightarrow> (goerror + bytes) \<times> reader" where
  "ReadRecord r = ReadRecord_loop [] r"

declare ReadRecord_loop.simps [simp del]

subsection \<open>Fragment headers\<close>

definition fragment :: "bool \<Rightarrow> bytes \<Rightarrow> bytes" where
  "fragment lf p =
     BigEndian_PutUint32 ((if lf then lastFragmentFlag else 0) OR word_of_nat (length p)) @ p"

lemma bit_lastFragmentFlag: "bit lastFragmentFlag n \<longleftrightarrow> n = 31"
proof -
  have "lastFragmentFlag = push_bit 31 1"
    by (simp add: lastFragmentFlag_def)
  then have "bit lastFragmentFlag n \<longleftrightarrow> bit (push_bit 31 (1 :: u32)) n"
    by (simp only:)
  also have "\<dots> \<longleftrightarrow> n = 31"
    by (simp only: bit_push_bit_iff bit_1_iff possible_bit_word) auto
  finally show ?thesis .
qed

lemma fragmentSizeMask_mask: "fragmentSizeMask = mask 31"
  by (simp add: fragmentSizeMask_def mask_numeral)

lemma bit_small:
  assumes "n < 2 ^ 31" and "bit (word_of_nat n :: u32) i"
  shows "i < 31"
proof (rule ccontr)
  assume "\<not> i < 31"
  moreover have "bit n i" using assms(2) by (simp add: bit_simps)
  moreover have "take_bit 31 n = n" using assms(1) by (simp add: take_bit_nat_eq_self)
  ultimately show False by (metis bit_take_bit_iff)
qed

lemma marker_last:
  assumes "n < 2 ^ 31"
  shows "((if lf then lastFragmentFlag else 0) OR word_of_nat n) AND lastFragmentFlag \<noteq> 0
           \<longleftrightarrow> lf"
proof -
  have "bit (((if lf then lastFragmentFlag else 0) OR word_of_nat n) AND lastFragmentFlag) i
          \<longleftrightarrow> lf \<and> i = 31" for i
    using bit_small [OF assms, of i] by (auto simp: bit_simps bit_lastFragmentFlag)
  then have "((if lf then lastFragmentFlag else 0) OR word_of_nat n) AND lastFragmentFlag
               = (if lf then lastFragmentFlag else 0)"
    by (intro bit_word_eqI) (auto simp: bit_lastFragmentFlag)
  then show ?thesis by (simp add: lastFragmentFlag_def)
qed

lemma marker_size:
  assumes "n < 2 ^ 31"
  shows "unat (((if lf then lastFragmentFlag else 0) OR word_of_nat n) AND fragmentSizeMask) = n"
proof -
  have "((if lf then lastFragmentFlag else 0) OR word_of_nat n) AND fragmentSizeMask
          = word_of_nat n"
    using bit_small [OF assms]
    by (intro bit_word_eqI) (auto simp: bit_simps bit_lastFragmentFlag fragmentSizeMask_mask)
  then show ?thesis using assms by (simp add: unat_word_of_nat_u32)
qed

lemma ReadRecord_loop_fragment:
  assumes rd: "rd_bytes r = fragment lf p @ rest"
    and p: "length p \<le> maxFragmentSize" and m: "length msg + length p \<le> maxMessageSize"
  shows "\<exists>r'. rd_bytes r' = rest \<and> rd_end r' = rd_end r \<and>
           ReadRecord_loop msg r =
             (if lf then (Inr (msg @ p), r') else ReadRecord_loop (msg @ p) r')"
proof -
  define h where "h = BigEndian_PutUint32 ((if lf then lastFragmentFlag else 0) OR word_of_nat (length p))"
  have lh: "length h = 4" by (simp add: h_def)
  have lp: "length p < 2 ^ 31" using p by (simp add: maxFragmentSize_def)
  have rb: "rd_bytes r = h @ p @ rest" using rd by (simp add: fragment_def h_def)
  obtain r1 where 1: "io_ReadFull 4 r = ((h, None), r1)"
    and b1: "rd_bytes r1 = p @ rest" and e1: "rd_end r1 = rd_end r"
    using io_ReadFull_ok [of 4 r] rb lh by auto
  obtain r2 where 2: "io_ReadFull (length p) r1 = ((p, None), r2)"
    and b2: "rd_bytes r2 = rest" and e2: "rd_end r2 = rd_end r1"
    using io_ReadFull_ok [of "length p" r1] b1 by auto
  have "ReadRecord_loop msg r =
          (if lf then (Inr (msg @ p), r2) else ReadRecord_loop (msg @ p) r2)"
    using p m marker_last [OF lp, of lf] marker_size [OF lp, of lf]
    by (subst ReadRecord_loop.simps) (simp add: 1 2 Let_def h_def)
  then show ?thesis using b2 e1 e2 by auto
qed

lemma ReadRecord_loop_fragments:
  assumes "rd_bytes r = concat (map (fragment False) ps) @ fragment True p @ rest"
    and "list_all (\<lambda>q. length q \<le> maxFragmentSize) (p # ps)"
    and "length msg + length (concat ps) + length p \<le> maxMessageSize"
  shows "\<exists>r'. ReadRecord_loop msg r = (Inr (msg @ concat ps @ p), r') \<and>
           rd_bytes r' = rest \<and> rd_end r' = rd_end r"
  using assms
proof (induction ps arbitrary: msg r)
  case Nil
  then show ?case using ReadRecord_loop_fragment [of r True p rest msg] by auto
next
  case (Cons q ps)
  have "\<exists>r'. rd_bytes r' = concat (map (fragment False) ps) @ fragment True p @ rest \<and>
          rd_end r' = rd_end r \<and> ReadRecord_loop msg r = ReadRecord_loop (msg @ q) r'"
    using ReadRecord_loop_fragment [of r False q _ msg] Cons.prems by simp
  then obtain r' where r': "rd_bytes r' = concat (map (fragment False) ps) @ fragment True p @ rest"
    "rd_end r' = rd_end r" "ReadRecord_loop msg r = ReadRecord_loop (msg @ q) r'"
    by blast
  show ?case using Cons.IH [of r' "msg @ q"] Cons.prems r' by simp
qed

lemma ReadRecord_loop_bound:
  "length msg \<le> maxMessageSize \<Longrightarrow> ReadRecord_loop msg r = (Inr m, r') \<Longrightarrow>
   length m \<le> maxMessageSize \<and> (\<exists>p. m = msg @ p)"
proof (induction msg r rule: ReadRecord_loop.induct)
  case (1 msg r)
  obtain hdr e1 r1 where a: "io_ReadFull 4 r = ((hdr, e1), r1)" by (metis prod.exhaust)
  define size where "size = unat (BigEndian_Uint32 hdr AND fragmentSizeMask)"
  obtain frag e2 r2 where b: "io_ReadFull size r1 = ((frag, e2), r2)" by (metis prod.exhaust)
  from "1.prems"(2) a b have none: "e1 = None" "\<not> size > maxFragmentSize"
    "\<not> length msg + size > maxMessageSize" "e2 = None"
    by (subst (asm) ReadRecord_loop.simps,
        auto simp: Let_def size_def split: option.splits if_splits)+
  from b none have fl: "length frag = size" by (auto dest!: io_ReadFull_NoneD)
  show ?case
  proof (cases "BigEndian_Uint32 hdr AND lastFragmentFlag \<noteq> 0")
    case True
    with "1.prems"(2) a b none have "m = msg @ frag"
      by (subst (asm) ReadRecord_loop.simps) (auto simp: Let_def size_def)
    then show ?thesis using none fl by auto
  next
    case False
    with "1.prems"(2) a b none have "ReadRecord_loop (msg @ frag) r2 = (Inr m, r')"
      by (subst (asm) ReadRecord_loop.simps) (auto simp: Let_def size_def)
    with "1.IH" [of "(hdr, None)" r1 hdr None "BigEndian_Uint32 hdr" False size "(frag, None)" r2 frag None]
      a b none fl False
    show ?thesis by (auto simp: size_def)
  qed
qed

subsection \<open>What WriteRecord writes\<close>

lemma WriteRecord_buffer:
  assumes "length payload < 2 ^ 31"
  shows "WriteRecord Buffer_Write payload b = (None, b @ fragment True payload)"
proof -
  have "\<not> fragmentSizeMask < word_of_nat (length payload)"
    using assms
    by (simp add: word_less_nat_alt unat_word_of_nat_u32) (simp add: fragmentSizeMask_def)
  then show ?thesis by (simp add: WriteRecord_def Buffer_Write_def fragment_def)
qed

text \<open>
  The size check compares the length truncated to 32 bits, so a payload of \<open>2 ^ 32\<close> bytes
  passes it and is framed as an empty record followed by stray bytes.
\<close>

lemma WriteRecord_length_truncated:
  "length payload = 2 ^ 32 \<Longrightarrow>
   WriteRecord Buffer_Write payload [] = (None, fragment True [] @ payload)"
proof -
  assume "length payload = 2 ^ 32"
  then have "(word_of_nat (length payload) :: u32) = 0"
    by (simp add: word_of_nat_eq_0_iff)
  then show ?thesis by (simp add: WriteRecord_def Buffer_Write_def fragment_def)
qed

text \<open>A stream that ends between two fragments is reported as a plain \<open>io.EOF\<close>.\<close>

lemma ReadRecord_truncated_between_fragments:
  assumes "rd_bytes r = fragment False p" and "rd_end r = Sentinel EOF"
    and "length p \<le> maxFragmentSize"
  shows "fst (ReadRecord r) = Inl (Sentinel EOF)"
proof -
  from assms(3) have "length p \<le> maxMessageSize"
    by (simp add: maxFragmentSize_def maxMessageSize_def)
  then obtain r' where r': "rd_bytes r' = []" "rd_end r' = Sentinel EOF"
    and eq: "ReadRecord_loop [] r = ReadRecord_loop p r'"
    using ReadRecord_loop_fragment [of r False p "[]" "[]"] assms by auto
  obtain r1 where "io_ReadFull 4 r' = (([], Some (Sentinel EOF)), r1)"
    using io_ReadFull_short [of r' 4] r' by (auto simp: short_error_def)
  then have "fst (ReadRecord_loop p r') = Inl (Sentinel EOF)"
    by (subst ReadRecord_loop.simps) simp
  then show ?thesis by (simp add: ReadRecord_def eq)
qed

subsection \<open>Properties\<close>

text \<open>C23: Reading back a written record gives the payload and leaves exactly what follows it,
  for every payload of at most 256 MiB and however the transport cuts the byte stream into
  segments.\<close>

theorem WriteRecord_ReadRecord:
  assumes "length payload \<le> maxFragmentSize"
    and "rd_bytes r = snd (WriteRecord Buffer_Write payload []) @ rest"
  shows "fst (WriteRecord Buffer_Write payload []) = None \<and>
         (\<exists>r'. ReadRecord r = (Inr payload, r') \<and> rd_bytes r' = rest \<and> rd_end r' = rd_end r)"
proof -
  have l: "length payload < 2 ^ 31" "length payload \<le> maxMessageSize"
    using assms(1) by (simp_all add: maxFragmentSize_def maxMessageSize_def)
  then have "rd_bytes r = fragment True payload @ rest"
    using assms(2) by (simp add: WriteRecord_buffer)
  then show ?thesis
    using ReadRecord_loop_fragment [of r True payload rest "[]"] assms(1) l
    by (auto simp: ReadRecord_def WriteRecord_buffer)
qed

theorem WriteRecord_ReadRecord_witness:
  "\<exists>r'. ReadRecord \<lparr>rd_chunks = [[128], [0, 0], [2, 5], [6, 9]], rd_end = Sentinel EOF\<rparr> =
          (Inr [5, 6], r') \<and> rd_bytes r' = [9]"
  using WriteRecord_ReadRecord
    [of "[5, 6]" "\<lparr>rd_chunks = [[128], [0, 0], [2, 5], [6, 9]], rd_end = Sentinel EOF\<rparr>" "[9]"]
  by (auto simp: WriteRecord_buffer fragment_def rd_bytes_def maxFragmentSize_def
      BigEndian_PutUint32_def lastFragmentFlag_def)

text \<open>\<open>ReadRecord\<close> returns the concatenation of all fragments of a message, in order, and
  stops after the fragment with the last-fragment flag, whenever each fragment is at most 256 MiB
  and the message at most 512 MiB.\<close>

theorem ReadRecord_reassembles:
  assumes "rd_bytes r = concat (map (fragment False) ps) @ fragment True p @ rest"
    and "list_all (\<lambda>q. length q \<le> maxFragmentSize) (p # ps)"
    and "length (concat ps) + length p \<le> maxMessageSize"
  shows "\<exists>r'. ReadRecord r = (Inr (concat ps @ p), r') \<and> rd_bytes r' = rest"
  using ReadRecord_loop_fragments [of r ps p rest "[]"] assms by (auto simp: ReadRecord_def)

theorem ReadRecord_reassembles_witness:
  "\<exists>r'. ReadRecord (bytes_reader (fragment False [1, 2] @ fragment False [] @ fragment True [3] @ [4])) =
          (Inr [1, 2, 3], r') \<and> rd_bytes r' = [4]"
  using ReadRecord_reassembles
    [of "bytes_reader (fragment False [1, 2] @ fragment False [] @ fragment True [3] @ [4])"
      "[[1, 2], []]" "[3]" "[4]"]
  by (simp add: maxFragmentSize_def maxMessageSize_def)

text \<open>Whatever a peer sends, \<open>ReadRecord\<close> never returns a message of more than 512 MiB.\<close>

theorem ReadRecord_bounded:
  "ReadRecord r = (Inr m, r') \<Longrightarrow> length m \<le> maxMessageSize"
  using ReadRecord_loop_bound [of "[]" r m r'] by (simp add: ReadRecord_def)

theorem ReadRecord_bounded_witness: "length ([5, 6] :: bytes) \<le> maxMessageSize"
proof -
  have "fst (ReadRecord (bytes_reader (fragment True [5, 6]))) = Inr [5, 6]"
    using ReadRecord_loop_fragment [of "bytes_reader (fragment True [5, 6])" True "[5, 6]" "[]" "[]"]
    by (auto simp: ReadRecord_def maxFragmentSize_def maxMessageSize_def)
  then show ?thesis using ReadRecord_bounded by (metis prod.collapse)
qed

end
