(* ===== verification/Rpc_Message.thy ===== *)
theory Rpc_Message
  imports Rpc_Record
begin

text \<open>
  ONC RPC message headers and credentials: \<open>src/rpc/auth.go\<close>, \<open>src/rpc/message.go\<close> and the
  constants of \<open>src/rpc/consts.go\<close>. A Go struct is a record with its fields prefixed; the
  decoding of a reply header returns \<open>Inl\<close> for the \<open>error\<close> result.
\<close>

subsection \<open>Constants\<close>

abbreviation (input) RPCVersion :: u32 where "RPCVersion \<equiv> 2"
abbreviation (input) msgCall :: u32 where "msgCall \<equiv> 0"
abbreviation (input) msgReply :: u32 where "msgReply \<equiv> 1"
abbreviation (input) MsgAccepted :: u32 where "MsgAccepted \<equiv> 0"
abbreviation (input) MsgDenied :: u32 where "MsgDenied \<equiv> 1"
abbreviation (input) AcceptSuccess :: u32 where "AcceptSuccess \<equiv> 0"
abbreviation (input) AcceptProgMismatch :: u32 where "AcceptProgMismatch \<equiv> 2"
abbreviation (input) RejectRPCMismatch :: u32 where "RejectRPCMismatch \<equiv> 0"
abbreviation (input) RejectAuthError :: u32 where "RejectAuthError \<equiv> 1"
abbreviation (input) AuthFlavorNull :: u32 where "AuthFlavorNull \<equiv> 0"
abbreviation (input) AuthFlavorSys :: u32 where "AuthFlavorSys \<equiv> 1"

subsection \<open>Credentials\<close>

record OpaqueAuth =
  oa_Flavor :: u32
  oa_Body :: bytes

definition OpaqueAuth_Encode :: "OpaqueAuth \<Rightarrow> ('w encoder, unit) state" where
  "OpaqueAuth_Encode a = do {
     Encoder_Uint32 (oa_Flavor a);
     Encoder_Opaque (oa_Body a)
   }"

definition DecodeOpaqueAuth :: "(decoder, OpaqueAuth) state" where
  "DecodeOpaqueAuth = do {
     flavor \<leftarrow> Decoder_Uint32;
     body \<leftarrow> Decoder_OpaqueB;
     State_Monad.return \<lparr>oa_Flavor = flavor, oa_Body = body\<rparr>
   }"

definition AuthNull :: OpaqueAuth where
  "AuthNull = \<lparr>oa_Flavor = AuthFlavorNull, oa_Body = []\<rparr>"

record AuthSys =
  as_Stamp :: u32
  as_MachineName :: string
  as_UID :: u32
  as_GID :: u32
  as_GIDs :: "u32 list"

definition AuthSys_body_enc :: "AuthSys \<Rightarrow> ('w encoder, unit) state" where
  "AuthSys_body_enc c = do {
     Encoder_Uint32 (as_Stamp c);
     Encoder_String (as_MachineName c);
     Encoder_Uint32 (as_UID c);
     Encoder_Uint32 (as_GID c);
     Encoder_Uint32 (word_of_nat (length (as_GIDs c)));
     forM (as_GIDs c) Encoder_Uint32
   }"

definition AuthSys_body :: "AuthSys \<Rightarrow> bytes" where
  "AuthSys_body c = encoded (AuthSys_body_enc c)"

definition AuthSys_OpaqueAuth :: "AuthSys \<Rightarrow> OpaqueAuth" where
  "AuthSys_OpaqueAuth c = \<lparr>oa_Flavor = AuthFlavorSys, oa_Body = AuthSys_body c\<rparr>"

definition AuthSys_Encode :: "AuthSys \<Rightarrow> ('w encoder, unit) state" where
  "AuthSys_Encode c = OpaqueAuth_Encode (AuthSys_OpaqueAuth c)"

subsection \<open>Call and reply headers\<close>

record CallHeader =
  ch_XID :: u32
  ch_Prog :: u32
  ch_Vers :: u32
  ch_Proc :: u32
  ch_Cred :: OpaqueAuth
  ch_Verf :: OpaqueAuth

definition CallHeader_Encode :: "CallHeader \<Rightarrow> ('w encoder, unit) state" where
  "CallHeader_Encode c = do {
     Encoder_Uint32 (ch_XID c);
     Encoder_Uint32 msgCall;
     Encoder_Uint32 RPCVersion;
     Encoder_Uint32 (ch_Prog c);
     Encoder_Uint32 (ch_Vers c);
     Encoder_Uint32 (ch_Proc c);
     OpaqueAuth_Encode (ch_Cred c);
     OpaqueAuth_Encode (ch_Verf c)
   }"

record ReplyHeader =
  rh_XID :: u32
  rh_Stat :: u32
  rh_Verf :: OpaqueAuth
  rh_AcceptStat :: u32
  rh_Low :: u32
  rh_High :: u32
  rh_RejectStat :: u32
  rh_AuthStat :: u32

definition ReplyHeader_zero :: ReplyHeader where
  "ReplyHeader_zero =
     \<lparr>rh_XID = 0, rh_Stat = 0, rh_Verf = \<lparr>oa_Flavor = 0, oa_Body = []\<rparr>, rh_AcceptStat = 0,
      rh_Low = 0, rh_High = 0, rh_RejectStat = 0, rh_AuthStat = 0\<rparr>"

text \<open>\<open>if err := d.Err(); err != nil { return nil, err }; return r, nil\<close>.\<close>

definition finish_decode :: "'a \<Rightarrow> (decoder, goerror + 'a) state" where
  "finish_decode r = do {
     err \<leftarrow> Decoder_Err;
     (case err of Some e \<Rightarrow> State_Monad.return (Inl e) | None \<Rightarrow> State_Monad.return (Inr r))
   }"

definition DecodeReplyHeader :: "(decoder, goerror + ReplyHeader) state" where
  "DecodeReplyHeader = do {
     xid \<leftarrow> Decoder_Uint32;
     mtype \<leftarrow> Decoder_Uint32;
     err \<leftarrow> Decoder_Err;
     (case err of
        Some e \<Rightarrow> State_Monad.return (Inl e)
      | None \<Rightarrow>
          if mtype \<noteq> msgReply
          then State_Monad.return
                 (Inl (ErrorF ''rpc: expected REPLY message type, got %d'' [FInt (unat mtype)]))
          else do {
            stat \<leftarrow> Decoder_Uint32;
            let r = ReplyHeader_zero\<lparr>rh_XID := xid, rh_Stat := stat\<rparr>;
            if stat = MsgAccepted then do {
              verf \<leftarrow> DecodeOpaqueAuth;
              acceptStat \<leftarrow> Decoder_Uint32;
              let r = r\<lparr>rh_Verf := verf, rh_AcceptStat := acceptStat\<rparr>;
              if acceptStat = AcceptProgMismatch then do {
                low \<leftarrow> Decoder_Uint32;
                high \<leftarrow> Decoder_Uint32;
                finish_decode (r\<lparr>rh_Low := low, rh_High := high\<rparr>)
              }
              else finish_decode r
            }
            else if stat = MsgDenied then do {
              rejectStat \<leftarrow> Decoder_Uint32;
              let r = r\<lparr>rh_RejectStat := rejectStat\<rparr>;
              if rejectStat = RejectRPCMismatch then do {
                low \<leftarrow> Decoder_Uint32;
                high \<leftarrow> Decoder_Uint32;
                finish_decode (r\<lparr>rh_Low := low, rh_High := high\<rparr>)
              }
              else if rejectStat = RejectAuthError then do {
                authStat \<leftarrow> Decoder_Uint32;
                finish_decode (r\<lparr>rh_AuthStat := authStat\<rparr>)
              }
              else State_Monad.return
                     (Inl (ErrorF ''rpc: unknown reject_stat %d'' [FInt (unat rejectStat)]))
            }
            else State_Monad.return
                   (Inl (ErrorF ''rpc: unknown reply_stat %d'' [FInt (unat stat)]))
          })
   }"

definition ReplyHeader_Error :: "ReplyHeader \<Rightarrow> goerror option" where
  "ReplyHeader_Error r =
     (if rh_Stat r = MsgAccepted then
        (if rh_AcceptStat r = AcceptSuccess then None
         else if rh_AcceptStat r = AcceptProgMismatch then
           Some (ErrorF ''rpc: program version mismatch (low=%d high=%d)''
                   [FInt (unat (rh_Low r)), FInt (unat (rh_High r))])
         else Some (ErrorF ''rpc: call rejected with accept_stat %d'' [FInt (unat (rh_AcceptStat r))]))
      else if rh_Stat r = MsgDenied then
        (if rh_RejectStat r = RejectRPCMismatch then
           Some (ErrorF ''rpc: RPC version mismatch (low=%d high=%d)''
                   [FInt (unat (rh_Low r)), FInt (unat (rh_High r))])
         else if rh_RejectStat r = RejectAuthError then Some (AuthError (rh_AuthStat r))
         else Some (ErrorF ''rpc: denied with reject_stat %d'' [FInt (unat (rh_RejectStat r))]))
      else Some (ErrorF ''rpc: unknown reply_stat %d'' [FInt (unat (rh_Stat r))]))"

subsection \<open>Wire forms\<close>

definition wire_auth :: "OpaqueAuth \<Rightarrow> bytes" where
  "wire_auth a = BigEndian_PutUint32 (oa_Flavor a) @ wire_opaque (oa_Body a)"

definition auth_ok :: "OpaqueAuth \<Rightarrow> bool" where
  "auth_ok a \<longleftrightarrow> opaque_ok (oa_Body a)"

lemma writes_OpaqueAuth [wire_writes]: "writes (OpaqueAuth_Encode a) (wire_auth a)"
  unfolding OpaqueAuth_Encode_def wire_auth_def by (intro writes_bind wire_writes)

lemma reads_OpaqueAuth [wire_reads]: "auth_ok a \<Longrightarrow> reads DecodeOpaqueAuth a (wire_auth a)"
  by (simp add: reads_def DecodeOpaqueAuth_def wire_auth_def auth_ok_def
      readsD [OF reads_Uint32] readsD [OF reads_OpaqueB])

interpretation opaque_auth: codec OpaqueAuth_Encode DecodeOpaqueAuth wire_auth auth_ok
proof unfold_locales
  show "4 dvd length (wire_auth a)" for a
    using aligned_wire_opaque [of "oa_Body a"] by (simp add: wire_auth_def)
qed (auto intro: wire_writes wire_reads)

definition wire_u32s :: "u32 list \<Rightarrow> bytes" where
  "wire_u32s ws = concat (map BigEndian_PutUint32 ws)"

lemma writes_u32s [wire_writes]: "writes (forM ws Encoder_Uint32) (wire_u32s ws)"
  unfolding wire_u32s_def by (rule uint32.list_writes)

lemma length_wire_u32s [simp]: "length (wire_u32s ws) = 4 * length ws"
  by (induction ws) (simp_all add: wire_u32s_def)

lemma wire_u32s_inj: "length xs = length ys \<Longrightarrow> wire_u32s xs = wire_u32s ys \<Longrightarrow> xs = ys"
proof (induction xs ys rule: list_induct2)
  case Nil
  then show ?case by simp
next
  case (Cons x xs y ys)
  then have "BigEndian_PutUint32 x @ wire_u32s xs = BigEndian_PutUint32 y @ wire_u32s ys"
    by (simp add: wire_u32s_def)
  then have "x = y \<and> wire_u32s xs = wire_u32s ys"
    by (rule uint32.wire_prefix_free [OF TrueI TrueI])
  with Cons.IH show ?case by simp
qed

definition wire_AuthSys :: "AuthSys \<Rightarrow> bytes" where
  "wire_AuthSys c =
     BigEndian_PutUint32 (as_Stamp c) @ wire_string (as_MachineName c) @
     BigEndian_PutUint32 (as_UID c) @ BigEndian_PutUint32 (as_GID c) @
     BigEndian_PutUint32 (word_of_nat (length (as_GIDs c))) @ wire_u32s (as_GIDs c)"

lemma AuthSys_body_eq: "AuthSys_body c = wire_AuthSys c"
  unfolding AuthSys_body_def
proof (rule encoded_writes)
  show "writes (AuthSys_body_enc c) (wire_AuthSys c)"
    unfolding AuthSys_body_enc_def wire_AuthSys_def by (intro writes_bind wire_writes)
qed

definition wire_call :: "CallHeader \<Rightarrow> bytes" where
  "wire_call c =
     BigEndian_PutUint32 (ch_XID c) @ BigEndian_PutUint32 0 @ BigEndian_PutUint32 2 @
     BigEndian_PutUint32 (ch_Prog c) @ BigEndian_PutUint32 (ch_Vers c) @
     BigEndian_PutUint32 (ch_Proc c) @ wire_auth (ch_Cred c) @ wire_auth (ch_Verf c)"

lemma writes_CallHeader [wire_writes]: "writes (CallHeader_Encode c) (wire_call c)"
  unfolding CallHeader_Encode_def wire_call_def by (intro writes_bind wire_writes)

text \<open>The reply messages of RFC 5531, as the server writes them.\<close>

datatype reply =
    Accepted OpaqueAuth u32
  | AcceptedMismatch OpaqueAuth u32 u32
  | DeniedMismatch u32 u32
  | DeniedAuth u32

fun wire_reply :: "u32 \<Rightarrow> reply \<Rightarrow> bytes" where
  "wire_reply xid (Accepted verf stat) =
     BigEndian_PutUint32 xid @ BigEndian_PutUint32 1 @ BigEndian_PutUint32 0 @
     wire_auth verf @ BigEndian_PutUint32 stat"
| "wire_reply xid (AcceptedMismatch verf low high) =
     BigEndian_PutUint32 xid @ BigEndian_PutUint32 1 @ BigEndian_PutUint32 0 @
     wire_auth verf @ BigEndian_PutUint32 2 @ BigEndian_PutUint32 low @ BigEndian_PutUint32 high"
| "wire_reply xid (DeniedMismatch low high) =
     BigEndian_PutUint32 xid @ BigEndian_PutUint32 1 @ BigEndian_PutUint32 1 @
     BigEndian_PutUint32 0 @ BigEndian_PutUint32 low @ BigEndian_PutUint32 high"
| "wire_reply xid (DeniedAuth stat) =
     BigEndian_PutUint32 xid @ BigEndian_PutUint32 1 @ BigEndian_PutUint32 1 @
     BigEndian_PutUint32 1 @ BigEndian_PutUint32 stat"

fun reply_ok :: "reply \<Rightarrow> bool" where
  "reply_ok (Accepted verf stat) = (auth_ok verf \<and> stat \<noteq> AcceptProgMismatch)"
| "reply_ok (AcceptedMismatch verf low high) = auth_ok verf"
| "reply_ok _ = True"

fun reply_header :: "u32 \<Rightarrow> reply \<Rightarrow> ReplyHeader" where
  "reply_header xid (Accepted verf stat) =
     ReplyHeader_zero\<lparr>rh_XID := xid, rh_Verf := verf, rh_AcceptStat := stat\<rparr>"
| "reply_header xid (AcceptedMismatch verf low high) =
     ReplyHeader_zero\<lparr>rh_XID := xid, rh_Verf := verf, rh_AcceptStat := 2, rh_Low := low, rh_High := high\<rparr>"
| "reply_header xid (DeniedMismatch low high) =
     ReplyHeader_zero\<lparr>rh_XID := xid, rh_Stat := 1, rh_Low := low, rh_High := high\<rparr>"
| "reply_header xid (DeniedAuth stat) =
     ReplyHeader_zero\<lparr>rh_XID := xid, rh_Stat := 1, rh_RejectStat := 1, rh_AuthStat := stat\<rparr>"

lemma reads_finish_decode [wire_reads]: "reads (finish_decode r) (Inr r) []"
  by (simp add: reads_def finish_decode_def)

lemma reads_ReplyHeader [wire_reads]:
  "reply_ok rep \<Longrightarrow> reads DecodeReplyHeader (Inr (reply_header xid rep)) (wire_reply xid rep)"
  by (cases rep)
    (simp_all add: reads_def DecodeReplyHeader_def finish_decode_def Let_def ReplyHeader_zero_def
      readsD [OF reads_Uint32] readsD [OF reads_OpaqueAuth])

lemma ReplyHeader_Error_None:
  "ReplyHeader_Error r = None \<longleftrightarrow> rh_Stat r = MsgAccepted \<and> rh_AcceptStat r = AcceptSuccess"
  by (auto simp: ReplyHeader_Error_def)

lemma finish_decode_Inr:
  "run_state (finish_decode r) d = (Inr h, d') \<longleftrightarrow> h = r \<and> d' = d \<and> dec_err d = None"
  by (auto simp: finish_decode_def split: option.splits)

lemma DecodeReplyHeader_failed: "dec_err d = Some e \<Longrightarrow> run_state DecodeReplyHeader d = (Inl e, d)"
  by (simp add: DecodeReplyHeader_def dec_zeroD [OF Decoder_Uint32_failed])

subsection \<open>Properties\<close>

text \<open>Each of the reply messages of RFC 5531 (accepted with a status, program mismatch, RPC
  version mismatch, authentication error) decodes to exactly the header it carries, leaving the
  decoder at the first byte of the procedure result; and the header's \<open>Error\<close> is nil precisely for
  an accepted reply with status SUCCESS, and the \<open>auth_stat\<close> is the one surfaced.\<close>

theorem DecodeReplyHeader_spec:
  assumes "reply_ok rep"
  shows "run_state DecodeReplyHeader (bdec (wire_reply xid rep @ result)) =
           (Inr (reply_header xid rep), bdec result)
       \<and> rh_XID (reply_header xid rep) = xid
       \<and> (ReplyHeader_Error (reply_header xid rep) = None
            \<longleftrightarrow> (\<exists>verf. rep = Accepted verf AcceptSuccess))
       \<and> (\<forall>stat. rep = DeniedAuth stat \<longrightarrow>
            ReplyHeader_Error (reply_header xid rep) = Some (AuthError stat))"
  using readsD [OF reads_ReplyHeader [OF assms]]
  by (cases rep) (auto simp: ReplyHeader_Error_def ReplyHeader_zero_def)

theorem DecodeReplyHeader_spec_witness:
  "ReplyHeader_Error (reply_header 7 (DeniedAuth 5)) = Some (AuthError 5)"
  using DecodeReplyHeader_spec [of "DeniedAuth 5" 7 "[]"] by simp

text \<open>The AUTH_SYS credential body identifies the caller: two credentials with machine names
  of at most 64 MiB and fewer than \<open>2 ^ 32\<close> groups that serialise to the same bytes are equal
  (stamp, machine name, uid, gid and every supplementary group).\<close>

theorem AuthSys_body_injective:
  assumes "string_ok (as_MachineName c)" and "string_ok (as_MachineName c')"
    and "length (as_GIDs c) < 2 ^ 32" and "length (as_GIDs c') < 2 ^ 32"
    and "AuthSys_body c = AuthSys_body c'"
  shows "c = (c' :: AuthSys)"
proof -
  have a: "as_Stamp c = as_Stamp c'" and b: "as_MachineName c = as_MachineName c'"
    and d: "as_UID c = as_UID c'" and e: "as_GID c = as_GID c'"
    and f: "(word_of_nat (length (as_GIDs c)) :: u32) = word_of_nat (length (as_GIDs c'))"
    and g: "wire_u32s (as_GIDs c) = wire_u32s (as_GIDs c')"
    using assms(5) unfolding AuthSys_body_eq wire_AuthSys_def
    by (auto dest!: uint32.wire_prefix_free [OF TrueI TrueI]
        xstring.wire_prefix_free [OF assms(1,2)] dest: uint32.wire_inj [OF TrueI TrueI])
  from f have "length (as_GIDs c) = length (as_GIDs c')"
    by (metis assms(3,4) unat_word_of_nat_u32)
  then have "as_GIDs c = as_GIDs c'" using g by (rule wire_u32s_inj)
  with a b d e show ?thesis by simp
qed

theorem AuthSys_body_injective_witness:
  "AuthSys_body \<lparr>as_Stamp = 0, as_MachineName = ''h'', as_UID = 0, as_GID = 0, as_GIDs = [0]\<rparr> \<noteq>
   AuthSys_body \<lparr>as_Stamp = 0, as_MachineName = ''h'', as_UID = 1, as_GID = 0, as_GIDs = [0]\<rparr>"
  using AuthSys_body_injective
    [of "\<lparr>as_Stamp = 0, as_MachineName = ''h'', as_UID = 0, as_GID = 0, as_GIDs = [0]\<rparr>"
        "\<lparr>as_Stamp = 0, as_MachineName = ''h'', as_UID = 1, as_GID = 0, as_GIDs = [0]\<rparr>"]
  by (auto simp: string_ok_def opaque_ok_def)

end
