(* ===== verification/Nfs_Types.thy ===== *)
theory Nfs_Types
  imports Rpc_Message
begin

text \<open>
  The shared protocol types of \<open>src/nfs4/types.go\<close>: file handles, attribute bitmaps and
  stateids with their encoders and decoders. A fixed-size array field (\<open>[12]byte\<close>) is a list
  whose length is part of the well-formedness predicate; \<open>copy(dst[:], src)\<close> into such an array
  is \<open>copy_fixed\<close>, which leaves the array unchanged beyond the copied bytes.
\<close>

type_synonym FileHandle = "bytes option"
type_synonym Bitmap = "u32 list"

text \<open>\<open>copy(dst[:], src)\<close>.\<close>

definition copy_fixed :: "bytes \<Rightarrow> bytes option \<Rightarrow> bytes" where
  "copy_fixed dst src = take (length dst) (nilb src) @ drop (length (nilb src)) dst"

definition Bitmap_Encode :: "Bitmap \<Rightarrow> ('w encoder, unit) state" where
  "Bitmap_Encode b = do {
     Encoder_Uint32 (word_of_nat (length b));
     forM b Encoder_Uint32
   }"

definition DecodeBitmap :: "(decoder, Bitmap) state" where
  "DecodeBitmap = do {
     n \<leftarrow> Decoder_Uint32;
     err \<leftarrow> Decoder_Err;
     if err \<noteq> None then State_Monad.return []
     else repeatM (unat n) Decoder_Uint32
   }"

record Stateid =
  sid_Seqid :: u32
  sid_Other :: bytes

definition Stateid_zero :: Stateid where
  "Stateid_zero = \<lparr>sid_Seqid = 0, sid_Other = zeros 12\<rparr>"

definition Stateid_Encode :: "Stateid \<Rightarrow> ('w encoder, unit) state" where
  "Stateid_Encode s = do {
     Encoder_Uint32 (sid_Seqid s);
     Encoder_FixedOpaque (sid_Other s)
   }"

definition DecodeStateid :: "(decoder, Stateid) state" where
  "DecodeStateid = do {
     seqid \<leftarrow> Decoder_Uint32;
     other \<leftarrow> Decoder_FixedOpaque 12;
     State_Monad.return \<lparr>sid_Seqid = seqid, sid_Other = copy_fixed (zeros 12) other\<rparr>
   }"

subsection \<open>Wire forms and codecs\<close>

lemma copy_fixed_full [simp]: "length p = length dst \<Longrightarrow> copy_fixed dst (Some p) = p"
  by (simp add: copy_fixed_def nilb_def)

lemma length_copy_fixed [simp]: "length (copy_fixed dst src) = length dst"
  by (simp add: copy_fixed_def)

lemma copy_fixed_nil [simp]: "copy_fixed dst None = dst"
  by (simp add: copy_fixed_def nilb_def)

definition wire_bitmap :: "Bitmap \<Rightarrow> bytes" where
  "wire_bitmap b = BigEndian_PutUint32 (word_of_nat (length b)) @ wire_u32s b"

definition bitmap_ok :: "Bitmap \<Rightarrow> bool" where
  "bitmap_ok b \<longleftrightarrow> length b < 2 ^ 32"

definition wire_stateid :: "Stateid \<Rightarrow> bytes" where
  "wire_stateid s = BigEndian_PutUint32 (sid_Seqid s) @ wire_fixed (sid_Other s)"

definition stateid_ok :: "Stateid \<Rightarrow> bool" where
  "stateid_ok s \<longleftrightarrow> length (sid_Other s) = 12"

lemma writes_Bitmap [wire_writes]: "writes (Bitmap_Encode b) (wire_bitmap b)"
  unfolding Bitmap_Encode_def wire_bitmap_def by (intro writes_bind wire_writes)

lemma reads_u32s: "reads (repeatM (length ws) Decoder_Uint32) ws (wire_u32s ws)"
  unfolding wire_u32s_def by (rule uint32.list_reads) (simp add: list_all_iff)

lemma reads_Bitmap [wire_reads]: "bitmap_ok b \<Longrightarrow> reads DecodeBitmap b (wire_bitmap b)"
  by (simp add: reads_def DecodeBitmap_def wire_bitmap_def bitmap_ok_def unat_word_of_nat_u32
      readsD [OF reads_Uint32] readsD [OF reads_u32s])

lemma writes_Stateid [wire_writes]: "writes (Stateid_Encode s) (wire_stateid s)"
  unfolding Stateid_Encode_def wire_stateid_def by (intro writes_bind wire_writes)

lemma reads_Stateid [wire_reads]: "stateid_ok s \<Longrightarrow> reads DecodeStateid s (wire_stateid s)"
  by (simp add: reads_def DecodeStateid_def wire_stateid_def stateid_ok_def
      readsD [OF reads_Uint32] readsD [OF reads_FixedOpaque_aligned])

lemma stateid_ok_zero [simp]: "stateid_ok Stateid_zero"
  by (simp add: stateid_ok_def Stateid_zero_def)

lemma DecodeBitmap_failed: "dec_zero DecodeBitmap []"
  by (auto simp: dec_zero_def DecodeBitmap_def dec_zeroD [OF Decoder_Uint32_failed])

lemma DecodeStateid_failed: "dec_zero DecodeStateid Stateid_zero"
  by (auto simp: dec_zero_def DecodeStateid_def Stateid_zero_def
      dec_zeroD [OF Decoder_Uint32_failed] dec_zeroD [OF Decoder_FixedOpaque_failed])

lemmas types_sticky [sticky_rules] =
  DecodeBitmap_failed [THEN dec_zero_sticky] DecodeStateid_failed [THEN dec_zero_sticky]

lemma DecodeStateid_ok: "stateid_ok (fst (run_state DecodeStateid d))"
  by (simp add: DecodeStateid_def stateid_ok_def split: prod.splits)

lemma aligned_wire_bitmap: "4 dvd length (wire_bitmap b)"
  by (simp add: wire_bitmap_def)

lemma aligned_wire_stateid: "4 dvd length (wire_stateid s)"
  by (simp add: wire_stateid_def aligned_wire_fixed)

interpretation bitmap: codec Bitmap_Encode DecodeBitmap wire_bitmap bitmap_ok
  by unfold_locales (auto intro: wire_writes wire_reads aligned_wire_bitmap)

interpretation stateid: codec Stateid_Encode DecodeStateid wire_stateid stateid_ok
  by unfold_locales (auto intro: wire_writes wire_reads aligned_wire_stateid)

end
