(* ===== verification/Ops.thy ===== *)
theory Ops
  imports Nfs_Types
begin

text \<open>
  The operations of a COMPOUND: \<open>src/nfs4/ops.go\<close>, \<open>src/nfs4/writeops.go\<close> and
  \<open>src/nfs4/sessionops.go\<close>. The interface \<open>Arg\<close> is the datatype \<open>arg\<close> with one
  constructor per argument struct, its fields in the order of the struct; the interface
  \<open>Res\<close> is the datatype \<open>res\<close>. Each method \<open>EncodeArg\<close> and \<open>DecodeRes\<close> of the source is
  a definition of its own, and \<open>EncodeArg\<close> and \<open>DecodeRes\<close> dispatch on the constructor. A
  result struct is decoded in place, so \<open>DecodeRes\<close> takes the old value: a field the decoder
  does not reach keeps what it held.
\<close>

subsection \<open>Constants\<close>

abbreviation (input) OpenShareAccessRead :: u32 where "OpenShareAccessRead \<equiv> 1"
abbreviation (input) OpenShareAccessWrite :: u32 where "OpenShareAccessWrite \<equiv> 2"
abbreviation (input) OpenShareAccessBoth :: u32 where "OpenShareAccessBoth \<equiv> 3"
abbreviation (input) OpenShareDenyNone :: u32 where "OpenShareDenyNone \<equiv> 0"
abbreviation (input) Open4NoCreate :: u32 where "Open4NoCreate \<equiv> 0"
abbreviation (input) Open4Create :: u32 where "Open4Create \<equiv> 1"
abbreviation (input) CreateUnchecked :: u32 where "CreateUnchecked \<equiv> 0"
abbreviation (input) CreateGuarded :: u32 where "CreateGuarded \<equiv> 1"
abbreviation (input) CreateExclusive :: u32 where "CreateExclusive \<equiv> 2"
abbreviation (input) ClaimNull :: u32 where "ClaimNull \<equiv> 0"
abbreviation (input) OpenResultConfirm :: u32 where "OpenResultConfirm \<equiv> 2"
abbreviation (input) Unstable4 :: u32 where "Unstable4 \<equiv> 0"
abbreviation (input) DataSync4 :: u32 where "DataSync4 \<equiv> 1"
abbreviation (input) FileSync4 :: u32 where "FileSync4 \<equiv> 2"
abbreviation (input) spNone :: u32 where "spNone \<equiv> 0"

type_synonym SessionID = bytes
type_synonym StableHow = u32

subsection \<open>Arguments\<close>

record ChannelAttrs =
  ca_HeaderPadSize :: u32
  ca_MaxRequestSize :: u32
  ca_MaxResponseSize :: u32
  ca_MaxResponseSizeCach :: u32
  ca_MaxOperations :: u32
  ca_MaxRequests :: u32

definition ChannelAttrs_zero :: ChannelAttrs where
  "ChannelAttrs_zero =
     \<lparr>ca_HeaderPadSize = 0, ca_MaxRequestSize = 0, ca_MaxResponseSize = 0,
      ca_MaxResponseSizeCach = 0, ca_MaxOperations = 0, ca_MaxRequests = 0\<rparr>"

record OpenArgs =
  oa_Seqid :: u32
  oa_ShareAccess :: u32
  oa_ShareDeny :: u32
  oa_ClientID :: u64
  oa_Owner :: bytes
  oa_OpenType :: u32
  oa_CreateMode :: u32
  oa_CreateAttrMask :: Bitmap
  oa_CreateAttrVals :: bytes
  oa_CreateVerf :: bytes
  oa_Name :: string

record SetclientidArgs =
  sc_Verifier :: bytes
  sc_ID :: bytes
  sc_CallbackProg :: u32
  sc_CallbackNetID :: string
  sc_CallbackAddr :: string
  sc_CallbackIdent :: u32

record CreateArgs =
  ca_Type :: u32
  ca_LinkData :: string
  ca_ObjName :: string
  ca_AttrMask :: Bitmap
  ca_AttrVals :: bytes

record CreateSessionArgs =
  cs_ClientID :: u64
  cs_SequenceID :: u32
  cs_Flags :: u32
  cs_ForeChan :: ChannelAttrs
  cs_BackChan :: ChannelAttrs
  cs_CBProgram :: u32

record SequenceArgs =
  sq_SessionID :: SessionID
  sq_SequenceID :: u32
  sq_SlotID :: u32
  sq_HighestSlotID :: u32
  sq_CacheThis :: bool

datatype arg =
    PutrootfhArgs
  | PutfhArgs FileHandle
  | GetfhArgs
  | LookupArgs string
  | GetattrArgs Bitmap
  | ASetclientid SetclientidArgs
  | SetclientidConfirmArgs u64 bytes
  | ReadArgs Stateid u64 u32
  | ReaddirArgs u64 bytes u32 u32 Bitmap
  | ReadlinkArgs
  | RenewArgs u64
  | AOpen OpenArgs
  | OpenConfirmArgs Stateid u32
  | WriteArgs Stateid u64 StableHow bytes
  | CommitArgs u64 u32
  | CloseArgs u32 Stateid
  | ACreate CreateArgs
  | RemoveArgs string
  | RenameArgs string string
  | LinkArgs string
  | SetattrArgs Stateid Bitmap bytes
  | SavefhArgs
  | RestorefhArgs
  | ExchangeIDArgs bytes bytes u32
  | ACreateSession CreateSessionArgs
  | DestroySessionArgs SessionID
  | DestroyClientIDArgs u64
  | ReclaimCompleteArgs bool
  | ASequence SequenceArgs

fun Arg_Op :: "arg \<Rightarrow> Opnum" where
  "Arg_Op PutrootfhArgs = OpPutrootfh"
| "Arg_Op (PutfhArgs fh) = OpPutfh"
| "Arg_Op GetfhArgs = OpGetfh"
| "Arg_Op (LookupArgs name) = OpLookup"
| "Arg_Op (GetattrArgs req) = OpGetattr"
| "Arg_Op (ASetclientid a) = OpSetclientid"
| "Arg_Op (SetclientidConfirmArgs cid verf) = OpSetclientidConfirm"
| "Arg_Op (ReadArgs sid off count) = OpRead"
| "Arg_Op (ReaddirArgs cookie verf dircount maxcount req) = OpReaddir"
| "Arg_Op ReadlinkArgs = OpReadlink"
| "Arg_Op (RenewArgs cid) = OpRenew"
| "Arg_Op (AOpen a) = OpOpen"
| "Arg_Op (OpenConfirmArgs sid seqid) = OpOpenConfirm"
| "Arg_Op (WriteArgs sid off how data) = OpWrite"
| "Arg_Op (CommitArgs off count) = OpCommit"
| "Arg_Op (CloseArgs seqid sid) = OpClose"
| "Arg_Op (ACreate a) = OpCreate"
| "Arg_Op (RemoveArgs name) = OpRemove"
| "Arg_Op (RenameArgs old new) = OpRename"
| "Arg_Op (LinkArgs new) = OpLink"
| "Arg_Op (SetattrArgs sid bm vals) = OpSetattr"
| "Arg_Op SavefhArgs = OpSavefh"
| "Arg_Op RestorefhArgs = OpRestorefh"
| "Arg_Op (ExchangeIDArgs verf owner flags) = OpExchangeID"
| "Arg_Op (ACreateSession a) = OpCreateSession"
| "Arg_Op (DestroySessionArgs sid) = OpDestroySession"
| "Arg_Op (DestroyClientIDArgs cid) = OpDestroyClientID"
| "Arg_Op (ReclaimCompleteArgs onefs) = OpReclaimComplete"
| "Arg_Op (ASequence a) = OpSequence"

definition ChannelAttrs_encode :: "ChannelAttrs \<Rightarrow> ('w encoder, unit) state" where
  "ChannelAttrs_encode c = do {
     Encoder_Uint32 (ca_HeaderPadSize c);
     Encoder_Uint32 (ca_MaxRequestSize c);
     Encoder_Uint32 (ca_MaxResponseSize c);
     Encoder_Uint32 (ca_MaxResponseSizeCach c);
     Encoder_Uint32 (ca_MaxOperations c);
     Encoder_Uint32 (ca_MaxRequests c);
     Encoder_Uint32 0
   }"

definition SetclientidArgs_EncodeArg :: "SetclientidArgs \<Rightarrow> ('w encoder, unit) state" where
  "SetclientidArgs_EncodeArg a = do {
     Encoder_Uint32 OpSetclientid;
     Encoder_FixedOpaque (sc_Verifier a);
     Encoder_Opaque (sc_ID a);
     Encoder_Uint32 (sc_CallbackProg a);
     Encoder_String (sc_CallbackNetID a);
     Encoder_String (sc_CallbackAddr a);
     Encoder_Uint32 (sc_CallbackIdent a)
   }"

definition OpenArgs_EncodeArg :: "OpenArgs \<Rightarrow> ('w encoder, unit) state" where
  "OpenArgs_EncodeArg a = do {
     Encoder_Uint32 OpOpen;
     Encoder_Uint32 (oa_Seqid a);
     Encoder_Uint32 (oa_ShareAccess a);
     Encoder_Uint32 (oa_ShareDeny a);
     Encoder_Uint64 (oa_ClientID a);
     Encoder_Opaque (oa_Owner a);
     Encoder_Uint32 (oa_OpenType a);
     (if oa_OpenType a = Open4Create then do {
        Encoder_Uint32 (oa_CreateMode a);
        (if oa_CreateMode a = CreateExclusive then Encoder_FixedOpaque (oa_CreateVerf a)
         else do {
           Bitmap_Encode (oa_CreateAttrMask a);
           Encoder_Opaque (oa_CreateAttrVals a)
         })
      } else State_Monad.return ());
     Encoder_Uint32 ClaimNull;
     Encoder_String (oa_Name a)
   }"

definition CreateArgs_EncodeArg :: "CreateArgs \<Rightarrow> ('w encoder, unit) state" where
  "CreateArgs_EncodeArg a = do {
     Encoder_Uint32 OpCreate;
     Encoder_Uint32 (ca_Type a);
     (if ca_Type a = 5 then Encoder_String (ca_LinkData a)
      else if ca_Type a = 3 \<or> ca_Type a = 4 then do { Encoder_Uint32 0; Encoder_Uint32 0 }
      else State_Monad.return ());
     Encoder_String (ca_ObjName a);
     Bitmap_Encode (ca_AttrMask a);
     Encoder_Opaque (ca_AttrVals a)
   }"

definition CreateSessionArgs_EncodeArg :: "CreateSessionArgs \<Rightarrow> ('w encoder, unit) state" where
  "CreateSessionArgs_EncodeArg a = do {
     Encoder_Uint32 OpCreateSession;
     Encoder_Uint64 (cs_ClientID a);
     Encoder_Uint32 (cs_SequenceID a);
     Encoder_Uint32 (cs_Flags a);
     ChannelAttrs_encode (cs_ForeChan a);
     ChannelAttrs_encode (cs_BackChan a);
     Encoder_Uint32 (cs_CBProgram a);
     Encoder_Uint32 0
   }"

definition SequenceArgs_EncodeArg :: "SequenceArgs \<Rightarrow> ('w encoder, unit) state" where
  "SequenceArgs_EncodeArg a = do {
     Encoder_Uint32 OpSequence;
     Encoder_FixedOpaque (sq_SessionID a);
     Encoder_Uint32 (sq_SequenceID a);
     Encoder_Uint32 (sq_SlotID a);
     Encoder_Uint32 (sq_HighestSlotID a);
     Encoder_Bool (sq_CacheThis a)
   }"

definition PutrootfhArgs_EncodeArg :: "('w encoder, unit) state" where
  "PutrootfhArgs_EncodeArg = Encoder_Uint32 OpPutrootfh"

definition PutfhArgs_EncodeArg :: "FileHandle \<Rightarrow> ('w encoder, unit) state" where
  "PutfhArgs_EncodeArg fh = do { Encoder_Uint32 OpPutfh; Encoder_Opaque (nilb fh) }"

definition GetfhArgs_EncodeArg :: "('w encoder, unit) state" where
  "GetfhArgs_EncodeArg = Encoder_Uint32 OpGetfh"

definition LookupArgs_EncodeArg :: "string \<Rightarrow> ('w encoder, unit) state" where
  "LookupArgs_EncodeArg name = do { Encoder_Uint32 OpLookup; Encoder_String name }"

definition GetattrArgs_EncodeArg :: "Bitmap \<Rightarrow> ('w encoder, unit) state" where
  "GetattrArgs_EncodeArg req = do { Encoder_Uint32 OpGetattr; Bitmap_Encode req }"

definition SetclientidConfirmArgs_EncodeArg :: "u64 \<Rightarrow> bytes \<Rightarrow> ('w encoder, unit) state" where
  "SetclientidConfirmArgs_EncodeArg cid verf = do {
     Encoder_Uint32 OpSetclientidConfirm;
     Encoder_Uint64 cid;
     Encoder_FixedOpaque verf
   }"

definition ReadArgs_EncodeArg :: "Stateid \<Rightarrow> u64 \<Rightarrow> u32 \<Rightarrow> ('w encoder, unit) state" where
  "ReadArgs_EncodeArg sid off count = do {
     Encoder_Uint32 OpRead;
     Stateid_Encode sid;
     Encoder_Uint64 off;
     Encoder_Uint32 count
   }"

definition ReaddirArgs_EncodeArg :: "u64 \<Rightarrow> bytes \<Rightarrow> u32 \<Rightarrow> u32 \<Rightarrow> Bitmap \<Rightarrow> ('w encoder, unit) state" where
  "ReaddirArgs_EncodeArg cookie verf dircount maxcount req = do {
     Encoder_Uint32 OpReaddir;
     Encoder_Uint64 cookie;
     Encoder_FixedOpaque verf;
     Encoder_Uint32 dircount;
     Encoder_Uint32 maxcount;
     Bitmap_Encode req
   }"

definition ReadlinkArgs_EncodeArg :: "('w encoder, unit) state" where
  "ReadlinkArgs_EncodeArg = Encoder_Uint32 OpReadlink"

definition RenewArgs_EncodeArg :: "u64 \<Rightarrow> ('w encoder, unit) state" where
  "RenewArgs_EncodeArg cid = do { Encoder_Uint32 OpRenew; Encoder_Uint64 cid }"

definition OpenConfirmArgs_EncodeArg :: "Stateid \<Rightarrow> u32 \<Rightarrow> ('w encoder, unit) state" where
  "OpenConfirmArgs_EncodeArg sid seqid = do {
     Encoder_Uint32 OpOpenConfirm;
     Stateid_Encode sid;
     Encoder_Uint32 seqid
   }"

definition WriteArgs_EncodeArg :: "Stateid \<Rightarrow> u64 \<Rightarrow> StableHow \<Rightarrow> bytes \<Rightarrow> ('w encoder, unit) state" where
  "WriteArgs_EncodeArg sid off how data = do {
     Encoder_Uint32 OpWrite;
     Stateid_Encode sid;
     Encoder_Uint64 off;
     Encoder_Uint32 how;
     Encoder_Opaque data
   }"

definition CommitArgs_EncodeArg :: "u64 \<Rightarrow> u32 \<Rightarrow> ('w encoder, unit) state" where
  "CommitArgs_EncodeArg off count = do {
     Encoder_Uint32 OpCommit;
     Encoder_Uint64 off;
     Encoder_Uint32 count
   }"

definition CloseArgs_EncodeArg :: "u32 \<Rightarrow> Stateid \<Rightarrow> ('w encoder, unit) state" where
  "CloseArgs_EncodeArg seqid sid = do {
     Encoder_Uint32 OpClose;
     Encoder_Uint32 seqid;
     Stateid_Encode sid
   }"

definition RemoveArgs_EncodeArg :: "string \<Rightarrow> ('w encoder, unit) state" where
  "RemoveArgs_EncodeArg name = do { Encoder_Uint32 OpRemove; Encoder_String name }"

definition RenameArgs_EncodeArg :: "string \<Rightarrow> string \<Rightarrow> ('w encoder, unit) state" where
  "RenameArgs_EncodeArg old new = do {
     Encoder_Uint32 OpRename;
     Encoder_String old;
     Encoder_String new
   }"

definition LinkArgs_EncodeArg :: "string \<Rightarrow> ('w encoder, unit) state" where
  "LinkArgs_EncodeArg new = do { Encoder_Uint32 OpLink; Encoder_String new }"

definition SetattrArgs_EncodeArg :: "Stateid \<Rightarrow> Bitmap \<Rightarrow> bytes \<Rightarrow> ('w encoder, unit) state" where
  "SetattrArgs_EncodeArg sid bm vals = do {
     Encoder_Uint32 OpSetattr;
     Stateid_Encode sid;
     Bitmap_Encode bm;
     Encoder_Opaque vals
   }"

definition SavefhArgs_EncodeArg :: "('w encoder, unit) state" where
  "SavefhArgs_EncodeArg = Encoder_Uint32 OpSavefh"

definition RestorefhArgs_EncodeArg :: "('w encoder, unit) state" where
  "RestorefhArgs_EncodeArg = Encoder_Uint32 OpRestorefh"

definition ExchangeIDArgs_EncodeArg :: "bytes \<Rightarrow> bytes \<Rightarrow> u32 \<Rightarrow> ('w encoder, unit) state" where
  "ExchangeIDArgs_EncodeArg verf owner flags = do {
     Encoder_Uint32 OpExchangeID;
     Encoder_FixedOpaque verf;
     Encoder_Opaque owner;
     Encoder_Uint32 flags;
     Encoder_Uint32 spNone;
     Encoder_Uint32 0
   }"

definition DestroySessionArgs_EncodeArg :: "SessionID \<Rightarrow> ('w encoder, unit) state" where
  "DestroySessionArgs_EncodeArg sid = do {
     Encoder_Uint32 OpDestroySession;
     Encoder_FixedOpaque sid
   }"

definition DestroyClientIDArgs_EncodeArg :: "u64 \<Rightarrow> ('w encoder, unit) state" where
  "DestroyClientIDArgs_EncodeArg cid = do {
     Encoder_Uint32 OpDestroyClientID;
     Encoder_Uint64 cid
   }"

definition ReclaimCompleteArgs_EncodeArg :: "bool \<Rightarrow> ('w encoder, unit) state" where
  "ReclaimCompleteArgs_EncodeArg onefs = do {
     Encoder_Uint32 OpReclaimComplete;
     Encoder_Bool onefs
   }"

text \<open>The interface \<open>Arg\<close>: the method of the dynamic type.\<close>

fun EncodeArg :: "arg \<Rightarrow> ('w encoder, unit) state" where
  "EncodeArg PutrootfhArgs = PutrootfhArgs_EncodeArg"
| "EncodeArg (PutfhArgs fh) = PutfhArgs_EncodeArg fh"
| "EncodeArg GetfhArgs = GetfhArgs_EncodeArg"
| "EncodeArg (LookupArgs name) = LookupArgs_EncodeArg name"
| "EncodeArg (GetattrArgs req) = GetattrArgs_EncodeArg req"
| "EncodeArg (ASetclientid a) = SetclientidArgs_EncodeArg a"
| "EncodeArg (SetclientidConfirmArgs cid verf) = SetclientidConfirmArgs_EncodeArg cid verf"
| "EncodeArg (ReadArgs sid off count) = ReadArgs_EncodeArg sid off count"
| "EncodeArg (ReaddirArgs cookie verf dircount maxcount req) = ReaddirArgs_EncodeArg cookie verf dircount maxcount req"
| "EncodeArg ReadlinkArgs = ReadlinkArgs_EncodeArg"
| "EncodeArg (RenewArgs cid) = RenewArgs_EncodeArg cid"
| "EncodeArg (AOpen a) = OpenArgs_EncodeArg a"
| "EncodeArg (OpenConfirmArgs sid seqid) = OpenConfirmArgs_EncodeArg sid seqid"
| "EncodeArg (WriteArgs sid off how data) = WriteArgs_EncodeArg sid off how data"
| "EncodeArg (CommitArgs off count) = CommitArgs_EncodeArg off count"
| "EncodeArg (CloseArgs seqid sid) = CloseArgs_EncodeArg seqid sid"
| "EncodeArg (ACreate a) = CreateArgs_EncodeArg a"
| "EncodeArg (RemoveArgs name) = RemoveArgs_EncodeArg name"
| "EncodeArg (RenameArgs old new) = RenameArgs_EncodeArg old new"
| "EncodeArg (LinkArgs new) = LinkArgs_EncodeArg new"
| "EncodeArg (SetattrArgs sid bm vals) = SetattrArgs_EncodeArg sid bm vals"
| "EncodeArg SavefhArgs = SavefhArgs_EncodeArg"
| "EncodeArg RestorefhArgs = RestorefhArgs_EncodeArg"
| "EncodeArg (ExchangeIDArgs verf owner flags) = ExchangeIDArgs_EncodeArg verf owner flags"
| "EncodeArg (ACreateSession a) = CreateSessionArgs_EncodeArg a"
| "EncodeArg (DestroySessionArgs sid) = DestroySessionArgs_EncodeArg sid"
| "EncodeArg (DestroyClientIDArgs cid) = DestroyClientIDArgs_EncodeArg cid"
| "EncodeArg (ReclaimCompleteArgs onefs) = ReclaimCompleteArgs_EncodeArg onefs"
| "EncodeArg (ASequence a) = SequenceArgs_EncodeArg a"

lemmas EncodeArg_defs [simp] =
  PutrootfhArgs_EncodeArg_def PutfhArgs_EncodeArg_def GetfhArgs_EncodeArg_def
  LookupArgs_EncodeArg_def GetattrArgs_EncodeArg_def SetclientidConfirmArgs_EncodeArg_def
  ReadArgs_EncodeArg_def ReaddirArgs_EncodeArg_def ReadlinkArgs_EncodeArg_def
  RenewArgs_EncodeArg_def OpenConfirmArgs_EncodeArg_def WriteArgs_EncodeArg_def
  CommitArgs_EncodeArg_def CloseArgs_EncodeArg_def RemoveArgs_EncodeArg_def
  RenameArgs_EncodeArg_def LinkArgs_EncodeArg_def SetattrArgs_EncodeArg_def
  SavefhArgs_EncodeArg_def RestorefhArgs_EncodeArg_def ExchangeIDArgs_EncodeArg_def
  DestroySessionArgs_EncodeArg_def DestroyClientIDArgs_EncodeArg_def ReclaimCompleteArgs_EncodeArg_def

subsection \<open>Results\<close>

record DirEntry =
  de_Cookie :: u64
  de_Name :: string
  de_AttrMask :: Bitmap
  de_AttrVals :: bytes

datatype res =
    StatusRes (res_Status: Status)
  | GetfhRes (res_Status: Status) (res_FH: FileHandle)
  | GetattrRes (res_Status: Status) (res_AttrMask: Bitmap) (res_AttrVals: bytes)
  | SetclientidRes (res_Status: Status) (res_ClientID: u64) (res_Confirm: bytes)
      (res_ClientUsingNetID: string) (res_ClientUsingAddr: string)
  | ReadRes (res_Status: Status) (res_EOF: bool) (res_Data: bytes)
  | ReaddirRes (res_Status: Status) (res_Cookieverf: bytes) (res_Entries: "DirEntry list") (res_EOF: bool)
  | ReadlinkRes (res_Status: Status) (res_Link: string)
  | OpenRes (res_Status: Status) (res_Stateid: Stateid) (res_RFlags: u32) (res_AttrSet: Bitmap)
  | OpenConfirmRes (res_Status: Status) (res_Stateid: Stateid)
  | WriteRes (res_Status: Status) (res_Count: u32) (res_Committed: StableHow) (res_Verf: bytes)
  | CommitRes (res_Status: Status) (res_Verf: bytes)
  | CloseRes (res_Status: Status) (res_Stateid: Stateid)
  | CreateRes (res_Status: Status) (res_AttrSet: Bitmap)
  | RemoveRes (res_Status: Status)
  | RenameRes (res_Status: Status)
  | LinkRes (res_Status: Status)
  | SetattrRes (res_Status: Status) (res_AttrSet: Bitmap)
  | ExchangeIDRes (res_Status: Status) (res_ClientID: u64) (res_SequenceID: u32) (res_Flags: u32)
  | CreateSessionRes (res_Status: Status) (res_SessionID: SessionID) (res_SequenceID: u32)
      (res_Flags: u32) (res_ForeChan: ChannelAttrs) (res_BackChan: ChannelAttrs)
  | DestroySessionRes (res_Status: Status)
  | DestroyClientIDRes (res_Status: Status)
  | ReclaimCompleteRes (res_Status: Status)
  | SequenceRes (res_Status: Status) (res_SessionID: SessionID) (res_SequenceID: u32)
      (res_SlotID: u32) (res_HighestSlotID: u32) (res_TargetHighestSlot: u32) (res_StatusFlags: u32)

text \<open>
  The \<open>Op\<close> method of the results as \<open>expectedOp\<close> sees it: \<open>StatusRes\<close> has none,
  which gives 0.
\<close>

fun expectedOp :: "res \<Rightarrow> Opnum" where
  "expectedOp (StatusRes st) = 0"
| "expectedOp (GetfhRes st fh) = OpGetfh"
| "expectedOp (GetattrRes st bm vals) = OpGetattr"
| "expectedOp (SetclientidRes st cid confirm netid addr) = OpSetclientid"
| "expectedOp (ReadRes st eof data) = OpRead"
| "expectedOp (ReaddirRes st verf entries eof) = OpReaddir"
| "expectedOp (ReadlinkRes st link) = OpReadlink"
| "expectedOp (OpenRes st sid rflags attrset) = OpOpen"
| "expectedOp (OpenConfirmRes st sid) = OpOpenConfirm"
| "expectedOp (WriteRes st count committed verf) = OpWrite"
| "expectedOp (CommitRes st verf) = OpCommit"
| "expectedOp (CloseRes st sid) = OpClose"
| "expectedOp (CreateRes st attrset) = OpCreate"
| "expectedOp (RemoveRes st) = OpRemove"
| "expectedOp (RenameRes st) = OpRename"
| "expectedOp (LinkRes st) = OpLink"
| "expectedOp (SetattrRes st attrset) = OpSetattr"
| "expectedOp (ExchangeIDRes st cid seq flags) = OpExchangeID"
| "expectedOp (CreateSessionRes st sid seq flags fore back) = OpCreateSession"
| "expectedOp (DestroySessionRes st) = OpDestroySession"
| "expectedOp (DestroyClientIDRes st) = OpDestroyClientID"
| "expectedOp (ReclaimCompleteRes st) = OpReclaimComplete"
| "expectedOp (SequenceRes st sid seq slot highest target flags) = OpSequence"

definition decodeChannelAttrs :: "(decoder, ChannelAttrs) state" where
  "decodeChannelAttrs = do {
     headerPadSize \<leftarrow> Decoder_Uint32;
     maxRequestSize \<leftarrow> Decoder_Uint32;
     maxResponseSize \<leftarrow> Decoder_Uint32;
     maxResponseSizeCach \<leftarrow> Decoder_Uint32;
     maxOperations \<leftarrow> Decoder_Uint32;
     maxRequests \<leftarrow> Decoder_Uint32;
     n \<leftarrow> Decoder_Uint32;
     repeatM (unat n) Decoder_Uint32;
     State_Monad.return
       \<lparr>ca_HeaderPadSize = headerPadSize, ca_MaxRequestSize = maxRequestSize,
        ca_MaxResponseSize = maxResponseSize, ca_MaxResponseSizeCach = maxResponseSizeCach,
        ca_MaxOperations = maxOperations, ca_MaxRequests = maxRequests\<rparr>
   }"

definition decodeNfsace4 :: "(decoder, unit) state" where
  "decodeNfsace4 = do {
     Decoder_Uint32;
     Decoder_Uint32;
     Decoder_Uint32;
     Decoder_String;
     State_Monad.return ()
   }"

definition decodeSpaceLimit :: "(decoder, unit) state" where
  "decodeSpaceLimit = do {
     limitBy \<leftarrow> Decoder_Uint32;
     (if limitBy = 1 then do { Decoder_Uint64; State_Monad.return () }
      else if limitBy = 2 then do { Decoder_Uint32; Decoder_Uint32; State_Monad.return () }
      else State_Monad.return ())
   }"

text \<open>The three discarded reads of a \<open>change_info4\<close>.\<close>

definition decodeChangeInfo :: "(decoder, unit) state" where
  "decodeChangeInfo = do { Decoder_Bool; Decoder_Uint64; Decoder_Uint64; State_Monad.return () }"

text \<open>The delegation of an OPEN result.\<close>

definition decodeDelegation :: "(decoder, unit) state" where
  "decodeDelegation = do {
     delegType \<leftarrow> Decoder_Uint32;
     (if delegType = 1 then do { DecodeStateid; Decoder_Bool; decodeNfsace4 }
      else if delegType = 2 then do {
        DecodeStateid; Decoder_Bool; decodeSpaceLimit; decodeNfsace4
      }
      else State_Monad.return ())
   }"

text \<open>The \<open>nfs_impl_id4\<close> an EXCHANGE_ID result may carry.\<close>

definition decodeImplId :: "(decoder, unit) state" where
  "decodeImplId = do {
     Decoder_String; Decoder_String; Decoder_Int64; Decoder_Uint32; State_Monad.return ()
   }"

definition decodeDirEntry :: "(decoder, DirEntry) state" where
  "decodeDirEntry = do {
     cookie \<leftarrow> Decoder_Uint64;
     name \<leftarrow> Decoder_String;
     bm \<leftarrow> DecodeBitmap;
     vals \<leftarrow> Decoder_OpaqueB;
     State_Monad.return \<lparr>de_Cookie = cookie, de_Name = name, de_AttrMask = bm, de_AttrVals = vals\<rparr>
   }"

lemma dec_mono_Bitmap [progress_rules]: "dec_mono DecodeBitmap"
  unfolding DecodeBitmap_def by (intro progress_rules)

lemma dec_mono_DirEntry: "dec_mono decodeDirEntry"
  unfolding decodeDirEntry_def by (intro progress_rules)

text \<open>
  The entry loop of \<open>ReaddirRes.DecodeRes\<close>: the entries, and whether the method returned
  from inside the loop (an entry that does not decode) instead of leaving it.
\<close>

function ReaddirRes_loop :: "DirEntry list \<Rightarrow> decoder \<Rightarrow> (DirEntry list \<times> bool) \<times> decoder" where
  "ReaddirRes_loop entries d =
     (case run_state Decoder_Bool d of
        (follows, d1) \<Rightarrow>
          if dec_err d1 \<noteq> None \<or> \<not> follows then ((entries, False), d1)
          else (case run_state decodeDirEntry d1 of
                  (e, d2) \<Rightarrow>
                    if dec_err d2 \<noteq> None then ((entries, True), d2)
                    else ReaddirRes_loop (entries @ [e]) d2))"
  by pat_completeness auto
termination
proof (relation "measure (\<lambda>(entries, d). dec_left d)", goal_cases)
  case 1
  show ?case by simp
next
  case (2 entries d follows d1 e d2)
  then have "run_state Decoder_Bool d = (True, d1)" and "run_state decodeDirEntry d1 = (e, d2)"
    by auto
  then have "dec_left d1 < dec_left d" and "dec_left d2 \<le> dec_left d1"
    using Decoder_Bool_True_progress dec_monoD [OF dec_mono_DirEntry, of d1] by auto
  then show ?case by simp
qed

declare ReaddirRes_loop.simps [simp del]

definition StatusRes_DecodeRes :: "(decoder, res) state" where
  "StatusRes_DecodeRes = do { st \<leftarrow> Decoder_Uint32; State_Monad.return (StatusRes st) }"

definition GetfhRes_DecodeRes :: "FileHandle \<Rightarrow> (decoder, res) state" where
  "GetfhRes_DecodeRes fh0 = do {
     st \<leftarrow> Decoder_Uint32;
     if st = NFS4_OK then do { fh \<leftarrow> Decoder_Opaque; State_Monad.return (GetfhRes st fh) }
     else State_Monad.return (GetfhRes st fh0)
   }"

definition GetattrRes_DecodeRes :: "Bitmap \<Rightarrow> bytes \<Rightarrow> (decoder, res) state" where
  "GetattrRes_DecodeRes bm0 vals0 = do {
     st \<leftarrow> Decoder_Uint32;
     if st = NFS4_OK then do {
       bm \<leftarrow> DecodeBitmap;
       vals \<leftarrow> Decoder_OpaqueB;
       State_Monad.return (GetattrRes st bm vals)
     }
     else State_Monad.return (GetattrRes st bm0 vals0)
   }"

definition SetclientidRes_DecodeRes :: "u64 \<Rightarrow> bytes \<Rightarrow> string \<Rightarrow> string \<Rightarrow> (decoder, res) state" where
  "SetclientidRes_DecodeRes cid0 confirm0 netid0 addr0 = do {
     st \<leftarrow> Decoder_Uint32;
     if st = NFS4_OK then do {
       cid \<leftarrow> Decoder_Uint64;
       confirm \<leftarrow> Decoder_FixedOpaque 8;
       State_Monad.return (SetclientidRes st cid (copy_fixed confirm0 confirm) netid0 addr0)
     }
     else if st = NFS4ERR_CLID_INUSE then do {
       netid \<leftarrow> Decoder_String;
       addr \<leftarrow> Decoder_String;
       State_Monad.return (SetclientidRes st cid0 confirm0 netid addr)
     }
     else State_Monad.return (SetclientidRes st cid0 confirm0 netid0 addr0)
   }"

definition ReadRes_DecodeRes :: "bool \<Rightarrow> bytes \<Rightarrow> (decoder, res) state" where
  "ReadRes_DecodeRes eof0 data0 = do {
     st \<leftarrow> Decoder_Uint32;
     if st = NFS4_OK then do {
       eof \<leftarrow> Decoder_Bool;
       data \<leftarrow> Decoder_OpaqueB;
       State_Monad.return (ReadRes st eof data)
     }
     else State_Monad.return (ReadRes st eof0 data0)
   }"

definition ReaddirRes_DecodeRes :: "bytes \<Rightarrow> DirEntry list \<Rightarrow> bool \<Rightarrow> (decoder, res) state" where
  "ReaddirRes_DecodeRes verf0 entries0 eof0 = do {
     st \<leftarrow> Decoder_Uint32;
     if st \<noteq> NFS4_OK then State_Monad.return (ReaddirRes st verf0 entries0 eof0)
     else do {
       verf \<leftarrow> Decoder_FixedOpaque 8;
       (entries, returned) \<leftarrow> State (ReaddirRes_loop entries0);
       if returned then State_Monad.return (ReaddirRes st (copy_fixed verf0 verf) entries eof0)
       else do {
         eof \<leftarrow> Decoder_Bool;
         State_Monad.return (ReaddirRes st (copy_fixed verf0 verf) entries eof)
       }
     }
   }"

definition ReadlinkRes_DecodeRes :: "string \<Rightarrow> (decoder, res) state" where
  "ReadlinkRes_DecodeRes link0 = do {
     st \<leftarrow> Decoder_Uint32;
     if st = NFS4_OK then do { link \<leftarrow> Decoder_String; State_Monad.return (ReadlinkRes st link) }
     else State_Monad.return (ReadlinkRes st link0)
   }"

definition OpenRes_DecodeRes :: "Stateid \<Rightarrow> u32 \<Rightarrow> Bitmap \<Rightarrow> (decoder, res) state" where
  "OpenRes_DecodeRes sid0 rflags0 attrset0 = do {
     st \<leftarrow> Decoder_Uint32;
     if st \<noteq> NFS4_OK then State_Monad.return (OpenRes st sid0 rflags0 attrset0)
     else do {
       sid \<leftarrow> DecodeStateid;
       decodeChangeInfo;
       rflags \<leftarrow> Decoder_Uint32;
       attrset \<leftarrow> DecodeBitmap;
       decodeDelegation;
       State_Monad.return (OpenRes st sid rflags attrset)
     }
   }"

definition OpenConfirmRes_DecodeRes :: "Stateid \<Rightarrow> (decoder, res) state" where
  "OpenConfirmRes_DecodeRes sid0 = do {
     st \<leftarrow> Decoder_Uint32;
     if st = NFS4_OK then do { sid \<leftarrow> DecodeStateid; State_Monad.return (OpenConfirmRes st sid) }
     else State_Monad.return (OpenConfirmRes st sid0)
   }"

definition WriteRes_DecodeRes :: "u32 \<Rightarrow> StableHow \<Rightarrow> bytes \<Rightarrow> (decoder, res) state" where
  "WriteRes_DecodeRes count0 committed0 verf0 = do {
     st \<leftarrow> Decoder_Uint32;
     if st = NFS4_OK then do {
       count \<leftarrow> Decoder_Uint32;
       committed \<leftarrow> Decoder_Uint32;
       verf \<leftarrow> Decoder_FixedOpaque 8;
       State_Monad.return (WriteRes st count committed (copy_fixed verf0 verf))
     }
     else State_Monad.return (WriteRes st count0 committed0 verf0)
   }"

definition CommitRes_DecodeRes :: "bytes \<Rightarrow> (decoder, res) state" where
  "CommitRes_DecodeRes verf0 = do {
     st \<leftarrow> Decoder_Uint32;
     if st = NFS4_OK then do {
       verf \<leftarrow> Decoder_FixedOpaque 8;
       State_Monad.return (CommitRes st (copy_fixed verf0 verf))
     }
     else State_Monad.return (CommitRes st verf0)
   }"

definition CloseRes_DecodeRes :: "Stateid \<Rightarrow> (decoder, res) state" where
  "CloseRes_DecodeRes sid0 = do {
     st \<leftarrow> Decoder_Uint32;
     if st = NFS4_OK then do { sid \<leftarrow> DecodeStateid; State_Monad.return (CloseRes st sid) }
     else State_Monad.return (CloseRes st sid0)
   }"

definition CreateRes_DecodeRes :: "Bitmap \<Rightarrow> (decoder, res) state" where
  "CreateRes_DecodeRes attrset0 = do {
     st \<leftarrow> Decoder_Uint32;
     if st = NFS4_OK then do {
       decodeChangeInfo;
       attrset \<leftarrow> DecodeBitmap;
       State_Monad.return (CreateRes st attrset)
     }
     else State_Monad.return (CreateRes st attrset0)
   }"

definition RemoveRes_DecodeRes :: "(decoder, res) state" where
  "RemoveRes_DecodeRes = do {
     st \<leftarrow> Decoder_Uint32;
     if st = NFS4_OK then do { decodeChangeInfo; State_Monad.return (RemoveRes st) }
     else State_Monad.return (RemoveRes st)
   }"

definition RenameRes_DecodeRes :: "(decoder, res) state" where
  "RenameRes_DecodeRes = do {
     st \<leftarrow> Decoder_Uint32;
     if st = NFS4_OK then do {
       decodeChangeInfo;
       decodeChangeInfo;
       State_Monad.return (RenameRes st)
     }
     else State_Monad.return (RenameRes st)
   }"

definition LinkRes_DecodeRes :: "(decoder, res) state" where
  "LinkRes_DecodeRes = do {
     st \<leftarrow> Decoder_Uint32;
     if st = NFS4_OK then do { decodeChangeInfo; State_Monad.return (LinkRes st) }
     else State_Monad.return (LinkRes st)
   }"

definition SetattrRes_DecodeRes :: "Bitmap \<Rightarrow> (decoder, res) state" where
  "SetattrRes_DecodeRes attrset0 = do {
     st \<leftarrow> Decoder_Uint32;
     attrset \<leftarrow> DecodeBitmap;
     State_Monad.return (SetattrRes st attrset)
   }"

definition ExchangeIDRes_DecodeRes :: "u64 \<Rightarrow> u32 \<Rightarrow> u32 \<Rightarrow> (decoder, res) state" where
  "ExchangeIDRes_DecodeRes cid0 seq0 flags0 = do {
     st \<leftarrow> Decoder_Uint32;
     if st \<noteq> NFS4_OK then State_Monad.return (ExchangeIDRes st cid0 seq0 flags0)
     else do {
       cid \<leftarrow> Decoder_Uint64;
       seq \<leftarrow> Decoder_Uint32;
       flags \<leftarrow> Decoder_Uint32;
       Decoder_Uint32;
       Decoder_Uint64;
       Decoder_Opaque;
       Decoder_Opaque;
       n \<leftarrow> Decoder_Uint32;
       repeatM (unat n) decodeImplId;
       State_Monad.return (ExchangeIDRes st cid seq flags)
     }
   }"

definition CreateSessionRes_DecodeRes :: "SessionID \<Rightarrow> u32 \<Rightarrow> u32 \<Rightarrow> ChannelAttrs \<Rightarrow> ChannelAttrs \<Rightarrow> (decoder, res) state" where
  "CreateSessionRes_DecodeRes sid0 seq0 flags0 fore0 back0 = do {
     st \<leftarrow> Decoder_Uint32;
     if st \<noteq> NFS4_OK then State_Monad.return (CreateSessionRes st sid0 seq0 flags0 fore0 back0)
     else do {
       sid \<leftarrow> Decoder_FixedOpaque (int SessionIDLen);
       seq \<leftarrow> Decoder_Uint32;
       flags \<leftarrow> Decoder_Uint32;
       fore \<leftarrow> decodeChannelAttrs;
       back \<leftarrow> decodeChannelAttrs;
       State_Monad.return (CreateSessionRes st (copy_fixed sid0 sid) seq flags fore back)
     }
   }"

definition DestroySessionRes_DecodeRes :: "(decoder, res) state" where
  "DestroySessionRes_DecodeRes = do {
     st \<leftarrow> Decoder_Uint32;
     State_Monad.return (DestroySessionRes st)
   }"

definition DestroyClientIDRes_DecodeRes :: "(decoder, res) state" where
  "DestroyClientIDRes_DecodeRes = do {
     st \<leftarrow> Decoder_Uint32;
     State_Monad.return (DestroyClientIDRes st)
   }"

definition ReclaimCompleteRes_DecodeRes :: "(decoder, res) state" where
  "ReclaimCompleteRes_DecodeRes = do {
     st \<leftarrow> Decoder_Uint32;
     State_Monad.return (ReclaimCompleteRes st)
   }"

definition SequenceRes_DecodeRes :: "SessionID \<Rightarrow> u32 \<Rightarrow> u32 \<Rightarrow> u32 \<Rightarrow> u32 \<Rightarrow> u32 \<Rightarrow> (decoder, res) state" where
  "SequenceRes_DecodeRes sid0 seq0 slot0 highest0 target0 flags0 = do {
     st \<leftarrow> Decoder_Uint32;
     if st \<noteq> NFS4_OK then State_Monad.return (SequenceRes st sid0 seq0 slot0 highest0 target0 flags0)
     else do {
       sid \<leftarrow> Decoder_FixedOpaque (int SessionIDLen);
       seq \<leftarrow> Decoder_Uint32;
       slot \<leftarrow> Decoder_Uint32;
       highest \<leftarrow> Decoder_Uint32;
       target \<leftarrow> Decoder_Uint32;
       flags \<leftarrow> Decoder_Uint32;
       State_Monad.return (SequenceRes st (copy_fixed sid0 sid) seq slot highest target flags)
     }
   }"

text \<open>The interface \<open>Res\<close>. The status is overwritten in every case.\<close>

fun DecodeRes :: "res \<Rightarrow> (decoder, res) state" where
  "DecodeRes (StatusRes st0) = StatusRes_DecodeRes"
| "DecodeRes (GetfhRes st0 fh0) = GetfhRes_DecodeRes fh0"
| "DecodeRes (GetattrRes st0 bm0 vals0) = GetattrRes_DecodeRes bm0 vals0"
| "DecodeRes (SetclientidRes st0 cid0 confirm0 netid0 addr0) = SetclientidRes_DecodeRes cid0 confirm0 netid0 addr0"
| "DecodeRes (ReadRes st0 eof0 data0) = ReadRes_DecodeRes eof0 data0"
| "DecodeRes (ReaddirRes st0 verf0 entries0 eof0) = ReaddirRes_DecodeRes verf0 entries0 eof0"
| "DecodeRes (ReadlinkRes st0 link0) = ReadlinkRes_DecodeRes link0"
| "DecodeRes (OpenRes st0 sid0 rflags0 attrset0) = OpenRes_DecodeRes sid0 rflags0 attrset0"
| "DecodeRes (OpenConfirmRes st0 sid0) = OpenConfirmRes_DecodeRes sid0"
| "DecodeRes (WriteRes st0 count0 committed0 verf0) = WriteRes_DecodeRes count0 committed0 verf0"
| "DecodeRes (CommitRes st0 verf0) = CommitRes_DecodeRes verf0"
| "DecodeRes (CloseRes st0 sid0) = CloseRes_DecodeRes sid0"
| "DecodeRes (CreateRes st0 attrset0) = CreateRes_DecodeRes attrset0"
| "DecodeRes (RemoveRes st0) = RemoveRes_DecodeRes"
| "DecodeRes (RenameRes st0) = RenameRes_DecodeRes"
| "DecodeRes (LinkRes st0) = LinkRes_DecodeRes"
| "DecodeRes (SetattrRes st0 attrset0) = SetattrRes_DecodeRes attrset0"
| "DecodeRes (ExchangeIDRes st0 cid0 seq0 flags0) = ExchangeIDRes_DecodeRes cid0 seq0 flags0"
| "DecodeRes (CreateSessionRes st0 sid0 seq0 flags0 fore0 back0) = CreateSessionRes_DecodeRes sid0 seq0 flags0 fore0 back0"
| "DecodeRes (DestroySessionRes st0) = DestroySessionRes_DecodeRes"
| "DecodeRes (DestroyClientIDRes st0) = DestroyClientIDRes_DecodeRes"
| "DecodeRes (ReclaimCompleteRes st0) = ReclaimCompleteRes_DecodeRes"
| "DecodeRes (SequenceRes st0 sid0 seq0 slot0 highest0 target0 flags0) = SequenceRes_DecodeRes sid0 seq0 slot0 highest0 target0 flags0"

lemmas DecodeRes_defs [simp] =
  StatusRes_DecodeRes_def GetfhRes_DecodeRes_def GetattrRes_DecodeRes_def
  SetclientidRes_DecodeRes_def ReadRes_DecodeRes_def ReaddirRes_DecodeRes_def
  ReadlinkRes_DecodeRes_def OpenRes_DecodeRes_def OpenConfirmRes_DecodeRes_def
  WriteRes_DecodeRes_def CommitRes_DecodeRes_def CloseRes_DecodeRes_def
  CreateRes_DecodeRes_def RemoveRes_DecodeRes_def RenameRes_DecodeRes_def
  LinkRes_DecodeRes_def SetattrRes_DecodeRes_def ExchangeIDRes_DecodeRes_def
  CreateSessionRes_DecodeRes_def DestroySessionRes_DecodeRes_def DestroyClientIDRes_DecodeRes_def
  ReclaimCompleteRes_DecodeRes_def SequenceRes_DecodeRes_def

definition NeedsConfirm :: "res \<Rightarrow> bool" where
  "NeedsConfirm r = (res_RFlags r AND OpenResultConfirm \<noteq> 0)"

end
