(* ===== verification/Ops_Wire.thy ===== *)
theory Ops_Wire
  imports Ops
begin

text \<open>
  What the operations of \<open>Ops\<close> mean on the wire. The server's side of the protocol is
  the specification: a decoder of arguments written from the protocol's argument unions and
  an encoder of results. The client's \<open>EncodeArg\<close> is proved to be understood by the
  former, and its \<open>DecodeRes\<close> to understand the latter.

  The proofs compose with \<open>transports\<close>: the bytes one side writes are the bytes the other
  side reads, up to the value that arrives.
\<close>

subsection \<open>A calculus of matching encoders and decoders\<close>

definition transports :: "(bytes encoder, unit) state \<Rightarrow> (decoder, 'a) state \<Rightarrow> 'a \<Rightarrow> bool" where
  "transports e d v \<longleftrightarrow> (\<exists>bs. writes e bs \<and> reads d v bs \<and> 4 dvd length bs)"

lemma transportsI: "writes e bs \<Longrightarrow> reads d v bs \<Longrightarrow> 4 dvd length bs \<Longrightarrow> transports e d v"
  by (auto simp: transports_def)

lemma transports_bind:
  assumes "transports e d v" and "transports e' (f v) w"
  shows "transports (State_Monad.bind e (\<lambda>_. e')) (State_Monad.bind d f) w"
proof -
  obtain bs bs' where "writes e bs" "reads d v bs" "4 dvd length bs"
      "writes e' bs'" "reads (f v) w bs'" "4 dvd length bs'"
    using assms by (auto simp: transports_def)
  then show ?thesis
    by (intro transportsI [where bs = "bs @ bs'"] writes_bind reads_bind) simp_all
qed

text \<open>The encoder ends where the decoder still has to build its value.\<close>

lemma transports_last:
  assumes "transports e d v" and "f v = State_Monad.return w"
  shows "transports e (State_Monad.bind d f) w"
proof -
  obtain bs where "writes e bs" "reads d v bs" "4 dvd length bs"
    using assms by (auto simp: transports_def)
  moreover have "reads (f v) w []" unfolding assms(2) by (rule reads_return)
  then have "reads (State_Monad.bind d f) w (bs @ [])"
    using \<open>reads d v bs\<close> by (intro reads_bind)
  ultimately show ?thesis by (intro transportsI [where bs = bs]) simp_all
qed

lemma transports_return: "transports (State_Monad.return ()) (State_Monad.return v) v"
  by (rule transportsI [where bs = "[]"]) (simp_all add: writes_return reads_return)

lemma transports_run:
  "transports e d v \<Longrightarrow> run_state d (bdec (encoded e @ rest)) = (v, bdec rest)"
  by (auto simp: transports_def encoded_writes readsD)

lemma transports_codec:
  assumes "codec enc dec wire ok" and "ok x"
  shows "transports (enc x) dec x"
  by (rule transportsI [OF codec.enc_writes [OF assms(1)] codec.dec_reads [OF assms] codec.wire_aligned [OF assms]])

lemma transports_Uint32: "transports (Encoder_Uint32 v) Decoder_Uint32 v"
  by (rule transports_codec [OF uint32.codec_axioms]) simp

lemma transports_Uint64: "transports (Encoder_Uint64 v) Decoder_Uint64 v"
  by (rule transports_codec [OF uint64.codec_axioms]) simp

lemma transports_Int64: "- (2 ^ 63) \<le> v \<and> v < 2 ^ 63 \<Longrightarrow> transports (Encoder_Int64 v) Decoder_Int64 v"
  by (rule transports_codec [OF int64.codec_axioms])

lemma transports_Bool: "transports (Encoder_Bool v) Decoder_Bool v"
  by (rule transports_codec [OF xbool.codec_axioms]) simp

lemma transports_OpaqueB: "opaque_ok p \<Longrightarrow> transports (Encoder_Opaque p) Decoder_OpaqueB p"
  by (rule transports_codec [OF opaque.codec_axioms])

lemma transports_Opaque: "opaque_ok p \<Longrightarrow> transports (Encoder_Opaque p) Decoder_Opaque (Some p)"
  by (rule transportsI [OF writes_Opaque reads_Opaque aligned_wire_opaque])

lemma transports_String: "string_ok s \<Longrightarrow> transports (Encoder_String s) Decoder_String s"
  by (rule transports_codec [OF xstring.codec_axioms])

lemma transports_Bitmap: "bitmap_ok b \<Longrightarrow> transports (Bitmap_Encode b) DecodeBitmap b"
  by (rule transports_codec [OF bitmap.codec_axioms])

lemma transports_Stateid: "stateid_ok s \<Longrightarrow> transports (Stateid_Encode s) DecodeStateid s"
  by (rule transports_codec [OF stateid.codec_axioms])

lemma transports_FixedOpaque:
  "int (length p) = n \<Longrightarrow> transports (Encoder_FixedOpaque p) (Decoder_FixedOpaque n) (Some p)"
  by (rule transportsI [OF writes_FixedOpaque reads_FixedOpaque aligned_wire_fixed]) simp

lemmas transports_prims =
  transports_Uint32 transports_Uint64 transports_Bool transports_OpaqueB transports_Opaque
  transports_String transports_Bitmap transports_Stateid transports_FixedOpaque transports_Int64

subsection \<open>The server reads the arguments\<close>

definition decode_ChannelAttrs :: "(decoder, ChannelAttrs) state" where
  "decode_ChannelAttrs = do {
     a \<leftarrow> Decoder_Uint32; b \<leftarrow> Decoder_Uint32; c \<leftarrow> Decoder_Uint32;
     d \<leftarrow> Decoder_Uint32; e \<leftarrow> Decoder_Uint32; f \<leftarrow> Decoder_Uint32;
     Decoder_Uint32;
     State_Monad.return
       \<lparr>ca_HeaderPadSize = a, ca_MaxRequestSize = b, ca_MaxResponseSize = c,
        ca_MaxResponseSizeCach = d, ca_MaxOperations = e, ca_MaxRequests = f\<rparr>
   }"

definition decode_open :: "(decoder, arg) state" where
  "decode_open = do {
     seqid \<leftarrow> Decoder_Uint32; access \<leftarrow> Decoder_Uint32; deny \<leftarrow> Decoder_Uint32;
     cid \<leftarrow> Decoder_Uint64; owner \<leftarrow> Decoder_OpaqueB; ty \<leftarrow> Decoder_Uint32;
     (mode, bm, vals, verf) \<leftarrow>
       (if ty = Open4Create then do {
          mode \<leftarrow> Decoder_Uint32;
          (if mode = CreateExclusive then do {
             verf \<leftarrow> Decoder_FixedOpaque 8;
             State_Monad.return (mode, [], [], nilb verf)
           }
           else do {
             bm \<leftarrow> DecodeBitmap; vals \<leftarrow> Decoder_OpaqueB;
             State_Monad.return (mode, bm, vals, zeros 8)
           })
        }
        else State_Monad.return (0, [], [], zeros 8));
     Decoder_Uint32;
     name \<leftarrow> Decoder_String;
     State_Monad.return (AOpen
       \<lparr>oa_Seqid = seqid, oa_ShareAccess = access, oa_ShareDeny = deny, oa_ClientID = cid,
        oa_Owner = owner, oa_OpenType = ty, oa_CreateMode = mode, oa_CreateAttrMask = bm,
        oa_CreateAttrVals = vals, oa_CreateVerf = verf, oa_Name = name\<rparr>)
   }"

definition decode_create :: "(decoder, arg) state" where
  "decode_create = do {
     ty \<leftarrow> Decoder_Uint32;
     link \<leftarrow> (if ty = 5 then Decoder_String
              else if ty = 3 \<or> ty = 4 then do { Decoder_Uint32; Decoder_Uint32; State_Monad.return [] }
              else State_Monad.return []);
     name \<leftarrow> Decoder_String; bm \<leftarrow> DecodeBitmap; vals \<leftarrow> Decoder_OpaqueB;
     State_Monad.return (ACreate
       \<lparr>ca_Type = ty, ca_LinkData = link, ca_ObjName = name, ca_AttrMask = bm, ca_AttrVals = vals\<rparr>)
   }"

definition decode_argbody :: "Opnum \<Rightarrow> (decoder, arg) state" where
  "decode_argbody opn =
     (if opn = OpPutrootfh then State_Monad.return PutrootfhArgs
      else if opn = OpPutfh then do { fh \<leftarrow> Decoder_Opaque; State_Monad.return (PutfhArgs fh) }
      else if opn = OpGetfh then State_Monad.return GetfhArgs
      else if opn = OpLookup then do { n \<leftarrow> Decoder_String; State_Monad.return (LookupArgs n) }
      else if opn = OpGetattr then do { b \<leftarrow> DecodeBitmap; State_Monad.return (GetattrArgs b) }
      else if opn = OpSetclientid then do {
        verf \<leftarrow> Decoder_FixedOpaque 8; i \<leftarrow> Decoder_OpaqueB; prog \<leftarrow> Decoder_Uint32;
        netid \<leftarrow> Decoder_String; addr \<leftarrow> Decoder_String; ident \<leftarrow> Decoder_Uint32;
        State_Monad.return (ASetclientid
          \<lparr>sc_Verifier = nilb verf, sc_ID = i, sc_CallbackProg = prog, sc_CallbackNetID = netid,
           sc_CallbackAddr = addr, sc_CallbackIdent = ident\<rparr>)
      }
      else if opn = OpSetclientidConfirm then do {
        cid \<leftarrow> Decoder_Uint64; verf \<leftarrow> Decoder_FixedOpaque 8;
        State_Monad.return (SetclientidConfirmArgs cid (nilb verf))
      }
      else if opn = OpRead then do {
        sid \<leftarrow> DecodeStateid; off \<leftarrow> Decoder_Uint64; count \<leftarrow> Decoder_Uint32;
        State_Monad.return (ReadArgs sid off count)
      }
      else if opn = OpReaddir then do {
        cookie \<leftarrow> Decoder_Uint64; verf \<leftarrow> Decoder_FixedOpaque 8; dc \<leftarrow> Decoder_Uint32;
        mc \<leftarrow> Decoder_Uint32; b \<leftarrow> DecodeBitmap;
        State_Monad.return (ReaddirArgs cookie (nilb verf) dc mc b)
      }
      else if opn = OpReadlink then State_Monad.return ReadlinkArgs
      else if opn = OpRenew then do { cid \<leftarrow> Decoder_Uint64; State_Monad.return (RenewArgs cid) }
      else if opn = OpOpen then decode_open
      else if opn = OpOpenConfirm then do {
        sid \<leftarrow> DecodeStateid; seqid \<leftarrow> Decoder_Uint32;
        State_Monad.return (OpenConfirmArgs sid seqid)
      }
      else if opn = OpWrite then do {
        sid \<leftarrow> DecodeStateid; off \<leftarrow> Decoder_Uint64; how \<leftarrow> Decoder_Uint32; data \<leftarrow> Decoder_OpaqueB;
        State_Monad.return (WriteArgs sid off how data)
      }
      else if opn = OpCommit then do {
        off \<leftarrow> Decoder_Uint64; count \<leftarrow> Decoder_Uint32; State_Monad.return (CommitArgs off count)
      }
      else if opn = OpClose then do {
        seqid \<leftarrow> Decoder_Uint32; sid \<leftarrow> DecodeStateid; State_Monad.return (CloseArgs seqid sid)
      }
      else if opn = OpCreate then decode_create
      else if opn = OpRemove then do { n \<leftarrow> Decoder_String; State_Monad.return (RemoveArgs n) }
      else if opn = OpRename then do {
        old \<leftarrow> Decoder_String; new \<leftarrow> Decoder_String; State_Monad.return (RenameArgs old new)
      }
      else if opn = OpLink then do { n \<leftarrow> Decoder_String; State_Monad.return (LinkArgs n) }
      else if opn = OpSetattr then do {
        sid \<leftarrow> DecodeStateid; b \<leftarrow> DecodeBitmap; vals \<leftarrow> Decoder_OpaqueB;
        State_Monad.return (SetattrArgs sid b vals)
      }
      else if opn = OpSavefh then State_Monad.return SavefhArgs
      else if opn = OpRestorefh then State_Monad.return RestorefhArgs
      else if opn = OpExchangeID then do {
        verf \<leftarrow> Decoder_FixedOpaque 8; owner \<leftarrow> Decoder_OpaqueB; flags \<leftarrow> Decoder_Uint32;
        Decoder_Uint32; Decoder_Uint32;
        State_Monad.return (ExchangeIDArgs (nilb verf) owner flags)
      }
      else if opn = OpCreateSession then do {
        cid \<leftarrow> Decoder_Uint64; seq \<leftarrow> Decoder_Uint32; flags \<leftarrow> Decoder_Uint32;
        fore \<leftarrow> decode_ChannelAttrs; back \<leftarrow> decode_ChannelAttrs; prog \<leftarrow> Decoder_Uint32;
        Decoder_Uint32;
        State_Monad.return (ACreateSession
          \<lparr>cs_ClientID = cid, cs_SequenceID = seq, cs_Flags = flags, cs_ForeChan = fore,
           cs_BackChan = back, cs_CBProgram = prog\<rparr>)
      }
      else if opn = OpDestroySession then do {
        sid \<leftarrow> Decoder_FixedOpaque 16; State_Monad.return (DestroySessionArgs (nilb sid))
      }
      else if opn = OpDestroyClientID then do {
        cid \<leftarrow> Decoder_Uint64; State_Monad.return (DestroyClientIDArgs cid)
      }
      else if opn = OpReclaimComplete then do {
        b \<leftarrow> Decoder_Bool; State_Monad.return (ReclaimCompleteArgs b)
      }
      else do {
        sid \<leftarrow> Decoder_FixedOpaque 16; seq \<leftarrow> Decoder_Uint32; slot \<leftarrow> Decoder_Uint32;
        highest \<leftarrow> Decoder_Uint32; cache \<leftarrow> Decoder_Bool;
        State_Monad.return (ASequence
          \<lparr>sq_SessionID = nilb sid, sq_SequenceID = seq, sq_SlotID = slot,
           sq_HighestSlotID = highest, sq_CacheThis = cache\<rparr>)
      })"

definition decode_arg :: "(decoder, arg) state" where
  "decode_arg = do { opn \<leftarrow> Decoder_Uint32; decode_argbody opn }"

text \<open>
  Sizes within the protocol's limits; fields an OPEN or CREATE does not send hold their zero
  values.
\<close>

fun arg_ok :: "arg \<Rightarrow> bool" where
  "arg_ok (PutfhArgs fh) = (fh \<noteq> None \<and> opaque_ok (nilb fh))"
| "arg_ok (LookupArgs n) = string_ok n"
| "arg_ok (GetattrArgs b) = bitmap_ok b"
| "arg_ok (ASetclientid a) = (length (sc_Verifier a) = 8 \<and> opaque_ok (sc_ID a) \<and>
     string_ok (sc_CallbackNetID a) \<and> string_ok (sc_CallbackAddr a))"
| "arg_ok (SetclientidConfirmArgs cid verf) = (length verf = 8)"
| "arg_ok (ReadArgs sid off count) = stateid_ok sid"
| "arg_ok (ReaddirArgs cookie verf dc mc b) = (length verf = 8 \<and> bitmap_ok b)"
| "arg_ok (AOpen a) = (opaque_ok (oa_Owner a) \<and> string_ok (oa_Name a) \<and>
     (if oa_OpenType a = Open4Create \<and> oa_CreateMode a = CreateExclusive
      then length (oa_CreateVerf a) = 8 \<and> oa_CreateAttrMask a = [] \<and> oa_CreateAttrVals a = []
      else oa_CreateVerf a = zeros 8 \<and>
        (if oa_OpenType a = Open4Create
         then bitmap_ok (oa_CreateAttrMask a) \<and> opaque_ok (oa_CreateAttrVals a)
         else oa_CreateMode a = 0 \<and> oa_CreateAttrMask a = [] \<and> oa_CreateAttrVals a = [])))"
| "arg_ok (OpenConfirmArgs sid seqid) = stateid_ok sid"
| "arg_ok (WriteArgs sid off how data) = (stateid_ok sid \<and> opaque_ok data)"
| "arg_ok (CloseArgs seqid sid) = stateid_ok sid"
| "arg_ok (ACreate a) = (string_ok (ca_ObjName a) \<and> bitmap_ok (ca_AttrMask a) \<and>
     opaque_ok (ca_AttrVals a) \<and> (if ca_Type a = 5 then string_ok (ca_LinkData a) else ca_LinkData a = []))"
| "arg_ok (RemoveArgs n) = string_ok n"
| "arg_ok (RenameArgs old new) = (string_ok old \<and> string_ok new)"
| "arg_ok (LinkArgs n) = string_ok n"
| "arg_ok (SetattrArgs sid b vals) = (stateid_ok sid \<and> bitmap_ok b \<and> opaque_ok vals)"
| "arg_ok (ExchangeIDArgs verf owner flags) = (length verf = 8 \<and> opaque_ok owner)"
| "arg_ok (DestroySessionArgs sid) = (length sid = 16)"
| "arg_ok (ASequence a) = (length (sq_SessionID a) = 16)"
| "arg_ok _ = True"


lemma nilb_Some [simp]: "nilb (Some p) = p"
  by (simp add: nilb_def)

lemma transports_ChannelAttrs: "transports (ChannelAttrs_encode c) decode_ChannelAttrs c"
  unfolding ChannelAttrs_encode_def decode_ChannelAttrs_def
  by (cases c) ((rule transports_bind transports_prims | rule transports_last)+, simp)

lemma transports_open:
  assumes "arg_ok (AOpen a)"
  shows "transports (OpenArgs_EncodeArg a) decode_arg (AOpen a)"
proof -
  let ?v = "(oa_CreateMode a, oa_CreateAttrMask a, oa_CreateAttrVals a, oa_CreateVerf a)"
  have how: "transports
      (if oa_OpenType a = Open4Create then do {
        Encoder_Uint32 (oa_CreateMode a);
        (if oa_CreateMode a = CreateExclusive then Encoder_FixedOpaque (oa_CreateVerf a)
         else do { Bitmap_Encode (oa_CreateAttrMask a); Encoder_Opaque (oa_CreateAttrVals a) })
       } else State_Monad.return ())
      (if oa_OpenType a = Open4Create then do {
          mode \<leftarrow> Decoder_Uint32;
          (if mode = CreateExclusive then do {
             verf \<leftarrow> Decoder_FixedOpaque 8;
             State_Monad.return (mode, [], [], nilb verf)
           }
           else do {
             bm \<leftarrow> DecodeBitmap; vals \<leftarrow> Decoder_OpaqueB;
             State_Monad.return (mode, bm, vals, zeros 8)
           })
        }
        else State_Monad.return (0, [], [], zeros 8)) ?v"
  proof (cases "oa_OpenType a = Open4Create")
    case create: True
    show ?thesis
    proof (cases "oa_CreateMode a = CreateExclusive")
      case True
      then show ?thesis using assms create
        by (auto intro!: transports_bind [OF transports_Uint32] transports_last [OF transports_FixedOpaque])
    next
      case False
      then show ?thesis using assms create
        by (auto intro!: transports_bind [OF transports_Uint32] transports_bind [OF transports_Bitmap]
            transports_last [OF transports_OpaqueB])
    qed
  next
    case False
    then show ?thesis using assms by (simp add: transports_return)
  qed
  have body: "decode_argbody OpOpen = decode_open" by (simp add: decode_argbody_def)
  have ok: "opaque_ok (oa_Owner a)" "string_ok (oa_Name a)" using assms by simp_all
  show ?thesis
    unfolding OpenArgs_EncodeArg_def decode_arg_def
    by (intro transports_bind [OF transports_Uint32], unfold body decode_open_def)
      (intro transports_bind [OF transports_Uint32] transports_bind [OF transports_Uint64]
        transports_bind [OF transports_OpaqueB [OF ok(1)]] transports_bind [OF how], unfold prod.case,
       intro transports_bind [OF transports_Uint32] transports_last [OF transports_String [OF ok(2)]],
       cases a, simp)
qed

lemma transports_create:
  assumes "arg_ok (ACreate a)"
  shows "transports (CreateArgs_EncodeArg a) decode_arg (ACreate a)"
proof -
  have ty: "transports
      (if ca_Type a = 5 then Encoder_String (ca_LinkData a)
       else if ca_Type a = 3 \<or> ca_Type a = 4 then do { Encoder_Uint32 0; Encoder_Uint32 0 }
       else State_Monad.return ())
      (if ca_Type a = 5 then Decoder_String
       else if ca_Type a = 3 \<or> ca_Type a = 4 then do { Decoder_Uint32; Decoder_Uint32; State_Monad.return [] }
       else State_Monad.return []) (ca_LinkData a)"
    using assms
    by (auto intro!: transports_return transports_String transports_bind [OF transports_Uint32]
        transports_last [OF transports_Uint32])
  have body: "decode_argbody OpCreate = decode_create" by (simp add: decode_argbody_def)
  have ok: "string_ok (ca_ObjName a)" "bitmap_ok (ca_AttrMask a)" "opaque_ok (ca_AttrVals a)"
    using assms by simp_all
  show ?thesis
    unfolding CreateArgs_EncodeArg_def decode_arg_def
    by (intro transports_bind [OF transports_Uint32], unfold body decode_create_def)
      (intro transports_bind [OF transports_Uint32] transports_bind [OF ty]
        transports_bind [OF transports_String [OF ok(1)]] transports_bind [OF transports_Bitmap [OF ok(2)]]
        transports_last [OF transports_OpaqueB [OF ok(3)]], cases a, simp)
qed

lemmas transports_steps =
  transports_bind [OF transports_Uint32] transports_bind [OF transports_Uint64]
  transports_bind [OF transports_Bool] transports_bind [OF transports_OpaqueB]
  transports_bind [OF transports_String] transports_bind [OF transports_Bitmap]
  transports_bind [OF transports_Stateid] transports_bind [OF transports_FixedOpaque]
  transports_bind [OF transports_ChannelAttrs] transports_bind [OF transports_Opaque]

lemmas transports_ends =
  transports_last [OF transports_Uint32] transports_last [OF transports_Uint64]
  transports_last [OF transports_Bool] transports_last [OF transports_OpaqueB]
  transports_last [OF transports_String] transports_last [OF transports_Bitmap]
  transports_last [OF transports_Stateid] transports_last [OF transports_FixedOpaque]
  transports_last [OF transports_Opaque]

lemma transports_arg:
  assumes "arg_ok a"
  shows "transports (EncodeArg a) decode_arg a"
proof -
  note rules = transports_steps transports_ends
  note defs = decode_arg_def SetclientidArgs_EncodeArg_def CreateSessionArgs_EncodeArg_def
    SequenceArgs_EncodeArg_def
  show ?thesis
  proof (cases a)
    case (AOpen x)
    then show ?thesis using assms transports_open by simp
  next
    case (ACreate x)
    then show ?thesis using assms transports_create by simp
  next
    case (PutfhArgs fh)
    then show ?thesis
      using assms by (cases fh) (auto simp: defs decode_argbody_def intro!: rules transports_last [OF transports_Opaque])
  next
    case (ASetclientid x)
    then show ?thesis using assms by (cases x) (auto simp: defs decode_argbody_def intro!: rules)
  next
    case (ACreateSession x)
    then show ?thesis using assms by (cases x) (auto simp: defs decode_argbody_def intro!: rules)
  next
    case (ASequence x)
    then show ?thesis using assms by (cases x) (auto simp: defs decode_argbody_def intro!: rules)
  qed (insert assms, auto simp: defs decode_argbody_def intro!: rules)
qed


lemma writes_if: "writes m xs \<Longrightarrow> writes n ys \<Longrightarrow> writes (if P then m else n) (if P then xs else ys)"
  by simp

lemma EncodeArg_writes: "writes (EncodeArg a) (encoded (EncodeArg a))"
proof -
  note defs = SetclientidArgs_EncodeArg_def CreateSessionArgs_EncodeArg_def SequenceArgs_EncodeArg_def
    OpenArgs_EncodeArg_def CreateArgs_EncodeArg_def ChannelAttrs_encode_def
  have "\<exists>bs. writes (EncodeArg a) bs"
    by (cases a; simp only: EncodeArg.simps EncodeArg_defs defs;
        rule exI, (rule writes_bind writes_if wire_writes)+)
  then show ?thesis by (auto simp: encoded_writes)
qed

interpretation argop: codec EncodeArg decode_arg "\<lambda>a. encoded (EncodeArg a)" arg_ok
proof
  show "writes (EncodeArg x) (encoded (EncodeArg x))" for x by (rule EncodeArg_writes)
  show "reads decode_arg x (encoded (EncodeArg x))" if "arg_ok x" for x
    using transports_arg [OF that] by (auto simp: transports_def encoded_writes)
  show "4 dvd length (encoded (EncodeArg x))" if "arg_ok x" for x
    using transports_arg [OF that] by (auto simp: transports_def encoded_writes)
qed

subsection \<open>The server writes the results\<close>

type_synonym change_info = "bool \<times> u64 \<times> u64"
type_synonym nfsace = "u32 \<times> u32 \<times> u32 \<times> string"

datatype space_limit = LimitSize u64 | LimitBlocks u32 u32

datatype delegation =
    DelegateNone
  | DelegateRead Stateid bool nfsace
  | DelegateWrite Stateid bool space_limit nfsace

text \<open>What a server sends along and the client drops.\<close>

record extras =
  ex_cinfo :: change_info
  ex_cinfo2 :: change_info
  ex_deleg :: delegation
  ex_state_protect :: u32
  ex_owner_minor :: u64
  ex_owner_major :: bytes
  ex_scope :: bytes
  ex_impl :: "(string \<times> string \<times> int \<times> u32) list"
  ex_rdma :: "u32 list"
  ex_using :: "string \<times> string"

fun encode_cinfo :: "change_info \<Rightarrow> (bytes encoder, unit) state" where
  "encode_cinfo (a, b, c) = do { Encoder_Bool a; Encoder_Uint64 b; Encoder_Uint64 c }"

fun encode_ace :: "nfsace \<Rightarrow> (bytes encoder, unit) state" where
  "encode_ace (t, f, m, who) = do { Encoder_Uint32 t; Encoder_Uint32 f; Encoder_Uint32 m; Encoder_String who }"

fun encode_limit :: "space_limit \<Rightarrow> (bytes encoder, unit) state" where
  "encode_limit (LimitSize s) = do { Encoder_Uint32 1; Encoder_Uint64 s }"
| "encode_limit (LimitBlocks n b) = do { Encoder_Uint32 2; Encoder_Uint32 n; Encoder_Uint32 b }"

fun encode_deleg :: "delegation \<Rightarrow> (bytes encoder, unit) state" where
  "encode_deleg DelegateNone = Encoder_Uint32 0"
| "encode_deleg (DelegateRead sid recall ace) = do {
     Encoder_Uint32 1; Stateid_Encode sid; Encoder_Bool recall; encode_ace ace
   }"
| "encode_deleg (DelegateWrite sid recall lim ace) = do {
     Encoder_Uint32 2; Stateid_Encode sid; Encoder_Bool recall; encode_limit lim; encode_ace ace
   }"

fun encode_impl :: "string \<times> string \<times> int \<times> u32 \<Rightarrow> (bytes encoder, unit) state" where
  "encode_impl (dm, nm, s, ns) = do {
     Encoder_String dm; Encoder_String nm; Encoder_Int64 s; Encoder_Uint32 ns
   }"

definition encode_chan :: "u32 list \<Rightarrow> ChannelAttrs \<Rightarrow> (bytes encoder, unit) state" where
  "encode_chan rdma c = do {
     Encoder_Uint32 (ca_HeaderPadSize c); Encoder_Uint32 (ca_MaxRequestSize c);
     Encoder_Uint32 (ca_MaxResponseSize c); Encoder_Uint32 (ca_MaxResponseSizeCach c);
     Encoder_Uint32 (ca_MaxOperations c); Encoder_Uint32 (ca_MaxRequests c);
     Encoder_Uint32 (word_of_nat (length rdma)); forM rdma Encoder_Uint32
   }"

definition encode_entry :: "DirEntry \<Rightarrow> (bytes encoder, unit) state" where
  "encode_entry e = do {
     Encoder_Bool True; Encoder_Uint64 (de_Cookie e); Encoder_String (de_Name e);
     Bitmap_Encode (de_AttrMask e); Encoder_Opaque (de_AttrVals e)
   }"

definition encode_entries :: "DirEntry list \<Rightarrow> (bytes encoder, unit) state" where
  "encode_entries entries = do { forM entries encode_entry; Encoder_Bool False }"

definition extras_ok :: "extras \<Rightarrow> bool" where
  "extras_ok x \<longleftrightarrow>
     (case ex_deleg x of DelegateNone \<Rightarrow> True
      | DelegateRead sid recall ace \<Rightarrow> stateid_ok sid \<and> string_ok (snd (snd (snd ace)))
      | DelegateWrite sid recall lim ace \<Rightarrow> stateid_ok sid \<and> string_ok (snd (snd (snd ace)))) \<and>
     opaque_ok (ex_owner_major x) \<and> opaque_ok (ex_scope x) \<and> length (ex_impl x) < 2 ^ 32 \<and>
     list_all (\<lambda>(dm, nm, s, ns). string_ok dm \<and> string_ok nm \<and> - (2 ^ 63) \<le> s \<and> s < 2 ^ 63) (ex_impl x) \<and>
     length (ex_rdma x) < 2 ^ 32 \<and> string_ok (fst (ex_using x)) \<and> string_ok (snd (ex_using x))"

definition entry_ok :: "DirEntry \<Rightarrow> bool" where
  "entry_ok e \<longleftrightarrow> string_ok (de_Name e) \<and> bitmap_ok (de_AttrMask e) \<and> opaque_ok (de_AttrVals e)"

text \<open>The body of a successful result, after the status \<open>NFS4_OK\<close>.\<close>

fun encode_res :: "extras \<Rightarrow> res \<Rightarrow> (bytes encoder, unit) state" where
  "encode_res x (GetfhRes st fh) = Encoder_Opaque (nilb fh)"
| "encode_res x (GetattrRes st bm vals) = do { Bitmap_Encode bm; Encoder_Opaque vals }"
| "encode_res x (SetclientidRes st cid confirm netid addr) = do {
     Encoder_Uint64 cid; Encoder_FixedOpaque confirm
   }"
| "encode_res x (ReadRes st eof data) = do { Encoder_Bool eof; Encoder_Opaque data }"
| "encode_res x (ReaddirRes st verf entries eof) = do {
     Encoder_FixedOpaque verf;
     encode_entries entries;
     Encoder_Bool eof
   }"
| "encode_res x (ReadlinkRes st link) = Encoder_String link"
| "encode_res x (OpenRes st sid rflags attrset) = do {
     Stateid_Encode sid; encode_cinfo (ex_cinfo x); Encoder_Uint32 rflags;
     Bitmap_Encode attrset; encode_deleg (ex_deleg x)
   }"
| "encode_res x (OpenConfirmRes st sid) = Stateid_Encode sid"
| "encode_res x (WriteRes st count committed verf) = do {
     Encoder_Uint32 count; Encoder_Uint32 committed; Encoder_FixedOpaque verf
   }"
| "encode_res x (CommitRes st verf) = Encoder_FixedOpaque verf"
| "encode_res x (CloseRes st sid) = Stateid_Encode sid"
| "encode_res x (CreateRes st attrset) = do { encode_cinfo (ex_cinfo x); Bitmap_Encode attrset }"
| "encode_res x (RemoveRes st) = encode_cinfo (ex_cinfo x)"
| "encode_res x (RenameRes st) = do { encode_cinfo (ex_cinfo x); encode_cinfo (ex_cinfo2 x) }"
| "encode_res x (LinkRes st) = encode_cinfo (ex_cinfo x)"
| "encode_res x (SetattrRes st attrset) = Bitmap_Encode attrset"
| "encode_res x (ExchangeIDRes st cid seq flags) = do {
     Encoder_Uint64 cid; Encoder_Uint32 seq; Encoder_Uint32 flags;
     Encoder_Uint32 (ex_state_protect x); Encoder_Uint64 (ex_owner_minor x);
     Encoder_Opaque (ex_owner_major x); Encoder_Opaque (ex_scope x);
     Encoder_Uint32 (word_of_nat (length (ex_impl x))); forM (ex_impl x) encode_impl
   }"
| "encode_res x (CreateSessionRes st sid seq flags fore back) = do {
     Encoder_FixedOpaque sid; Encoder_Uint32 seq; Encoder_Uint32 flags;
     encode_chan (ex_rdma x) fore; encode_chan (ex_rdma x) back
   }"
| "encode_res x (SequenceRes st sid seq slot highest target flags) = do {
     Encoder_FixedOpaque sid; Encoder_Uint32 seq; Encoder_Uint32 slot;
     Encoder_Uint32 highest; Encoder_Uint32 target; Encoder_Uint32 flags
   }"
| "encode_res x _ = State_Monad.return ()"

fun res_ok :: "res \<Rightarrow> bool" where
  "res_ok (GetfhRes st fh) = (fh \<noteq> None \<and> opaque_ok (nilb fh))"
| "res_ok (GetattrRes st bm vals) = (bitmap_ok bm \<and> opaque_ok vals)"
| "res_ok (SetclientidRes st cid confirm netid addr) = (length confirm = 8 \<and> netid = [] \<and> addr = [])"
| "res_ok (ReadRes st eof data) = opaque_ok data"
| "res_ok (ReaddirRes st verf entries eof) = (length verf = 8 \<and> list_all entry_ok entries)"
| "res_ok (ReadlinkRes st link) = string_ok link"
| "res_ok (OpenRes st sid rflags attrset) = (stateid_ok sid \<and> bitmap_ok attrset)"
| "res_ok (OpenConfirmRes st sid) = stateid_ok sid"
| "res_ok (WriteRes st count committed verf) = (length verf = 8)"
| "res_ok (CommitRes st verf) = (length verf = 8)"
| "res_ok (CloseRes st sid) = stateid_ok sid"
| "res_ok (CreateRes st attrset) = bitmap_ok attrset"
| "res_ok (SetattrRes st attrset) = bitmap_ok attrset"
| "res_ok (CreateSessionRes st sid seq flags fore back) = (length sid = 16)"
| "res_ok (SequenceRes st sid seq slot highest target flags) = (length sid = 16)"
| "res_ok _ = True"

text \<open>The zero value of a result struct, where every call starts.\<close>

fun res_zero :: "res \<Rightarrow> res" where
  "res_zero (StatusRes st) = StatusRes 0"
| "res_zero (GetfhRes st fh) = GetfhRes 0 None"
| "res_zero (GetattrRes st bm vals) = GetattrRes 0 [] []"
| "res_zero (SetclientidRes st cid confirm netid addr) = SetclientidRes 0 0 (zeros 8) [] []"
| "res_zero (ReadRes st eof data) = ReadRes 0 False []"
| "res_zero (ReaddirRes st verf entries eof) = ReaddirRes 0 (zeros 8) [] False"
| "res_zero (ReadlinkRes st link) = ReadlinkRes 0 []"
| "res_zero (OpenRes st sid rflags attrset) = OpenRes 0 Stateid_zero 0 []"
| "res_zero (OpenConfirmRes st sid) = OpenConfirmRes 0 Stateid_zero"
| "res_zero (WriteRes st count committed verf) = WriteRes 0 0 0 (zeros 8)"
| "res_zero (CommitRes st verf) = CommitRes 0 (zeros 8)"
| "res_zero (CloseRes st sid) = CloseRes 0 Stateid_zero"
| "res_zero (CreateRes st attrset) = CreateRes 0 []"
| "res_zero (RemoveRes st) = RemoveRes 0"
| "res_zero (RenameRes st) = RenameRes 0"
| "res_zero (LinkRes st) = LinkRes 0"
| "res_zero (SetattrRes st attrset) = SetattrRes 0 []"
| "res_zero (ExchangeIDRes st cid seq flags) = ExchangeIDRes 0 0 0 0"
| "res_zero (CreateSessionRes st sid seq flags fore back) =
     CreateSessionRes 0 (zeros 16) 0 0 ChannelAttrs_zero ChannelAttrs_zero"
| "res_zero (DestroySessionRes st) = DestroySessionRes 0"
| "res_zero (DestroyClientIDRes st) = DestroyClientIDRes 0"
| "res_zero (ReclaimCompleteRes st) = ReclaimCompleteRes 0"
| "res_zero (SequenceRes st sid seq slot highest target flags) = SequenceRes 0 (zeros 16) 0 0 0 0 0"

fun set_Status :: "Status \<Rightarrow> res \<Rightarrow> res" where
  "set_Status s (StatusRes st) = StatusRes s"
| "set_Status s (GetfhRes st fh) = GetfhRes s fh"
| "set_Status s (GetattrRes st bm vals) = GetattrRes s bm vals"
| "set_Status s (SetclientidRes st cid confirm netid addr) = SetclientidRes s cid confirm netid addr"
| "set_Status s (ReadRes st eof data) = ReadRes s eof data"
| "set_Status s (ReaddirRes st verf entries eof) = ReaddirRes s verf entries eof"
| "set_Status s (ReadlinkRes st link) = ReadlinkRes s link"
| "set_Status s (OpenRes st sid rflags attrset) = OpenRes s sid rflags attrset"
| "set_Status s (OpenConfirmRes st sid) = OpenConfirmRes s sid"
| "set_Status s (WriteRes st count committed verf) = WriteRes s count committed verf"
| "set_Status s (CommitRes st verf) = CommitRes s verf"
| "set_Status s (CloseRes st sid) = CloseRes s sid"
| "set_Status s (CreateRes st attrset) = CreateRes s attrset"
| "set_Status s (RemoveRes st) = RemoveRes s"
| "set_Status s (RenameRes st) = RenameRes s"
| "set_Status s (LinkRes st) = LinkRes s"
| "set_Status s (SetattrRes st attrset) = SetattrRes s attrset"
| "set_Status s (ExchangeIDRes st cid seq flags) = ExchangeIDRes s cid seq flags"
| "set_Status s (CreateSessionRes st sid seq flags fore back) = CreateSessionRes s sid seq flags fore back"
| "set_Status s (DestroySessionRes st) = DestroySessionRes s"
| "set_Status s (DestroyClientIDRes st) = DestroyClientIDRes s"
| "set_Status s (ReclaimCompleteRes st) = ReclaimCompleteRes s"
| "set_Status s (SequenceRes st sid seq slot highest target flags) =
     SequenceRes s sid seq slot highest target flags"

text \<open>
  The body of a failed result and what the client's struct then holds: nothing but the
  status, except that SETATTR still carries its bitmap and SETCLIENTID names the client in the
  way.
\<close>

definition encode_failure :: "extras \<Rightarrow> Status \<Rightarrow> res \<Rightarrow> (bytes encoder, unit) state" where
  "encode_failure x st r =
     (case r of
        SetattrRes s attrset \<Rightarrow> Bitmap_Encode attrset
      | SetclientidRes s cid confirm netid addr \<Rightarrow>
          if st = NFS4ERR_CLID_INUSE
          then do { Encoder_String (fst (ex_using x)); Encoder_String (snd (ex_using x)) }
          else State_Monad.return ()
      | _ \<Rightarrow> State_Monad.return ())"

definition failed_res :: "extras \<Rightarrow> Status \<Rightarrow> res \<Rightarrow> res" where
  "failed_res x st r =
     (case r of
        SetclientidRes s cid confirm netid addr \<Rightarrow>
          if st = NFS4ERR_CLID_INUSE
          then SetclientidRes st cid confirm (fst (ex_using x)) (snd (ex_using x))
          else set_Status st r
      | _ \<Rightarrow> set_Status st r)"

subsection \<open>The client reads the results\<close>

lemma transports_list:
  assumes "\<And>y. y \<in> set ys \<Longrightarrow> transports (e y) d (v y)"
  shows "transports (forM ys e) (repeatM (length ys) d) (map v ys)"
  using assms
proof (induction ys)
  case Nil
  then show ?case by (simp add: transports_return)
next
  case (Cons y ys)
  then have "transports (e y) d (v y)" and "transports (forM ys e) (repeatM (length ys) d) (map v ys)"
    by simp_all
  then show ?case
    by (simp add: transports_bind transports_last)
qed

lemma transports_cinfo: "transports (encode_cinfo ci) decodeChangeInfo ()"
  by (cases ci rule: encode_cinfo.cases)
    (auto simp: decodeChangeInfo_def intro!: transports_steps transports_ends)

lemma transports_ace: "string_ok (snd (snd (snd ace))) \<Longrightarrow> transports (encode_ace ace) decodeNfsace4 ()"
  by (cases ace rule: encode_ace.cases)
    (auto simp: decodeNfsace4_def intro!: transports_steps transports_ends)

lemma transports_limit: "transports (encode_limit lim) decodeSpaceLimit ()"
  by (cases lim) (auto simp: decodeSpaceLimit_def intro!: transports_steps transports_ends)

lemma transports_deleg: "extras_ok x \<Longrightarrow> transports (encode_deleg (ex_deleg x)) decodeDelegation ()"
  by (cases "ex_deleg x")
    (auto simp: decodeDelegation_def extras_ok_def simp del: encode_ace.simps
      intro!: transports_steps transports_ends transports_ace transports_bind [OF transports_limit])

lemma transports_impl:
  assumes "case i of (dm, nm, s, ns) \<Rightarrow> string_ok dm \<and> string_ok nm \<and> - (2 ^ 63) \<le> s \<and> s < 2 ^ 63"
  shows "transports (encode_impl i) decodeImplId ()"
  using assms
  by (cases i rule: encode_impl.cases)
    (auto simp: decodeImplId_def intro!: transports_steps transports_ends transports_bind [OF transports_Int64])

lemma transports_chan:
  assumes "length rdma < 2 ^ 32"
  shows "transports (encode_chan rdma c) decodeChannelAttrs c"
proof -
  have "transports (forM rdma Encoder_Uint32) (repeatM (length rdma) Decoder_Uint32) (map (\<lambda>v. v) rdma)"
    by (rule transports_list) (rule transports_Uint32)
  then have l: "transports (forM rdma Encoder_Uint32)
      (repeatM (unat (word_of_nat (length rdma) :: u32)) Decoder_Uint32) rdma"
    using assms by (simp add: unat_word_of_nat_u32)
  show ?thesis
    unfolding encode_chan_def decodeChannelAttrs_def
    by (intro transports_bind [OF transports_Uint32] transports_last [OF l], cases c, simp)
qed

lemma transports_entries:
  assumes "list_all entry_ok entries"
  shows "transports (encode_entries entries) (State (ReaddirRes_loop es)) (es @ entries, False)"
  using assms unfolding encode_entries_def
proof (induction entries arbitrary: es)
  case Nil
  have "writes (do { State_Monad.return (); Encoder_Bool False }) ([] @ wire_bool False)"
    by (intro writes_bind wire_writes)
  moreover have "reads (State (ReaddirRes_loop es)) (es, False) (wire_bool False)"
    by (simp add: reads_def readsD [OF reads_Bool] ReaddirRes_loop.simps)
  ultimately show ?case
    using aligned_wire_bool by (auto intro!: transportsI)
next
  case (Cons e entries)
  then have "transports (do { forM entries encode_entry; Encoder_Bool False })
      (State (ReaddirRes_loop (es @ [e]))) ((es @ [e]) @ entries, False)"
    by (intro Cons.IH) simp
  then obtain bs where bs: "writes (do { forM entries encode_entry; Encoder_Bool False }) bs"
      "reads (State (ReaddirRes_loop (es @ [e]))) (es @ e # entries, False) bs" "4 dvd length bs"
    by (auto simp: transports_def)
  have "entry_ok e" using Cons.prems by simp
  then have te: "transports (do { Encoder_Uint64 (de_Cookie e); Encoder_String (de_Name e);
      Bitmap_Encode (de_AttrMask e); Encoder_Opaque (de_AttrVals e) }) decodeDirEntry e"
    unfolding decodeDirEntry_def
    by (cases e) (auto simp: entry_ok_def intro!: transports_steps transports_ends)
  then obtain ws where ws: "writes (do { Encoder_Uint64 (de_Cookie e); Encoder_String (de_Name e);
      Bitmap_Encode (de_AttrMask e); Encoder_Opaque (de_AttrVals e) }) ws"
      "reads decodeDirEntry e ws" "4 dvd length ws"
    by (auto simp: transports_def)
  have "writes (do { encode_entry e; do { forM entries encode_entry; Encoder_Bool False } })
      ((wire_bool True @ ws) @ bs)"
    unfolding encode_entry_def [of e] by (intro writes_bind writes_Bool ws bs)
  moreover have "reads (State (ReaddirRes_loop es)) (es @ e # entries, False) (wire_bool True @ ws @ bs)"
    using bs(2) by (simp add: reads_def [of "State _"] ReaddirRes_loop.simps [of es]
        readsD [OF reads_Bool] readsD [OF ws(2)])
  ultimately show ?case
    using bs(3) ws(3) aligned_wire_bool
    by (auto simp: bind_assoc intro!: transportsI [where bs = "wire_bool True @ ws @ bs"])
qed

lemmas transports_parts =
  transports_bind [OF transports_cinfo] transports_last [OF transports_cinfo]
  transports_last [OF transports_deleg] transports_last [OF transports_chan]
  transports_bind [OF transports_chan]

lemma DecodeRes_set_Status: "DecodeRes (set_Status s r) = DecodeRes r"
  by (cases r) simp_all

text \<open>A successful result arrives as the server meant it, in a struct whose status is stale at most.\<close>

lemma transports_res:
  assumes "extras_ok x" and "res_ok r" and "res_Status r = NFS4_OK"
  shows "transports (do { Encoder_Uint32 NFS4_OK; encode_res x r }) (DecodeRes (set_Status s (res_zero r))) r"
proof -
  have impl: "transports (forM (ex_impl x) encode_impl)
      (repeatM (unat (word_of_nat (length (ex_impl x)) :: u32)) decodeImplId) (map (\<lambda>_. ()) (ex_impl x))"
    using assms(1) transports_list [of "ex_impl x" encode_impl decodeImplId "\<lambda>_. ()"] transports_impl
    by (auto simp: extras_ok_def list_all_iff unat_word_of_nat_u32)
  have rdma: "length (ex_rdma x) < 2 ^ 32" using assms(1) by (simp add: extras_ok_def)
  have own: "opaque_ok (ex_owner_major x)" "opaque_ok (ex_scope x)"
    using assms(1) by (simp_all add: extras_ok_def)
  note rules = transports_steps transports_ends transports_parts transports_return
    transports_last [OF impl] assms(1)
  show ?thesis
  proof (cases r)
    case (GetfhRes st fh)
    then show ?thesis using assms(2,3) by (cases fh) (auto intro!: rules)
  next
    case (ReaddirRes st verf entries eof)
    then have t: "transports (encode_entries entries)
        (State (ReaddirRes_loop [])) ([] @ entries, False)"
      using assms(2) by (intro transports_entries) simp
    show ?thesis
      unfolding DecodeRes_set_Status using ReaddirRes assms(2,3)
      by (auto intro!: rules transports_bind [OF t])
  next
    case (CreateSessionRes st sid seq flags fore bk)
    then show ?thesis using assms(2,3) rdma by (auto intro!: rules)
  next
    case (ExchangeIDRes st cid seq flags)
    then show ?thesis using assms(2,3) own by (auto intro!: rules)
  qed (insert assms(2,3), auto intro!: rules)
qed

lemma transports_failure:
  assumes "extras_ok x" and "st \<noteq> NFS4_OK" and "\<And>s b. r = SetattrRes s b \<Longrightarrow> bitmap_ok b"
  shows "transports (do { Encoder_Uint32 st; encode_failure x st r }) (DecodeRes r) (failed_res x st r)"
  using assms
  by (cases r)
    (auto simp: encode_failure_def failed_res_def extras_ok_def
      intro!: transports_steps transports_ends transports_return)

end
