(* ===== verification/Rpc_Client.thy ===== *)
theory Rpc_Client
  imports Rpc_Message
begin

text \<open>
  The synchronous RPC client of \<open>src/rpc/client.go\<close>. The connection (an
  \<open>io.ReadWriteCloser\<close>) is a record: the incoming stream, the state of the peer, whether it was
  closed, and the error that closing it reports. What a write does to them (the network and the server answering) is the
  parameter \<open>peer\<close>; on a closed connection reads and writes fail without reaching it.

  \<open>Call\<close> runs the round trip in a goroutine and waits for it or for \<open>ctx.Done()\<close>. The
  context is a record of two functions of the connection: \<open>rctx_Err\<close> is \<open>ctx.Err()\<close> at the
  start of the call, and \<open>rctx_Done\<close> decides the \<open>select\<close>: \<open>None\<close> when the round trip
  finishes first, \<open>Some (e, c)\<close> when the cancellation wins with error \<open>e\<close>, the goroutine
  having brought the connection to \<open>c\<close>. The mutex serialises calls, so a call is one step.
\<close>

subsection \<open>State\<close>

record 's netconn =
  nc_in :: reader
  nc_srv :: 's
  nc_closed :: bool
  nc_closeErr :: "goerror option"

type_synonym 's peer = "'s netconn writer"

record 's rctx =
  rctx_Err :: "'s netconn \<Rightarrow> goerror option"
  rctx_Done :: "'s netconn \<Rightarrow> (goerror \<times> 's netconn) option"

definition errNetClosed :: goerror where
  "errNetClosed = ExtError 0 []"

definition netconn_Write :: "'s peer \<Rightarrow> 's netconn writer" where
  "netconn_Write peer p c = (if nc_closed c then (Some errNetClosed, c) else peer p c)"

definition netconn_reader :: "'s netconn \<Rightarrow> reader" where
  "netconn_reader c =
     (if nc_closed c then \<lparr>rd_chunks = [], rd_end = errNetClosed\<rparr> else nc_in c)"

definition netconn_set_reader :: "reader \<Rightarrow> 's netconn \<Rightarrow> 's netconn" where
  "netconn_set_reader r c = (if nc_closed c then c else c\<lparr>nc_in := r\<rparr>)"

text \<open>\<open>conn.Close()\<close>: the connection is closed whatever error is reported; closing it again is an error.\<close>

definition netconn_Close :: "'s netconn \<Rightarrow> goerror option \<times> 's netconn" where
  "netconn_Close c = (if nc_closed c then Some errNetClosed else nc_closeErr c, c\<lparr>nc_closed := True\<rparr>)"

lemma netconn_Close_closes [simp]: "snd (netconn_Close c) = c\<lparr>nc_closed := True\<rparr>"
  by (simp add: netconn_Close_def)

record ClientOptions =
  co_Cred :: OpaqueAuth
  co_Verf :: OpaqueAuth

record 's client =
  cl_conn :: "'s netconn"
  cl_opts :: ClientOptions
  cl_nextID :: u32

text \<open>\<open>NewClient\<close>, with the value of \<open>rand.Uint32()\<close> as the last argument.\<close>

definition NewClient :: "'s netconn \<Rightarrow> ClientOptions \<Rightarrow> u32 \<Rightarrow> 's client" where
  "NewClient conn opts rnd = \<lparr>cl_conn = conn, cl_opts = opts, cl_nextID = rnd\<rparr>"

text \<open>
  What \<open>Dial\<close> and \<open>SetDeadline\<close> use of the package \<open>net\<close>: dialling with a context \<open>'c\<close> in a world
  \<open>'w\<close>, and the two optional methods of a connection, absent (\<open>None\<close>) when its type does not have
  them. Their errors are dropped by the code.
\<close>

record ('c, 'w, 's) netpkg =
  np_DialContext :: "'c \<Rightarrow> string \<Rightarrow> string \<Rightarrow> 'w \<Rightarrow> (goerror + 's netconn) \<times> 'w"
  np_SetNoDelay :: "'s netconn \<Rightarrow> (bool \<Rightarrow> goerror option \<times> 's netconn) option"
  np_SetDeadline :: "'s netconn \<Rightarrow> (int \<Rightarrow> goerror option \<times> 's netconn) option"

definition rpc_Dial :: "('c, 'w, 's) netpkg \<Rightarrow> 'c \<Rightarrow> string \<Rightarrow> ClientOptions \<Rightarrow> u32 \<Rightarrow> 'w \<Rightarrow>
    (goerror + 's client) \<times> 'w" where
  "rpc_Dial np ctx address opts rnd w =
     (case np_DialContext np ctx ''tcp'' address w of
        (Inl err, w) \<Rightarrow> (Inl (WrapF ''rpc: dialing %s: %w'' [FStr address] err), w)
      | (Inr conn, w) \<Rightarrow>
          (let conn = (case np_SetNoDelay np conn of
                         None \<Rightarrow> conn
                       | Some SetNoDelay \<Rightarrow> snd (SetNoDelay True))
           in (Inr (NewClient conn opts rnd), w)))"

definition Client_SetDeadline :: "('c, 'w, 's) netpkg \<Rightarrow> int \<Rightarrow> 's client \<Rightarrow> 's client" where
  "Client_SetDeadline np t c =
     (case np_SetDeadline np (cl_conn c) of
        None \<Rightarrow> c
      | Some SetDeadline \<Rightarrow> c\<lparr>cl_conn := snd (SetDeadline t)\<rparr>)"

definition Client_Close :: "'s client \<Rightarrow> goerror option \<times> 's client" where
  "Client_Close c = (case netconn_Close (cl_conn c) of (err, conn) \<Rightarrow> (err, c\<lparr>cl_conn := conn\<rparr>))"

definition allocXID :: "'s client \<Rightarrow> u32 \<times> 's client" where
  "allocXID c =
     (let c = c\<lparr>cl_nextID := cl_nextID c + 1\<rparr>;
          c = (if cl_nextID c = 0 then c\<lparr>cl_nextID := 1\<rparr> else c)
      in (cl_nextID c, c))"

subsection \<open>Call\<close>

text \<open>The closure \<open>decodeRes\<close> returns the value it leaves in the caller's variables.\<close>

definition decodeReply ::
  "u32 \<Rightarrow> bytes \<Rightarrow> (decoder, 'a) state option \<Rightarrow> goerror option \<times> 'a option" where
  "decodeReply xid reply decodeRes =
     (case run_state DecodeReplyHeader (bdec reply) of
        (Inl err, d) \<Rightarrow> (Some (WrapF ''rpc: decoding reply header: %w'' [] err), None)
      | (Inr hdr, d) \<Rightarrow>
          if rh_XID hdr \<noteq> xid
          then (Some (ErrorF ''rpc: reply xid %#x does not match request xid %#x''
                        [FInt (unat (rh_XID hdr)), FInt (unat xid)]), None)
          else (case ReplyHeader_Error hdr of
                  Some err \<Rightarrow> (Some err, None)
                | None \<Rightarrow>
                    (case decodeRes of
                       None \<Rightarrow> (None, None)
                     | Some dr \<Rightarrow>
                         (case run_state dr d of
                            (v, d') \<Rightarrow>
                              (case dec_err d' of
                                 Some err \<Rightarrow> (Some (WrapF ''rpc: decoding result: %w'' [] err), Some v)
                               | None \<Rightarrow> (None, Some v))))))"

text \<open>The body of the goroutine: write the request, read the reply.\<close>

definition roundTrip :: "'s peer \<Rightarrow> bytes \<Rightarrow> 's netconn \<Rightarrow> (goerror + bytes) \<times> 's netconn" where
  "roundTrip peer req c =
     (case WriteRecord (netconn_Write peer) req c of
        (Some err, c1) \<Rightarrow> (Inl (WrapF ''rpc: writing request: %w'' [] err), c1)
      | (None, c1) \<Rightarrow>
          (case ReadRecord (netconn_reader c1) of
             (Inl err, r) \<Rightarrow>
               (Inl (WrapF ''rpc: reading reply: %w'' [] err), netconn_set_reader r c1)
           | (Inr reply, r) \<Rightarrow> (Inr reply, netconn_set_reader r c1)))"

definition call_request ::
  "'s client \<Rightarrow> u32 \<Rightarrow> u32 \<Rightarrow> u32 \<Rightarrow> u32 \<Rightarrow> (bytes encoder, unit) state option \<Rightarrow> bytes encoder" where
  "call_request c xid prog vers proc encodeArgs =
     snd (run_state
       (do {
          CallHeader_Encode \<lparr>ch_XID = xid, ch_Prog = prog, ch_Vers = vers, ch_Proc = proc,
            ch_Cred = co_Cred (cl_opts c), ch_Verf = co_Verf (cl_opts c)\<rparr>;
          (case encodeArgs of None \<Rightarrow> State_Monad.return () | Some ea \<Rightarrow> ea)
        }) (benc []))"

definition Call ::
  "'s peer \<Rightarrow> 's rctx \<Rightarrow> u32 \<Rightarrow> u32 \<Rightarrow> u32 \<Rightarrow> (bytes encoder, unit) state option \<Rightarrow>
   (decoder, 'a) state option \<Rightarrow> 's client \<Rightarrow> (goerror option \<times> 'a option) \<times> 's client" where
  "Call peer ctx prog vers proc encodeArgs decodeRes c =
     (case rctx_Err ctx (cl_conn c) of
        Some err \<Rightarrow> ((Some err, None), c)
      | None \<Rightarrow>
          (let (xid, c) = allocXID c;
               enc = call_request c xid prog vers proc encodeArgs
           in case Encoder_Err enc of
                Some err \<Rightarrow> ((Some (WrapF ''rpc: encoding request: %w'' [] err), None), c)
              | None \<Rightarrow>
                  (case rctx_Done ctx (cl_conn c) of
                     Some (err, conn) \<Rightarrow>
                       ((Some err, None), c\<lparr>cl_conn := snd (netconn_Close conn)\<rparr>)
                   | None \<Rightarrow>
                       (case roundTrip peer (enc_w enc) (cl_conn c) of
                          (Inl err, conn) \<Rightarrow> ((Some err, None), c\<lparr>cl_conn := conn\<rparr>)
                        | (Inr reply, conn) \<Rightarrow>
                            (decodeReply xid reply decodeRes, c\<lparr>cl_conn := conn\<rparr>)))))"

subsection \<open>Transaction ids\<close>

definition client_after :: "nat \<Rightarrow> 's client \<Rightarrow> 's client" where
  "client_after k c = ((\<lambda>c. snd (allocXID c)) ^^ k) c"

text \<open>The transaction id of the \<open>k\<close>-th call made from \<open>c\<close>, counting from 0.\<close>

definition nth_xid :: "nat \<Rightarrow> 's client \<Rightarrow> u32" where
  "nth_xid k c = fst (allocXID (client_after k c))"

definition xid_next :: "u32 \<Rightarrow> u32" where
  "xid_next x = (if x + 1 = 0 then 1 else x + 1)"

lemma allocXID_eq: "allocXID c = (xid_next (cl_nextID c), c\<lparr>cl_nextID := xid_next (cl_nextID c)\<rparr>)"
  by (simp add: allocXID_def xid_next_def Let_def)

lemma xid_next_nonzero: "xid_next x \<noteq> 0"
  by (simp add: xid_next_def)

lemma nextID_client_after: "cl_nextID (client_after k c) = (xid_next ^^ k) (cl_nextID c)"
  by (induction k) (simp_all add: client_after_def allocXID_eq)

lemma nth_xid_eq: "nth_xid k c = (xid_next ^^ k) (xid_next (cl_nextID c))"
  by (simp add: nth_xid_def allocXID_eq nextID_client_after funpow_swap1)

lemma unat_xid_next:
  assumes "x \<noteq> 0"
  shows "unat (xid_next x) = unat x mod (2 ^ 32 - 1) + 1"
proof (cases "x + 1 = 0")
  case True
  then have "x = - 1" by (simp add: eq_neg_iff_add_eq_0)
  then show ?thesis
    by (simp add: xid_next_def unsigned_minus_1_eq_mask mask_eq_exp_minus_1)
next
  case False
  then have "unat (x + 1) = unat x + 1" by (simp add: unatSuc add.commute)
  moreover from this have "unat x + 1 < 2 ^ 32" using unat_u32_less [of "x + 1"] by simp
  ultimately show ?thesis using False by (simp add: xid_next_def)
qed

lemma unat_xid_iterate:
  assumes "x \<noteq> 0"
  shows "(xid_next ^^ k) x \<noteq> 0 \<and>
         unat ((xid_next ^^ k) x) = (unat x - 1 + k) mod (2 ^ 32 - 1) + 1"
proof (induction k)
  case 0
  have "unat x < 2 ^ 32" using unat_u32_less [of x] by simp
  moreover have "0 < unat x" using assms by (simp add: unat_gt_0)
  ultimately show ?case using assms by simp
next
  case (Suc k)
  then have "unat ((xid_next ^^ Suc k) x) =
      ((unat x - 1 + k) mod (2 ^ 32 - 1) + 1) mod (2 ^ 32 - 1) + 1"
    by (simp add: unat_xid_next)
  also have "\<dots> = (unat x - 1 + Suc k) mod (2 ^ 32 - 1) + 1"
    by (simp only: mod_add_left_eq) (simp add: add.commute)
  finally show ?case by (simp add: xid_next_nonzero)
qed

lemma nth_xid_distinct:
  assumes "i < j" and "j < i + (2 ^ 32 - 1)"
  shows "nth_xid i c \<noteq> nth_xid j c"
proof
  assume eq: "nth_xid i c = nth_xid j c"
  define m :: nat where "m = 2 ^ 32 - 1"
  define a where "a = unat (xid_next (cl_nextID c)) - 1"
  have "(a + i) mod m = (a + j) mod m"
    using eq unat_xid_iterate [OF xid_next_nonzero [of "cl_nextID c"], of i]
      unat_xid_iterate [OF xid_next_nonzero [of "cl_nextID c"], of j]
    by (simp add: nth_xid_eq a_def m_def)
  then have "m dvd (a + j) - (a + i)"
    using assms(1) mod_eq_dvd_iff_nat [of "a + i" "a + j" m] by simp
  moreover have "0 < j - i" and "j - i < m" using assms by (simp_all add: m_def)
  ultimately show False by (simp add: nat_dvd_not_less)
qed

subsection \<open>Lemmas on calls\<close>

lemma call_request_ok:
  assumes "writes ea args"
  shows "call_request c xid prog vers proc (Some ea) =
     benc (wire_call \<lparr>ch_XID = xid, ch_Prog = prog, ch_Vers = vers, ch_Proc = proc,
             ch_Cred = co_Cred (cl_opts c), ch_Verf = co_Verf (cl_opts c)\<rparr> @ args)"
  using writesD [OF writes_bind [OF writes_CallHeader assms], of _ "[]"]
  by (simp add: call_request_def)

lemma Encoder_Err_benc [simp]: "Encoder_Err (benc b) = None" "enc_w (benc b) = b"
  by (simp_all add: Encoder_Err_def NewEncoder_def)

lemma decodeReply_success:
  assumes "auth_ok verf" and "reads dr v res"
  shows "decodeReply xid (wire_reply xid (Accepted verf AcceptSuccess) @ res) (Some dr) =
           (None, Some v)"
  using readsD [OF reads_ReplyHeader, of "Accepted verf 0" xid res] readsD0 [OF assms(2)] assms(1)
  by (simp add: decodeReply_def ReplyHeader_Error_def ReplyHeader_zero_def)

lemma decodeReply_None:
  assumes "decodeReply xid reply (Some dr) = (None, v)"
  shows "\<exists>hdr d x d'. run_state DecodeReplyHeader (bdec reply) = (Inr hdr, d) \<and> rh_XID hdr = xid \<and>
           rh_Stat hdr = MsgAccepted \<and> rh_AcceptStat hdr = AcceptSuccess \<and>
           run_state dr d = (x, d') \<and> dec_err d' = None \<and> v = Some x"
  using assms
  by (auto simp: decodeReply_def ReplyHeader_Error_None split: sum.splits prod.splits if_splits
      option.splits)

lemma WriteRecord_closed:
  assumes "nc_closed c"
  shows "fst (WriteRecord (netconn_Write peer) p c) \<noteq> None \<and>
         snd (WriteRecord (netconn_Write peer) p c) = c"
  using assms by (auto simp: WriteRecord_def netconn_Write_def)

lemma roundTrip_closed:
  assumes "nc_closed c"
  shows "\<exists>e. roundTrip peer req c = (Inl e, c)"
proof -
  obtain err c1 where w: "WriteRecord (netconn_Write peer) req c = (err, c1)" by (metis prod.exhaust)
  with WriteRecord_closed [OF assms, of peer req] show ?thesis by (auto simp: roundTrip_def)
qed

lemma Call_closed:
  assumes "nc_closed (cl_conn c)"
  shows "fst (fst (Call peer ctx prog vers proc ea dr c)) \<noteq> None \<and>
         nc_closed (cl_conn (snd (Call peer ctx prog vers proc ea dr c)))"
proof -
  obtain xid c1 where al: "allocXID c = (xid, c1)" by (metis prod.exhaust)
  then have c1: "cl_conn c1 = cl_conn c" by (auto simp: allocXID_eq)
  define enc where "enc = call_request c1 xid prog vers proc ea"
  obtain e where rt: "roundTrip peer (enc_w enc) (cl_conn c) = (Inl e, cl_conn c)"
    using roundTrip_closed [OF assms] by blast
  show ?thesis
    unfolding Call_def al Let_def case_prod_conv enc_def [symmetric]
    using assms c1 rt by (simp split: option.splits prod.splits)
qed

lemma Call_replied:
  assumes ctx: "rctx_Err ctx (cl_conn c) = None" "rctx_Done ctx (cl_conn c) = None"
    and args: "writes ea args"
    and req: "req = wire_call \<lparr>ch_XID = nth_xid 0 c, ch_Prog = prog, ch_Vers = vers, ch_Proc = proc,
                ch_Cred = co_Cred (cl_opts c), ch_Verf = co_Verf (cl_opts c)\<rparr> @ args"
    and wr: "WriteRecord (netconn_Write peer) req (cl_conn c) = (None, k)" "\<not> nc_closed k"
    and rd: "ReadRecord (nc_in k) = (Inr (wire_reply (nth_xid 0 c) (Accepted verf AcceptSuccess) @ res), r)"
    and dr: "auth_ok verf" "reads dr v res"
  shows "Call peer ctx prog vers proc (Some ea) (Some dr) c =
           ((None, Some v), c\<lparr>cl_nextID := nth_xid 0 c, cl_conn := k\<lparr>nc_in := r\<rparr>\<rparr>)"
proof -
  obtain xid c1 where al: "allocXID c = (xid, c1)" by (metis prod.exhaust)
  then have xid: "xid = nth_xid 0 c" and c1: "c1 = c\<lparr>cl_nextID := xid\<rparr>"
    by (auto simp: allocXID_eq nth_xid_def client_after_def)
  define reply where "reply = wire_reply xid (Accepted verf AcceptSuccess) @ res"
  have enc: "call_request c1 xid prog vers proc (Some ea) = benc req"
    using call_request_ok [OF args, of c1 xid prog vers proc] by (simp add: c1 req xid)
  have rt: "roundTrip peer req (cl_conn c) = (Inr reply, k\<lparr>nc_in := r\<rparr>)"
    using wr rd by (simp add: roundTrip_def netconn_reader_def netconn_set_reader_def reply_def xid)
  have "decodeReply xid reply (Some dr) = (None, Some v)"
    unfolding reply_def using dr by (rule decodeReply_success)
  moreover have "cl_conn c1 = cl_conn c" by (simp add: c1)
  ultimately show ?thesis
    using ctx rt by (simp add: Call_def al enc Let_def) (simp add: c1 xid)
qed

lemma Call_success:
  assumes ctx: "rctx_Err ctx (cl_conn c) = None" "rctx_Done ctx (cl_conn c) = None"
    and args: "writes ea args"
    and req: "req = wire_call \<lparr>ch_XID = nth_xid 0 c, ch_Prog = prog, ch_Vers = vers, ch_Proc = proc,
                ch_Cred = co_Cred (cl_opts c), ch_Verf = co_Verf (cl_opts c)\<rparr> @ args"
    and wr: "WriteRecord (netconn_Write peer) req (cl_conn c) = (None, k)" "\<not> nc_closed k"
    and inp: "rd_bytes (nc_in k) =
       fragment True (wire_reply (nth_xid 0 c) (Accepted verf AcceptSuccess) @ res) @ rest"
    and len: "length (wire_reply (nth_xid 0 c) (Accepted verf AcceptSuccess) @ res) \<le> maxFragmentSize"
    and dr: "auth_ok verf" "reads dr v res"
  shows "\<exists>c'. Call peer ctx prog vers proc (Some ea) (Some dr) c = ((None, Some v), c') \<and>
           rd_bytes (nc_in (cl_conn c')) = rest \<and> cl_nextID c' = nth_xid 0 c"
proof -
  define reply where "reply = wire_reply (nth_xid 0 c) (Accepted verf AcceptSuccess) @ res"
  have "length reply \<le> maxMessageSize"
    using len by (simp add: reply_def maxFragmentSize_def maxMessageSize_def)
  then obtain r where r: "ReadRecord (nc_in k) = (Inr reply, r)" "rd_bytes r = rest"
    using ReadRecord_loop_fragment [of "nc_in k" True reply rest "[]"] inp len
    by (auto simp: ReadRecord_def reply_def)
  from Call_replied [OF ctx args req wr r(1) [unfolded reply_def] dr] r(2) show ?thesis by simp
qed

text \<open>
  \<open>Call\<close> takes the next record for its reply. A reply to an earlier call that is still on the way (after a read that
  failed on a deadline, say) is refused, but the connection stays open with the own reply unread:
  the next call meets that one, and is refused as well.
\<close>

lemma Call_stale_reply:
  assumes ctx: "rctx_Err ctx (cl_conn c) = None" "rctx_Done ctx (cl_conn c) = None" and args: "writes ea args"
    and req: "req = wire_call \<lparr>ch_XID = nth_xid 0 c, ch_Prog = prog, ch_Vers = vers, ch_Proc = proc,
                ch_Cred = co_Cred (cl_opts c), ch_Verf = co_Verf (cl_opts c)\<rparr> @ args"
    and wr: "WriteRecord (netconn_Write peer) req (cl_conn c) = (None, k)" "\<not> nc_closed k"
    and inp: "rd_bytes (nc_in k) = fragment True (wire_reply x rep @ res) @ rest"
    and len: "length (wire_reply x rep @ res) \<le> maxFragmentSize" and stale: "reply_ok rep" "x \<noteq> nth_xid 0 c"
  shows "\<exists>c'. Call peer ctx prog vers proc (Some ea) dr c =
      ((Some (ErrorF ''rpc: reply xid %#x does not match request xid %#x'' [FInt (unat x), FInt (unat (nth_xid 0 c))]), None), c') \<and>
    \<not> nc_closed (cl_conn c') \<and> rd_bytes (nc_in (cl_conn c')) = rest"
proof -
  obtain xid c1 where al: "allocXID c = (xid, c1)" by (metis prod.exhaust)
  then have xid: "xid = nth_xid 0 c" and c1: "cl_conn c1 = cl_conn c" "cl_opts c1 = cl_opts c"
    by (auto simp: allocXID_eq nth_xid_def client_after_def)
  have "length (wire_reply x rep @ res) \<le> maxMessageSize" using len by (simp add: maxFragmentSize_def maxMessageSize_def)
  then obtain r where r: "ReadRecord (nc_in k) = (Inr (wire_reply x rep @ res), r)" "rd_bytes r = rest"
    using ReadRecord_loop_fragment [of "nc_in k" True "wire_reply x rep @ res" rest "[]"] inp len by (auto simp: ReadRecord_def)
  have rt: "roundTrip peer req (cl_conn c) = (Inr (wire_reply x rep @ res), k\<lparr>nc_in := r\<rparr>)"
    using wr r(1) by (simp add: roundTrip_def netconn_reader_def netconn_set_reader_def)
  have enc: "call_request c1 xid prog vers proc (Some ea) = benc req"
    using call_request_ok [OF args, of c1 xid prog vers proc] c1 by (simp add: req xid)
  have "rh_XID (reply_header x rep) = x" by (cases rep) (simp_all add: ReplyHeader_zero_def)
  then have "decodeReply xid (wire_reply x rep @ res) dr =
      (Some (ErrorF ''rpc: reply xid %#x does not match request xid %#x'' [FInt (unat x), FInt (unat xid)]), None)"
    using readsD [OF reads_ReplyHeader [OF stale(1)], of x res] stale(2) xid by (simp add: decodeReply_def)
  then show ?thesis
    unfolding xid [symmetric] using ctx rt r(2) wr(2) c1(1) by (simp add: Call_def al enc Let_def)
qed

text \<open>A small closed instance: a server whose reply is already in the stream.\<close>

definition demo_client :: "unit client" where
  "demo_client = NewClient
     \<lparr>nc_in = bytes_reader (fragment True (wire_reply 8 (Accepted AuthNull 0) @ BigEndian_PutUint32 42)),
      nc_srv = (), nc_closed = False, nc_closeErr = None\<rparr> \<lparr>co_Cred = AuthNull, co_Verf = AuthNull\<rparr> 7"

definition demo_ctx :: "unit rctx" where
  "demo_ctx = \<lparr>rctx_Err = (\<lambda>_. None), rctx_Done = (\<lambda>_. None)\<rparr>"

abbreviation (input) demo_req :: bytes where
  "demo_req \<equiv> wire_call \<lparr>ch_XID = nth_xid 0 demo_client, ch_Prog = 100003, ch_Vers = 4, ch_Proc = 1,
     ch_Cred = co_Cred (cl_opts demo_client), ch_Verf = co_Verf (cl_opts demo_client)\<rparr> @ BigEndian_PutUint32 9"

abbreviation (input) demo_reply :: bytes where
  "demo_reply \<equiv>
     wire_reply (nth_xid 0 demo_client) (Accepted AuthNull 0) @ BigEndian_PutUint32 42"

lemma demo_xid: "nth_xid 0 demo_client = 8"
  by (simp add: nth_xid_def client_after_def allocXID_eq demo_client_def NewClient_def xid_next_def)

lemma demo_facts:
  "rctx_Err demo_ctx (cl_conn demo_client) = None"
  "rctx_Done demo_ctx (cl_conn demo_client) = None"
  "WriteRecord (netconn_Write (\<lambda>p c. (None, c))) demo_req (cl_conn demo_client) =
     (None, cl_conn demo_client)"
  "\<not> nc_closed (cl_conn demo_client)"
  "rd_bytes (nc_in (cl_conn demo_client)) = fragment True demo_reply @ []"
  "length demo_reply \<le> maxFragmentSize"
  "auth_ok AuthNull"
proof -
  show "rd_bytes (nc_in (cl_conn demo_client)) = fragment True demo_reply @ []"
    unfolding demo_xid by (simp add: demo_client_def NewClient_def)
qed (simp_all add: demo_ctx_def WriteRecord_def netconn_Write_def demo_client_def NewClient_def
    AuthNull_def wire_call_def wire_auth_def wire_opaque_def wire_fixed_def fragmentSizeMask_def
    maxFragmentSize_def auth_ok_def opaque_ok_def)

lemma demo_call:
  "\<exists>c'. Call (\<lambda>p c. (None, c)) demo_ctx 100003 4 1 (Some (Encoder_Uint32 9)) (Some Decoder_Uint32)
          demo_client = ((None, Some 42), c')"
  using Call_success [OF demo_facts(1,2) writes_Uint32 refl demo_facts(3-7) reads_Uint32] by blast

subsection \<open>Properties\<close>

text \<open>A call whose request reaches the server and whose reply is an accepted SUCCESS with the
  request's xid returns no error and the value its result decoder reads from the result body; the
  stream is left right after the reply. The request on the wire is the RFC 5531 call header with a
  fresh xid followed by the encoded arguments.\<close>

theorem Call_returns_result:
  assumes "rctx_Err ctx (cl_conn c) = None" and "rctx_Done ctx (cl_conn c) = None"
    and "writes ea args"
    and "req = wire_call \<lparr>ch_XID = nth_xid 0 c, ch_Prog = prog, ch_Vers = vers, ch_Proc = proc,
                ch_Cred = co_Cred (cl_opts c), ch_Verf = co_Verf (cl_opts c)\<rparr> @ args"
    and "WriteRecord (netconn_Write peer) req (cl_conn c) = (None, k)" and "\<not> nc_closed k"
    and "rd_bytes (nc_in k) =
       fragment True (wire_reply (nth_xid 0 c) (Accepted verf AcceptSuccess) @ res) @ rest"
    and "length (wire_reply (nth_xid 0 c) (Accepted verf AcceptSuccess) @ res) \<le> maxFragmentSize"
    and "auth_ok verf" and "reads dr v res"
  shows "\<exists>c'. Call peer ctx prog vers proc (Some ea) (Some dr) c = ((None, Some v), c') \<and>
           rd_bytes (nc_in (cl_conn c')) = rest \<and> cl_nextID c' = nth_xid 0 c"
  using Call_success [OF assms] .

theorem Call_returns_result_witness:
  "\<exists>c'. Call (\<lambda>p c. (None, c)) demo_ctx 100003 4 1 (Some (Encoder_Uint32 9)) (Some Decoder_Uint32)
          demo_client = ((None, Some 42), c')"
  using Call_returns_result [OF demo_facts(1,2) writes_Uint32 refl demo_facts(3-7) reads_Uint32]
  by blast

text \<open>C20: Whatever the peer sends, a call with a result decoder that returns no error has read a
  complete record from the connection after writing its request, and that record is a reply with
  the request's own xid, accepted with status SUCCESS, on whose body the result decoder ran without
  a decoding error.\<close>

theorem Call_no_error_means_accepted:
  assumes "Call peer ctx prog vers proc ea (Some dr) c = ((None, v), c')"
  shows "\<exists>req k reply r hdr d x d'.
           WriteRecord (netconn_Write peer) req (cl_conn c) = (None, k) \<and>
           ReadRecord (netconn_reader k) = (Inr reply, r) \<and>
           run_state DecodeReplyHeader (bdec reply) = (Inr hdr, d) \<and>
           rh_XID hdr = nth_xid 0 c \<and> rh_Stat hdr = MsgAccepted \<and>
           rh_AcceptStat hdr = AcceptSuccess \<and>
           run_state dr d = (x, d') \<and> dec_err d' = None \<and> v = Some x"
proof -
  obtain xid c1 where al: "allocXID c = (xid, c1)" by (metis prod.exhaust)
  then have xid: "xid = nth_xid 0 c" and c1: "cl_conn c1 = cl_conn c"
    by (auto simp: allocXID_eq nth_xid_def client_after_def)
  define enc where "enc = call_request c1 xid prog vers proc ea"
  obtain reply k' where rt: "roundTrip peer (enc_w enc) (cl_conn c) = (Inr reply, k')"
    and dr: "decodeReply xid reply (Some dr) = (None, v)"
    using assms c1 unfolding Call_def al Let_def case_prod_conv enc_def [symmetric]
    by (auto split: option.splits prod.splits sum.splits)
  from rt obtain k r where "WriteRecord (netconn_Write peer) (enc_w enc) (cl_conn c) = (None, k)"
    and "ReadRecord (netconn_reader k) = (Inr reply, r)"
    by (auto simp: roundTrip_def split: option.splits prod.splits sum.splits)
  with decodeReply_None [OF dr] show ?thesis unfolding xid by blast
qed

theorem Call_no_error_means_accepted_witness:
  "\<exists>hdr d. run_state DecodeReplyHeader
             (bdec (wire_reply 8 (Accepted AuthNull 0) @ BigEndian_PutUint32 42)) = (Inr hdr, d)
           \<and> rh_XID hdr = nth_xid 0 demo_client"
proof -
  let ?rep = "wire_reply 8 (Accepted AuthNull 0) @ BigEndian_PutUint32 42"
  let ?peer = "(\<lambda>p c. (None, c)) :: unit peer"
  have w: "snd (WriteRecord (netconn_Write ?peer) req (cl_conn demo_client)) = cl_conn demo_client" for req
    by (simp add: WriteRecord_def netconn_Write_def demo_client_def NewClient_def)
  have "length ?rep \<le> maxFragmentSize" "length ?rep \<le> maxMessageSize"
    by (simp_all add: maxFragmentSize_def maxMessageSize_def wire_auth_def wire_opaque_def
        wire_fixed_def AuthNull_def)
  then have r: "fst (ReadRecord (netconn_reader (cl_conn demo_client))) = Inr ?rep"
    using ReadRecord_loop_fragment [of "bytes_reader (fragment True ?rep)" True ?rep "[]" "[]"]
    by (auto simp: ReadRecord_def netconn_reader_def demo_client_def NewClient_def)
  obtain v c' where "Call ?peer demo_ctx 100003 4 1 (Some (Encoder_Uint32 9)) (Some Decoder_Uint32)
      demo_client = ((None, v), c')"
    using demo_call by blast
  from Call_no_error_means_accepted [OF this] obtain req k reply rd hdr d where
    k: "WriteRecord (netconn_Write ?peer) req (cl_conn demo_client) = (None, k)"
    and rd: "ReadRecord (netconn_reader k) = (Inr reply, rd)"
    and h: "run_state DecodeReplyHeader (bdec reply) = (Inr hdr, d)" "rh_XID hdr = nth_xid 0 demo_client"
    by blast
  from k w [of req] have "k = cl_conn demo_client" by simp
  with r rd have "reply = ?rep" by simp
  with h show ?thesis by blast
qed

text \<open>C21: A cancelled call returns the context's error and leaves the connection unusable: it is
  closed, and every later call on it, with any peer, context, procedure, arguments and decoder,
  returns an error.\<close>

theorem Call_cancelled_closes:
  assumes "rctx_Err ctx (cl_conn c) = None" and "rctx_Done ctx (cl_conn c) = Some (err, k)"
    and "writes ea args"
    and "Call peer ctx prog vers proc (Some ea) dr c = (res, c')"
  shows "res = (Some err, None) \<and> nc_closed (cl_conn c') \<and>
         fst (fst (Call peer' ctx' prog' vers' proc' ea' dr' c')) \<noteq> None"
proof -
  obtain xid c1 where al: "allocXID c = (xid, c1)" by (metis prod.exhaust)
  then have "cl_conn c1 = cl_conn c" by (auto simp: allocXID_eq)
  then have "res = (Some err, None)" and cl: "nc_closed (cl_conn c')"
    using assms by (auto simp: Call_def al Let_def call_request_ok [OF assms(3)])
  then show ?thesis using Call_closed by blast
qed

theorem Call_cancelled_closes_witness:
  "fst (fst (Call (\<lambda>p c. (None, c)) demo_ctx 1 2 3 None (Some Decoder_Uint32)
     (snd (Call (\<lambda>p c. (None, c)) (demo_ctx\<lparr>rctx_Done := \<lambda>c. Some (Sentinel Canceled, c)\<rparr>)
        100003 4 1 (Some (Encoder_Uint32 9)) (Some Decoder_Uint32) demo_client)))) \<noteq> None"
proof -
  let ?ctx = "demo_ctx\<lparr>rctx_Done := \<lambda>c. Some (Sentinel Canceled, c)\<rparr>"
  let ?call = "Call (\<lambda>p c. (None, c)) ?ctx 100003 4 1 (Some (Encoder_Uint32 9)) (Some Decoder_Uint32)
      demo_client"
  have "rctx_Err ?ctx (cl_conn demo_client) = None"
    and "rctx_Done ?ctx (cl_conn demo_client) = Some (Sentinel Canceled, cl_conn demo_client)"
    by (simp_all add: demo_ctx_def)
  moreover have "?call = (fst ?call, snd ?call)" by simp
  ultimately show ?thesis
    using Call_cancelled_closes [OF _ _ writes_Uint32] by blast
qed

text \<open>C22: Transaction ids are never zero, and any \<open>2 ^ 32 - 1\<close> consecutive calls on a client use
  pairwise different ones, so a late reply to an earlier call is not taken for the current one.\<close>

theorem allocXID_fresh:
  assumes "i < j" and "j < i + (2 ^ 32 - 1)"
  shows "nth_xid i c \<noteq> nth_xid j c \<and> nth_xid i c \<noteq> 0"
  using nth_xid_distinct [OF assms, of c] by (simp add: nth_xid_def allocXID_eq xid_next_nonzero)

theorem allocXID_fresh_witness: "nth_xid 0 demo_client \<noteq> nth_xid 4294967294 demo_client"
  using allocXID_fresh [of 0 4294967294 demo_client] by simp

end
