(* ===== verification/Compound.thy ===== *)
theory Compound
  imports Ops_Wire Rpc_Client
begin

text \<open>
  COMPOUND requests and replies: \<open>src/nfs4/compound.go\<close>, and \<open>RPCCaller.CallCompound\<close> of
  \<open>src/nfs4/transport.go\<close>, which sends them through the RPC client. The slice of result
  structs is passed in and returned, since decoding updates it in place.
\<close>

subsection \<open>Requests\<close>

record Compound =
  cp_Tag :: string
  cp_MinorVersion :: u32
  cp_ops :: "arg list"

definition NewCompound :: "string \<Rightarrow> Compound" where
  "NewCompound tag = \<lparr>cp_Tag = tag, cp_MinorVersion = 0, cp_ops = []\<rparr>"

definition Compound_Add :: "Compound \<Rightarrow> arg \<Rightarrow> Compound" where
  "Compound_Add c opr = c\<lparr>cp_ops := cp_ops c @ [opr]\<rparr>"

definition Compound_Encode :: "Compound \<Rightarrow> ('w encoder, unit) state" where
  "Compound_Encode c = do {
     Encoder_String (cp_Tag c);
     Encoder_Uint32 (cp_MinorVersion c);
     Encoder_Uint32 (word_of_nat (length (cp_ops c)));
     forM (cp_ops c) EncodeArg
   }"

subsection \<open>Replies\<close>

record CompoundResult =
  cr_Status :: Status
  cr_Tag :: string
  cr_NumResults :: nat

definition CompoundResult_Err :: "CompoundResult \<Rightarrow> goerror option" where
  "CompoundResult_Err r = Status_Err (cr_Status r)"

text \<open>The loop over the resops: \<open>k\<close> are left, \<open>i\<close> is the index of the next one.\<close>

fun DecodeCompound_loop ::
  "nat \<Rightarrow> nat \<Rightarrow> res list \<Rightarrow> (decoder, goerror option \<times> res list) state" where
  "DecodeCompound_loop 0 i results = State_Monad.return (None, results)"
| "DecodeCompound_loop (Suc k) i results = do {
     opnum \<leftarrow> Decoder_Uint32;
     err \<leftarrow> Decoder_Err;
     (case err of
        Some e \<Rightarrow> State_Monad.return
                   (Some (WrapF ''nfs4: decoding resop[%d] opnum: %w'' [FInt i] e), results)
      | None \<Rightarrow>
          let got = expectedOp (results ! i) in
          if got \<noteq> 0 \<and> got \<noteq> opnum
          then State_Monad.return
                 (Some (ErrorF ''nfs4: resop[%d] opnum %d does not match expected %d''
                    [FInt i, FInt (unat opnum), FInt (unat got)]), results)
          else do {
            r \<leftarrow> DecodeRes (results ! i);
            err \<leftarrow> Decoder_Err;
            (case err of
               Some e \<Rightarrow> State_Monad.return
                          (Some (WrapF ''nfs4: decoding resop[%d] body: %w'' [FInt i] e), results[i := r])
             | None \<Rightarrow> DecodeCompound_loop k (Suc i) (results[i := r]))
          })
   }"

definition DecodeCompound ::
  "res list \<Rightarrow> (decoder, (goerror + CompoundResult) \<times> res list) state" where
  "DecodeCompound results = do {
     st \<leftarrow> Decoder_Uint32;
     tag \<leftarrow> Decoder_String;
     count \<leftarrow> Decoder_Uint32;
     err \<leftarrow> Decoder_Err;
     (case err of
        Some e \<Rightarrow> State_Monad.return (Inl (WrapF ''nfs4: decoding compound header: %w'' [] e), results)
      | None \<Rightarrow>
          if unat count > length results
          then State_Monad.return
                 (Inl (ErrorF ''nfs4: server returned %d resops but only %d expected''
                    [FInt (unat count), FInt (length results)]), results)
          else do {
            (err, results) \<leftarrow> DecodeCompound_loop (unat count) 0 results;
            State_Monad.return
              (case err of
                 Some e \<Rightarrow> (Inl e, results)
               | None \<Rightarrow> (Inr \<lparr>cr_Status = st, cr_Tag = tag, cr_NumResults = unat count\<rparr>, results))
          })
   }"

subsection \<open>RPCCaller\<close>

text \<open>
  The two results \<open>(*CompoundResult, error)\<close> of \<open>CallCompound\<close>, nil being \<open>None\<close>. The
  closure sets \<open>out\<close> and \<open>decErr\<close>; when the RPC layer did not run it they and the results
  are as before.
\<close>

type_synonym cresult = "CompoundResult option \<times> goerror option"

definition RPCCaller_CallCompound ::
  "'s peer \<Rightarrow> 's rctx \<Rightarrow> Compound \<Rightarrow> res list \<Rightarrow> 's client \<Rightarrow> (cresult \<times> res list) \<times> 's client" where
  "RPCCaller_CallCompound peer ctx c results cl =
     (case Call peer ctx Program Version4 ProcCompound (Some (Compound_Encode c))
             (Some (DecodeCompound results)) cl of
        ((err, v), cl') \<Rightarrow>
          (let results = (case v of None \<Rightarrow> results | Some (out, rs) \<Rightarrow> rs);
               (out, decErr) = (case v of
                                  Some (Inl e, rs) \<Rightarrow> (None, Some e)
                                | Some (Inr r, rs) \<Rightarrow> (Some r, None)
                                | None \<Rightarrow> (None, None))
           in if err \<noteq> None then (((None, err), results), cl')
              else if decErr \<noteq> None then (((None, decErr), results), cl')
              else (((out, None), results), cl')))"

lemma decodeReply_no_nil: "decodeReply xid reply (Some dr) = (None, v) \<Longrightarrow> v \<noteq> None"
  by (auto simp: decodeReply_def split: prod.splits sum.splits if_splits option.splits)

lemma CallCompound_no_nil: "fst (fst (RPCCaller_CallCompound peer ctx c results cl)) \<noteq> (None, None)"
  by (auto simp: RPCCaller_CallCompound_def Call_def Let_def dest: decodeReply_no_nil
      split: prod.splits option.splits sum.splits)

subsection \<open>The server's side\<close>

text \<open>What became of one operation at the server, and the COMPOUND reply it sends.\<close>

datatype outcome = Done extras res | Failed extras Status

fun encode_outcome :: "res \<Rightarrow> outcome \<Rightarrow> (bytes encoder, unit) state" where
  "encode_outcome r0 (Done x r) = do { Encoder_Uint32 NFS4_OK; encode_res x r }"
| "encode_outcome r0 (Failed x st) = do { Encoder_Uint32 st; encode_failure x st r0 }"

fun outcome_res :: "res \<Rightarrow> outcome \<Rightarrow> res" where
  "outcome_res r0 (Done x r) = r"
| "outcome_res r0 (Failed x st) = failed_res x st r0"

text \<open>The outcome answers the operation \<open>opn\<close> whose result struct is \<open>r0\<close>, in its zero state
  but for the status.\<close>

fun outcome_ok :: "Opnum \<Rightarrow> res \<Rightarrow> outcome \<Rightarrow> bool" where
  "outcome_ok opn r0 (Done x r) \<longleftrightarrow>
     extras_ok x \<and> res_ok r \<and> res_Status r = NFS4_OK \<and>
     r0 = set_Status (res_Status r0) (res_zero r) \<and> (expectedOp r0 = 0 \<or> expectedOp r0 = opn)"
| "outcome_ok opn r0 (Failed x st) \<longleftrightarrow>
     extras_ok x \<and> st \<noteq> NFS4_OK \<and> r0 = set_Status (res_Status r0) (res_zero r0) \<and>
     (expectedOp r0 = 0 \<or> expectedOp r0 = opn)"

fun encode_outcomes :: "res list \<Rightarrow> (Opnum \<times> outcome) list \<Rightarrow> (bytes encoder, unit) state" where
  "encode_outcomes (r0 # rs) ((opn, oc) # ocs) = do {
     Encoder_Uint32 opn;
     do { encode_outcome r0 oc; encode_outcomes rs ocs }
   }"
| "encode_outcomes _ _ = State_Monad.return ()"

definition encode_reply ::
  "Status \<Rightarrow> string \<Rightarrow> res list \<Rightarrow> (Opnum \<times> outcome) list \<Rightarrow> (bytes encoder, unit) state" where
  "encode_reply st tag results ocs = do {
     Encoder_Uint32 st;
     Encoder_String tag;
     Encoder_Uint32 (word_of_nat (length ocs));
     encode_outcomes results ocs
   }"

definition outcomes_ok :: "res list \<Rightarrow> (Opnum \<times> outcome) list \<Rightarrow> bool" where
  "outcomes_ok results ocs \<longleftrightarrow>
     length ocs \<le> length results \<and> length ocs < 2 ^ 32 \<and>
     list_all2 (\<lambda>r0 (opn, oc). outcome_ok opn r0 oc) (take (length ocs) results) ocs"

text \<open>The result structs after the reply: the answered ones filled in, the others untouched.\<close>

definition filled :: "res list \<Rightarrow> (Opnum \<times> outcome) list \<Rightarrow> res list" where
  "filled results ocs = map2 outcome_res results (map snd ocs) @ drop (length ocs) results"

definition decode_request :: "(decoder, Compound) state" where
  "decode_request = do {
     tag \<leftarrow> Decoder_String;
     minor \<leftarrow> Decoder_Uint32;
     n \<leftarrow> Decoder_Uint32;
     ops \<leftarrow> repeatM (unat n) decode_arg;
     State_Monad.return \<lparr>cp_Tag = tag, cp_MinorVersion = minor, cp_ops = ops\<rparr>
   }"


subsection \<open>Requests reach the server\<close>

definition compound_ok :: "Compound \<Rightarrow> bool" where
  "compound_ok c \<longleftrightarrow> string_ok (cp_Tag c) \<and> length (cp_ops c) < 2 ^ 32 \<and> list_all arg_ok (cp_ops c)"

lemma transports_request:
  assumes "compound_ok c"
  shows "transports (Compound_Encode c) decode_request c"
proof -
  have "transports (forM (cp_ops c) EncodeArg) (repeatM (length (cp_ops c)) decode_arg) (map (\<lambda>a. a) (cp_ops c))"
    using assms by (intro transports_list transports_arg) (auto simp: compound_ok_def list_all_iff)
  then have ops: "transports (forM (cp_ops c) EncodeArg)
      (repeatM (unat (word_of_nat (length (cp_ops c)) :: u32)) decode_arg) (cp_ops c)"
    using assms by (simp add: compound_ok_def unat_word_of_nat_u32)
  have tag: "string_ok (cp_Tag c)" using assms by (simp add: compound_ok_def)
  show ?thesis
    unfolding Compound_Encode_def decode_request_def
    by (intro transports_bind [OF transports_String [OF tag]] transports_bind [OF transports_Uint32]
        transports_last [OF ops], cases c, simp)
qed

subsection \<open>Replies reach the client\<close>

lemma transports_outcome:
  assumes "outcome_ok opn r0 oc"
  shows "transports (encode_outcome r0 oc) (DecodeRes r0) (outcome_res r0 oc)"
proof (cases oc)
  case (Done x r)
  then have r0: "r0 = set_Status (res_Status r0) (res_zero r)"
    and ok: "extras_ok x" "res_ok r" "res_Status r = NFS4_OK"
    using assms by simp_all
  from transports_res [OF ok, of "res_Status r0"] show ?thesis
    unfolding r0 [symmetric] Done by simp
next
  case (Failed x st)
  then have r0: "r0 = set_Status (res_Status r0) (res_zero r0)" and "extras_ok x" "st \<noteq> NFS4_OK"
    using assms by simp_all
  moreover have "bitmap_ok b" if "r0 = SetattrRes s b" for s b
    using r0 that by (simp add: bitmap_ok_def)
  ultimately show ?thesis
    using transports_failure [of x st r0] Failed by simp
qed

lemma transports_outcomes:
  assumes "list_all2 (\<lambda>r0 (opn, oc). outcome_ok opn r0 oc) rs ocs"
  shows "transports (encode_outcomes (rs @ ts) ocs)
           (DecodeCompound_loop (length ocs) (length ds) (ds @ rs @ ts))
           (None, ds @ map2 outcome_res rs (map snd ocs) @ ts)"
  using assms
proof (induction rs ocs arbitrary: ds rule: list_all2_induct)
  case Nil
  then show ?case by (cases ts) (simp_all add: transports_return)
next
  case (Cons r0 rs p ocs)
  obtain opn oc where p: "p = (opn, oc)" by (cases p)
  with Cons have ok: "outcome_ok opn r0 oc" by simp
  then have "expectedOp r0 = 0 \<or> expectedOp r0 = opn" by (cases oc) simp_all
  moreover obtain bs where bs: "writes (encode_outcome r0 oc) bs"
      "reads (DecodeRes r0) (outcome_res r0 oc) bs" "4 dvd length bs"
    using transports_outcome [OF ok] by (auto simp: transports_def)
  moreover obtain ws where ws: "writes (encode_outcomes (rs @ ts) ocs) ws"
      "reads (DecodeCompound_loop (length ocs) (length (ds @ [outcome_res r0 oc]))
         ((ds @ [outcome_res r0 oc]) @ rs @ ts))
       (None, (ds @ [outcome_res r0 oc]) @ map2 outcome_res rs (map snd ocs) @ ts) ws" "4 dvd length ws"
    using Cons.IH [of "ds @ [outcome_res r0 oc]"] by (auto simp: transports_def)
  ultimately have rd: "reads (DecodeCompound_loop (length (p # ocs)) (length ds) (ds @ (r0 # rs) @ ts))
      (None, ds @ map2 outcome_res (r0 # rs) (map snd (p # ocs)) @ ts)
      (BigEndian_PutUint32 opn @ bs @ ws)"
    by (auto simp: reads_def [of "DecodeCompound_loop _ _ _"] p Let_def nth_append list_update_append
        readsD [OF reads_Uint32] readsD [OF bs(2)] reads_def)
  have wr: "writes (encode_outcomes ((r0 # rs) @ ts) (p # ocs)) (BigEndian_PutUint32 opn @ bs @ ws)"
    by (simp only: p append_Cons encode_outcomes.simps) (intro writes_bind writes_Uint32 bs ws)
  show ?case
    by (rule transportsI [OF wr rd]) (simp add: bs(3) ws(3))
qed

lemma transports_reply:
  assumes ok: "outcomes_ok results ocs" and tag: "string_ok tag"
  shows "transports (encode_reply st tag results ocs) (DecodeCompound results)
           (Inr \<lparr>cr_Status = st, cr_Tag = tag, cr_NumResults = length ocs\<rparr>, filled results ocs)"
proof -
  let ?n = "length ocs"
  have n: "unat (word_of_nat ?n :: u32) = ?n" "?n \<le> length results"
    using ok by (simp_all add: outcomes_ok_def unat_word_of_nat_u32)
  have m: "map2 outcome_res (take ?n results) (map snd ocs) = map2 outcome_res results (map snd ocs)"
    using take_zip [of ?n results "map snd ocs"] n(2) by simp
  obtain bs where bs: "writes (encode_outcomes results ocs) bs" "4 dvd length bs"
      "reads (DecodeCompound_loop ?n 0 results) (None, filled results ocs) bs"
    using transports_outcomes [of "take ?n results" ocs "drop ?n results" "[]"] ok
    by (auto simp: transports_def outcomes_ok_def filled_def m)
  have wr: "writes (encode_reply st tag results ocs) (BigEndian_PutUint32 st @ wire_string tag @
      BigEndian_PutUint32 (word_of_nat ?n) @ bs)"
    unfolding encode_reply_def by (intro writes_bind wire_writes bs)
  have rd: "reads (DecodeCompound results)
      (Inr \<lparr>cr_Status = st, cr_Tag = tag, cr_NumResults = length ocs\<rparr>, filled results ocs)
      (BigEndian_PutUint32 st @ wire_string tag @ BigEndian_PutUint32 (word_of_nat ?n) @ bs)"
    using n by (simp add: reads_def DecodeCompound_def readsD [OF reads_Uint32]
        readsD [OF reads_String [OF tag]] readsD [OF bs(3)])
  show ?thesis
    by (rule transportsI [OF wr rd]) (simp add: bs(2) aligned_wire_string)
qed

subsection \<open>Any reply\<close>

lemma res_zero_DecodeRes: "run_state (DecodeRes r) d = (r', d') \<Longrightarrow> res_zero r' = res_zero r"
  by (cases r) (auto split: prod.splits if_splits)

lemma DecodeCompound_loop_frame:
  "run_state (DecodeCompound_loop k i results) d = ((e, results'), d') \<Longrightarrow> i + k \<le> length results \<Longrightarrow>
   map res_zero results' = map res_zero results \<and>
   (\<forall>j. j < i \<or> i + k \<le> j \<longrightarrow> results' ! j = results ! j)"
proof (induction k arbitrary: i results d)
  case 0
  then show ?case by simp
next
  case (Suc k)
  obtain opn d1 where u: "run_state Decoder_Uint32 d = (opn, d1)" by (metis prod.exhaust)
  obtain r d2 where r: "run_state (DecodeRes (results ! i)) d1 = (r, d2)" by (metis prod.exhaust)
  have upd: "map res_zero (results[i := r]) = map res_zero results"
    using res_zero_DecodeRes [OF r] by (metis list_update_id map_update)
  show ?case
  proof (cases "dec_err d1 = None \<and> (expectedOp (results ! i) = 0 \<or> expectedOp (results ! i) = opn) \<and>
      dec_err d2 = None")
    case True
    then have "run_state (DecodeCompound_loop k (Suc i) (results[i := r])) d2 = ((e, results'), d')"
      using Suc.prems(1) u r by (auto simp: Let_def)
    from Suc.IH [OF this] Suc.prems(2) upd show ?thesis by auto
  next
    case False
    then have "results' = results \<or> results' = results[i := r]"
      using Suc.prems(1) u r by (auto simp: Let_def split: if_splits option.splits)
    then show ?thesis using upd Suc.prems(2) by auto
  qed
qed

lemma DecodeCompound_frame:
  assumes "run_state (DecodeCompound results) d = ((out, results'), d')"
  shows "map res_zero results' = map res_zero results \<and>
         (\<forall>r. out = Inr r \<longrightarrow> cr_NumResults r \<le> length results \<and>
            drop (cr_NumResults r) results' = drop (cr_NumResults r) results)"
proof -
  obtain st d1 where st: "run_state Decoder_Uint32 d = (st, d1)" by (metis prod.exhaust)
  obtain tag d2 where tag: "run_state Decoder_String d1 = (tag, d2)" by (metis prod.exhaust)
  obtain count d3 where count: "run_state Decoder_Uint32 d2 = (count, d3)" by (metis prod.exhaust)
  obtain e rs d4 where l: "run_state (DecodeCompound_loop (unat count) 0 results) d3 = ((e, rs), d4)"
    by (metis prod.exhaust)
  show ?thesis
  proof (cases "dec_err d3 = None \<and> unat count \<le> length results")
    case False
    then have "results' = results" "\<exists>e. out = Inl e"
      using assms by (auto simp: DecodeCompound_def st tag count split: option.splits if_splits)
    then show ?thesis by auto
  next
    case True
    have fr: "map res_zero rs = map res_zero results" "\<forall>j. unat count \<le> j \<longrightarrow> rs ! j = results ! j"
      using DecodeCompound_loop_frame [OF l] True by auto
    moreover have "length rs = length results" using fr(1) by (metis length_map)
    ultimately have "drop (unat count) rs = drop (unat count) results"
      by (intro nth_equalityI) auto
    moreover have "results' = rs" "\<And>r. out = Inr r \<Longrightarrow> cr_NumResults r = unat count"
      using assms True by (auto simp: DecodeCompound_def st tag count l split: option.splits)
    ultimately show ?thesis using fr True by auto
  qed
qed

lemma DecodeCompound_loop_add:
  "run_state (DecodeCompound_loop (m + k) i results) d =
     (case run_state (DecodeCompound_loop m i results) d of
        ((None, rs), d') \<Rightarrow> run_state (DecodeCompound_loop k (i + m) rs) d'
      | r \<Rightarrow> r)"
  by (induction m arbitrary: i results d)
    (auto simp: Let_def split: prod.splits option.splits)

lemma DecodeCompound_mismatch:
  assumes ok: "outcomes_ok results ocs" and tag: "string_ok tag" and n: "unat n \<le> length results"
    and i: "length ocs < unat n"
    and exp: "expectedOp (results ! length ocs) \<noteq> 0" "expectedOp (results ! length ocs) \<noteq> opn"
  shows "fst (run_state (DecodeCompound results)
      (bdec (BigEndian_PutUint32 st @ wire_string tag @ BigEndian_PutUint32 n @
             encoded (encode_outcomes results ocs) @ BigEndian_PutUint32 opn @ rest)))
    = (Inl (ErrorF ''nfs4: resop[%d] opnum %d does not match expected %d''
         [FInt (length ocs), FInt (unat opn), FInt (unat (expectedOp (results ! length ocs)))]),
       filled results ocs)"
proof -
  let ?m = "length ocs"
  have len: "?m \<le> length results" using ok by (simp add: outcomes_ok_def)
  have m: "map2 outcome_res (take ?m results) (map snd ocs) = map2 outcome_res results (map snd ocs)"
    using take_zip [of ?m results "map snd ocs"] len by simp
  have t: "transports (encode_outcomes results ocs) (DecodeCompound_loop ?m 0 results) (None, filled results ocs)"
    using transports_outcomes [of "take ?m results" ocs "drop ?m results" "[]"] ok
    by (simp add: outcomes_ok_def filled_def m)
  have "filled results ocs ! ?m = results ! ?m"
    using len i n by (simp add: filled_def nth_append)
  then have step: "fst (run_state (DecodeCompound_loop (Suc k) ?m (filled results ocs))
      (bdec (BigEndian_PutUint32 opn @ rest)))
    = (Some (ErrorF ''nfs4: resop[%d] opnum %d does not match expected %d''
         [FInt ?m, FInt (unat opn), FInt (unat (expectedOp (results ! ?m)))]), filled results ocs)" for k
    using exp by (simp add: readsD [OF reads_Uint32] Let_def)
  obtain k where k: "unat n = ?m + Suc k" using i less_iff_Suc_add by auto
  have "fst (run_state (DecodeCompound_loop (unat n) 0 results)
      (bdec (encoded (encode_outcomes results ocs) @ BigEndian_PutUint32 opn @ rest)))
    = (Some (ErrorF ''nfs4: resop[%d] opnum %d does not match expected %d''
         [FInt ?m, FInt (unat opn), FInt (unat (expectedOp (results ! ?m)))]), filled results ocs)"
    unfolding k DecodeCompound_loop_add transports_run [OF t] using step [of k]
    by (simp del: DecodeCompound_loop.simps)
  then show ?thesis
    using n by (auto simp: DecodeCompound_def readsD [OF reads_Uint32] readsD [OF reads_String [OF tag]]
        split: prod.splits)
qed

subsection \<open>Through the RPC client\<close>

lemma Compound_Encode_writes: "writes (Compound_Encode c) (encoded (Compound_Encode c))"
proof -
  have "writes (Compound_Encode c) (wire_string (cp_Tag c) @ BigEndian_PutUint32 (cp_MinorVersion c) @
      BigEndian_PutUint32 (word_of_nat (length (cp_ops c))) @ concat (map (\<lambda>a. encoded (EncodeArg a)) (cp_ops c)))"
    unfolding Compound_Encode_def
    by (intro writes_bind writes_String writes_Uint32 argop.list_writes)
  then show ?thesis by (auto simp: encoded_writes)
qed

lemma CallCompound_replied:
  assumes "rctx_Err ctx (cl_conn cl) = None" and "rctx_Done ctx (cl_conn cl) = None"
    and "req = wire_call \<lparr>ch_XID = nth_xid 0 cl, ch_Prog = Program, ch_Vers = Version4,
                ch_Proc = ProcCompound, ch_Cred = co_Cred (cl_opts cl), ch_Verf = co_Verf (cl_opts cl)\<rparr> @
              encoded (Compound_Encode c)"
    and "WriteRecord (netconn_Write peer) req (cl_conn cl) = (None, k)" and "\<not> nc_closed k"
    and "ReadRecord (nc_in k) = (Inr (wire_reply (nth_xid 0 cl) (Accepted verf AcceptSuccess) @
           encoded (encode_reply st tag results ocs)), r)"
    and "auth_ok verf" and ok: "outcomes_ok results ocs" "string_ok tag"
  shows "RPCCaller_CallCompound peer ctx c results cl =
           (((Some \<lparr>cr_Status = st, cr_Tag = tag, cr_NumResults = length ocs\<rparr>, None), filled results ocs),
            cl\<lparr>cl_nextID := nth_xid 0 cl, cl_conn := k\<lparr>nc_in := r\<rparr>\<rparr>)"
proof -
  have "reads (DecodeCompound results)
      (Inr \<lparr>cr_Status = st, cr_Tag = tag, cr_NumResults = length ocs\<rparr>, filled results ocs)
      (encoded (encode_reply st tag results ocs))"
    using transports_reply [OF ok, of st] by (auto simp: transports_def encoded_writes)
  from Call_replied [OF assms(1,2) Compound_Encode_writes assms(3-7) this]
  show ?thesis by (simp add: RPCCaller_CallCompound_def)
qed

lemma CallCompound_success:
  assumes "rctx_Err ctx (cl_conn cl) = None" and "rctx_Done ctx (cl_conn cl) = None"
    and "req = wire_call \<lparr>ch_XID = nth_xid 0 cl, ch_Prog = Program, ch_Vers = Version4,
                ch_Proc = ProcCompound, ch_Cred = co_Cred (cl_opts cl), ch_Verf = co_Verf (cl_opts cl)\<rparr> @
              encoded (Compound_Encode c)"
    and "WriteRecord (netconn_Write peer) req (cl_conn cl) = (None, k)" and "\<not> nc_closed k"
    and "rd_bytes (nc_in k) = fragment True
           (wire_reply (nth_xid 0 cl) (Accepted verf AcceptSuccess) @ encoded (encode_reply st tag results ocs)) @ rest"
    and "length (wire_reply (nth_xid 0 cl) (Accepted verf AcceptSuccess) @
           encoded (encode_reply st tag results ocs)) \<le> maxFragmentSize"
    and "auth_ok verf" and "outcomes_ok results ocs" and "string_ok tag"
  shows "\<exists>cl'. RPCCaller_CallCompound peer ctx c results cl =
           (((Some \<lparr>cr_Status = st, cr_Tag = tag, cr_NumResults = length ocs\<rparr>, None), filled results ocs), cl')
         \<and> rd_bytes (nc_in (cl_conn cl')) = rest"
proof -
  have "reads (DecodeCompound results)
      (Inr \<lparr>cr_Status = st, cr_Tag = tag, cr_NumResults = length ocs\<rparr>, filled results ocs)
      (encoded (encode_reply st tag results ocs))"
    using transports_reply [OF assms(9,10), of st] by (auto simp: transports_def encoded_writes)
  from Call_success [OF assms(1,2) Compound_Encode_writes assms(3-8) this]
  show ?thesis by (auto simp: RPCCaller_CallCompound_def Let_def)
qed

subsection \<open>A sample exchange\<close>

definition no_extras :: extras where
  "no_extras =
     \<lparr>ex_cinfo = (False, 0, 0), ex_cinfo2 = (False, 0, 0), ex_deleg = DelegateNone,
      ex_state_protect = 0, ex_owner_minor = 0, ex_owner_major = [], ex_scope = [],
      ex_impl = [], ex_rdma = [], ex_using = ([], [])\<rparr>"

definition root_compound :: Compound where
  "root_compound = Compound_Add (Compound_Add (NewCompound []) PutrootfhArgs) GetfhArgs"

definition root_results :: "res list" where
  "root_results = [StatusRes 0, GetfhRes 0 None]"

definition root_outcomes :: "(Opnum \<times> outcome) list" where
  "root_outcomes =
     [(OpPutrootfh, Done no_extras (StatusRes 0)), (OpGetfh, Done no_extras (GetfhRes 0 (Some [1, 2])))]"

lemma no_extras_ok: "extras_ok no_extras"
  by (simp add: extras_ok_def no_extras_def opaque_ok_def string_ok_def)

lemma root_outcomes_ok: "outcomes_ok root_results root_outcomes"
  by (simp add: outcomes_ok_def root_results_def root_outcomes_def no_extras_ok opaque_ok_def)

lemma root_filled: "filled root_results root_outcomes = [StatusRes 0, GetfhRes 0 (Some [1, 2])]"
  by (simp add: filled_def root_results_def root_outcomes_def)

lemma length_root_outcomes: "length root_outcomes = 2"
  by (simp add: root_outcomes_def)

definition root_client :: "unit client" where
  "root_client = NewClient
     \<lparr>nc_in = bytes_reader (fragment True (wire_reply 8 (Accepted AuthNull 0) @
        encoded (encode_reply NFS4_OK [] root_results root_outcomes))),
      nc_srv = (), nc_closed = False, nc_closeErr = None\<rparr> \<lparr>co_Cred = AuthNull, co_Verf = AuthNull\<rparr> 7"

lemma root_reply_length:
  "length (wire_reply 8 (Accepted AuthNull 0) @ encoded (encode_reply NFS4_OK [] root_results root_outcomes))
     \<le> maxFragmentSize"
proof -
  have "length (encoded (encode_reply NFS4_OK [] root_results root_outcomes)) = 36" by code_simp
  then show ?thesis
    by (simp add: maxFragmentSize_def wire_auth_def wire_opaque_def wire_fixed_def AuthNull_def)
qed

lemma root_xid: "nth_xid 0 root_client = 8"
  by (simp add: nth_xid_def client_after_def allocXID_eq root_client_def NewClient_def xid_next_def)

lemma root_request_sent:
  "WriteRecord (netconn_Write (\<lambda>p c. (None, c)))
     (wire_call \<lparr>ch_XID = nth_xid 0 root_client, ch_Prog = Program, ch_Vers = Version4,
        ch_Proc = ProcCompound, ch_Cred = co_Cred (cl_opts root_client), ch_Verf = co_Verf (cl_opts root_client)\<rparr> @
      encoded (Compound_Encode root_compound)) (cl_conn root_client) = (None, cl_conn root_client)"
proof -
  have "length (encoded (Compound_Encode root_compound)) = 20" by code_simp
  then show ?thesis
    by (simp add: WriteRecord_def netconn_Write_def root_client_def NewClient_def AuthNull_def
        wire_call_def wire_auth_def wire_opaque_def wire_fixed_def fragmentSizeMask_def)
qed

text \<open>
  The result structs of the operations sent: each names its operation, or none (\<open>StatusRes\<close>, used for the
  operations whose result is a status alone). A result for a struct that names none is not checked: it is taken
  under any opnum.
\<close>

definition structs_for :: "arg list \<Rightarrow> res list \<Rightarrow> bool" where
  "structs_for ops results \<longleftrightarrow> list_all2 (\<lambda>a r. expectedOp r = 0 \<or> expectedOp r = Arg_Op a) ops results"

lemma DecodeCompound_unchecked:
  "run_state (DecodeCompound [StatusRes 0]) (bdec (encoded (encode_reply 0 [] [StatusRes 0] [(opn, Done no_extras (StatusRes 0))]) @ rest)) =
     ((Inr \<lparr>cr_Status = 0, cr_Tag = [], cr_NumResults = 1\<rparr>, [StatusRes 0]), bdec rest)"
proof -
  have "outcomes_ok [StatusRes 0] [(opn, Done no_extras (StatusRes 0))]" "string_ok []"
    by (simp_all add: outcomes_ok_def no_extras_ok string_ok_def opaque_ok_def)
  from transports_run [OF transports_reply [OF this]] show ?thesis by (simp add: filled_def)
qed

subsection \<open>Properties\<close>

text \<open>C19: A server that parses the request by the protocol's argument unions gets exactly the
  compound the client built: tag, minor version and every operation with every field, in order,
  whatever follows it on the wire.\<close>

theorem Compound_request_understood:
  assumes "compound_ok c"
  shows "run_state decode_request (bdec (encoded (Compound_Encode c) @ rest)) = (c, bdec rest)"
  by (rule transports_run [OF transports_request [OF assms]])

theorem Compound_request_understood_witness:
  "run_state decode_request (bdec (encoded (Compound_Encode root_compound) @ [9])) = (root_compound, bdec [9])"
  using Compound_request_understood [of root_compound "[9]"]
  by (simp add: compound_ok_def root_compound_def Compound_Add_def NewCompound_def string_ok_def opaque_ok_def)

text \<open>C18: On a reply in which a server answers any prefix of the operations sent, in order, each with
  success or failure, the result structs of the answered operations hold what the server sent, those
  of the unanswered ones are untouched, and the compound result has the server's status, tag and
  count. Where the result struct names its operation, a result under another opnum than the one sent is refused
  with an error that names both, however many results were fine before it.\<close>

theorem DecodeCompound_correct:
  assumes "structs_for ops results" and "outcomes_ok results ocs" and "string_ok tag"
    and "map fst ocs = map Arg_Op (take (length ocs) ops)"
  shows "run_state (DecodeCompound results) (bdec (encoded (encode_reply st tag results ocs) @ rest)) =
           ((Inr \<lparr>cr_Status = st, cr_Tag = tag, cr_NumResults = length ocs\<rparr>, filled results ocs), bdec rest) \<and>
         (length ocs < unat n \<and> unat n \<le> length results \<and> expectedOp (results ! length ocs) \<noteq> 0 \<and>
          opn \<noteq> Arg_Op (ops ! length ocs) \<longrightarrow>
            fst (fst (run_state (DecodeCompound results)
              (bdec (BigEndian_PutUint32 st @ wire_string tag @ BigEndian_PutUint32 n @
                 encoded (encode_outcomes results ocs) @ BigEndian_PutUint32 opn @ rest)))) =
            Inl (ErrorF ''nfs4: resop[%d] opnum %d does not match expected %d''
              [FInt (length ocs), FInt (unat opn), FInt (unat (Arg_Op (ops ! length ocs)))]))"
proof (intro conjI impI; (elim conjE)?)
  show "run_state (DecodeCompound results) (bdec (encoded (encode_reply st tag results ocs) @ rest)) =
      ((Inr \<lparr>cr_Status = st, cr_Tag = tag, cr_NumResults = length ocs\<rparr>, filled results ocs), bdec rest)"
    by (rule transports_run [OF transports_reply [OF assms(2,3)]])
next
  assume n: "length ocs < unat n" "unat n \<le> length results" and r: "expectedOp (results ! length ocs) \<noteq> 0"
    and opn: "opn \<noteq> Arg_Op (ops ! length ocs)"
  from n have "length ocs < length results" by simp
  then have "expectedOp (results ! length ocs) = Arg_Op (ops ! length ocs)"
    using assms(1) r by (auto simp: structs_for_def list_all2_conv_all_nth)
  with DecodeCompound_mismatch [OF assms(2,3) n(2,1) r, of opn st rest] opn
  show "fst (fst (run_state (DecodeCompound results)
      (bdec (BigEndian_PutUint32 st @ wire_string tag @ BigEndian_PutUint32 n @
         encoded (encode_outcomes results ocs) @ BigEndian_PutUint32 opn @ rest)))) =
      Inl (ErrorF ''nfs4: resop[%d] opnum %d does not match expected %d''
        [FInt (length ocs), FInt (unat opn), FInt (unat (Arg_Op (ops ! length ocs)))])"
    by simp
qed

theorem DecodeCompound_correct_witness:
  "run_state (DecodeCompound root_results) (bdec (encoded (encode_reply 0 [] root_results root_outcomes) @ [7])) =
     ((Inr \<lparr>cr_Status = 0, cr_Tag = [], cr_NumResults = 2\<rparr>, [StatusRes 0, GetfhRes 0 (Some [1, 2])]), bdec [7]) \<and>
   (\<exists>e. fst (fst (run_state (DecodeCompound root_results)
      (bdec (BigEndian_PutUint32 0 @ wire_string [] @ BigEndian_PutUint32 2 @
         encoded (encode_outcomes root_results (take 1 root_outcomes)) @ BigEndian_PutUint32 9 @ [])))) = Inl e)"
proof
  have ops: "structs_for [PutrootfhArgs, GetfhArgs] root_results" by (simp add: structs_for_def root_results_def)
  have tag: "string_ok []" by (simp add: string_ok_def opaque_ok_def)
  have "map fst root_outcomes = map Arg_Op (take (length root_outcomes) [PutrootfhArgs, GetfhArgs])"
    by (simp add: root_outcomes_def)
  from DecodeCompound_correct [OF ops root_outcomes_ok tag this, of 0 "[7]"]
  show "run_state (DecodeCompound root_results) (bdec (encoded (encode_reply 0 [] root_results root_outcomes) @ [7])) =
     ((Inr \<lparr>cr_Status = 0, cr_Tag = [], cr_NumResults = 2\<rparr>, [StatusRes 0, GetfhRes 0 (Some [1, 2])]), bdec [7])"
    by (simp add: root_filled length_root_outcomes)
  have "outcomes_ok root_results (take 1 root_outcomes)"
    by (simp add: outcomes_ok_def root_results_def root_outcomes_def no_extras_ok)
  moreover have "map fst (take 1 root_outcomes) = map Arg_Op (take (length (take 1 root_outcomes)) [PutrootfhArgs, GetfhArgs])"
    by (simp add: root_outcomes_def)
  ultimately show "\<exists>e. fst (fst (run_state (DecodeCompound root_results)
      (bdec (BigEndian_PutUint32 0 @ wire_string [] @ BigEndian_PutUint32 2 @
         encoded (encode_outcomes root_results (take 1 root_outcomes)) @ BigEndian_PutUint32 9 @ [])))) = Inl e"
    using DecodeCompound_correct [OF ops _ tag, of "take 1 root_outcomes" 0 "[]" 2 9]
    by (simp add: root_outcomes_def root_results_def)
qed

text \<open>Whatever bytes arrive, decoding a reply keeps every result struct one of its own type,
  and on success it has counted no more results than were expected and has left the structs beyond
  the count exactly as they were.\<close>

theorem DecodeCompound_any_input:
  assumes "run_state (DecodeCompound results) d = ((out, results'), d')"
  shows "map res_zero results' = map res_zero results \<and>
         (\<forall>r. out = Inr r \<longrightarrow> cr_NumResults r \<le> length results \<and>
            drop (cr_NumResults r) results' = drop (cr_NumResults r) results)"
  by (rule DecodeCompound_frame [OF assms])

theorem DecodeCompound_any_input_witness:
  "map res_zero (snd (fst (run_state (DecodeCompound root_results) (bdec [0, 0, 0, 1]))))
     = map res_zero root_results"
  using DecodeCompound_any_input [of root_results "bdec [0, 0, 0, 1]"] by (metis prod.collapse)

text \<open>A COMPOUND sent through the RPC client whose reply is an accepted call carrying the
  server's answers returns these answers in the caller's result structs, without an error, and leaves
  the connection right after the reply.\<close>

theorem CallCompound_returns_results:
  assumes "rctx_Err ctx (cl_conn cl) = None" and "rctx_Done ctx (cl_conn cl) = None"
    and "req = wire_call \<lparr>ch_XID = nth_xid 0 cl, ch_Prog = Program, ch_Vers = Version4,
                ch_Proc = ProcCompound, ch_Cred = co_Cred (cl_opts cl), ch_Verf = co_Verf (cl_opts cl)\<rparr> @
              encoded (Compound_Encode c)"
    and "WriteRecord (netconn_Write peer) req (cl_conn cl) = (None, k)" and "\<not> nc_closed k"
    and "rd_bytes (nc_in k) = fragment True
           (wire_reply (nth_xid 0 cl) (Accepted verf AcceptSuccess) @ encoded (encode_reply st tag results ocs)) @ rest"
    and "length (wire_reply (nth_xid 0 cl) (Accepted verf AcceptSuccess) @
           encoded (encode_reply st tag results ocs)) \<le> maxFragmentSize"
    and "auth_ok verf" and "outcomes_ok results ocs" and "string_ok tag"
  shows "\<exists>cl'. RPCCaller_CallCompound peer ctx c results cl =
           (((Some \<lparr>cr_Status = st, cr_Tag = tag, cr_NumResults = length ocs\<rparr>, None), filled results ocs), cl')
         \<and> rd_bytes (nc_in (cl_conn cl')) = rest"
  by (rule CallCompound_success [OF assms])

theorem CallCompound_returns_results_witness:
  "\<exists>cl'. RPCCaller_CallCompound (\<lambda>p c. (None, c)) demo_ctx root_compound root_results root_client =
     (((Some \<lparr>cr_Status = 0, cr_Tag = [], cr_NumResults = 2\<rparr>, None),
       [StatusRes 0, GetfhRes 0 (Some [1, 2])]), cl')"
proof -
  have ctx: "rctx_Err demo_ctx (cl_conn root_client) = None" "rctx_Done demo_ctx (cl_conn root_client) = None"
    by (simp_all add: demo_ctx_def)
  have conn: "\<not> nc_closed (cl_conn root_client)"
    "rd_bytes (nc_in (cl_conn root_client)) = fragment True (wire_reply (nth_xid 0 root_client)
       (Accepted AuthNull 0) @ encoded (encode_reply 0 [] root_results root_outcomes)) @ []"
    unfolding root_xid by (simp_all add: root_client_def NewClient_def)
  have misc: "auth_ok AuthNull" "string_ok []"
    by (simp_all add: auth_ok_def AuthNull_def string_ok_def opaque_ok_def)
  from CallCompound_returns_results [OF ctx refl root_request_sent conn
      root_reply_length [folded root_xid] misc(1) root_outcomes_ok misc(2)]
  show ?thesis by (auto simp: root_filled length_root_outcomes)
qed

end
