(* ===== verification/Session.thy ===== *)
theory Session
  imports Compound
begin

text \<open>
  The v4.1 session slot table of \<open>src/nfs4/session.go\<close>: \<open>NewSession\<close>, \<open>AcquireSlot\<close> and the
  release of a lease. The channel \<open>free\<close> of tokens is its number of tokens; the mutex makes the
  scan of \<open>AcquireSlot\<close> and the update of \<open>release\<close> one step each.

  Goroutines using one session interleave between these steps, so besides the sequential
  operations there is a step relation \<open>session_step\<close> for any number of goroutines, with the
  invariant that the tokens and the table agree. The caller that adds SEQUENCE to compounds is in
  \<open>Callers\<close>.
\<close>

subsection \<open>Slots\<close>

abbreviation (input) DefaultSlotCount :: int where "DefaultSlotCount \<equiv> 16"

record slot =
  sl_seq :: u32
  sl_inUse :: bool

record Session =
  se_id :: SessionID
  se_slots :: "slot list"
  se_highest :: u32
  se_free :: nat

record slotLease =
  le_slotID :: u32
  le_seq :: u32
  le_highest :: u32
  le_released :: bool

definition NewSession :: "SessionID \<Rightarrow> int \<Rightarrow> Session" where
  "NewSession sid slotCount =
     (let n = nat (if slotCount < 1 then 1 else slotCount)
      in \<lparr>se_id = sid, se_slots = replicate n \<lparr>sl_seq = 1, sl_inUse = False\<rparr>,
          se_highest = 0, se_free = n\<rparr>)"

definition SlotCount :: "Session \<Rightarrow> nat" where
  "SlotCount s = length (se_slots s)"

text \<open>The index of the first slot not in use.\<close>

fun first_free :: "nat \<Rightarrow> slot list \<Rightarrow> nat option" where
  "first_free i [] = None"
| "first_free i (sl # sls) = (if \<not> sl_inUse sl then Some i else first_free (Suc i) sls)"

text \<open>The locked part of \<open>AcquireSlot\<close>; \<open>None\<close> when no slot is free.\<close>

definition AcquireSlot_scan :: "Session \<Rightarrow> (slotLease \<times> Session) option" where
  "AcquireSlot_scan s =
     (case first_free 0 (se_slots s) of
        None \<Rightarrow> None
      | Some i \<Rightarrow>
          (let s = s\<lparr>se_slots := (se_slots s)[i := (se_slots s ! i)\<lparr>sl_inUse := True\<rparr>]\<rparr>;
               s = (if word_of_nat i > se_highest s then s\<lparr>se_highest := word_of_nat i\<rparr> else s)
           in Some (\<lparr>le_slotID = word_of_nat i, le_seq = sl_seq (se_slots s ! i),
                     le_highest = se_highest s, le_released = False\<rparr>, s)))"

text \<open>
  \<open>AcquireSlot\<close>. The \<open>select\<close> takes the branch of the context, with its error, when \<open>cancelled\<close>
  says so, and otherwise a token; without a token it blocks, which is \<open>None\<close>.
\<close>

definition AcquireSlot :: "goerror option \<Rightarrow> Session \<Rightarrow> ((goerror + slotLease) \<times> Session) option" where
  "AcquireSlot cancelled s =
     (case cancelled of
        Some e \<Rightarrow> Some (Inl e, s)
      | None \<Rightarrow>
          if se_free s = 0 then None
          else (let s = s\<lparr>se_free := se_free s - 1\<rparr>
                in case AcquireSlot_scan s of
                     Some (lease, s) \<Rightarrow> Some (Inr lease, s)
                   | None \<Rightarrow> Some (Inl (Sentinel Canceled), s\<lparr>se_free := se_free s + 1\<rparr>)))"

text \<open>\<open>release\<close>: its locked part, and the whole of it.\<close>

definition release_slot :: "bool \<Rightarrow> slotLease \<Rightarrow> Session \<Rightarrow> Session" where
  "release_slot advance l s =
     (let i = unat (le_slotID l);
          sl = se_slots s ! i;
          sl = (if advance then sl\<lparr>sl_seq := sl_seq sl + 1\<rparr> else sl);
          sl = sl\<lparr>sl_inUse := False\<rparr>
      in s\<lparr>se_slots := (se_slots s)[i := sl]\<rparr>)"

definition slotLease_release :: "bool \<Rightarrow> slotLease \<Rightarrow> Session \<Rightarrow> slotLease \<times> Session" where
  "slotLease_release advance l s =
     (if le_released l then (l, s)
      else let s = release_slot advance l s
           in (l\<lparr>le_released := True\<rparr>, s\<lparr>se_free := se_free s + 1\<rparr>))"

definition slotLease_Done :: "slotLease \<Rightarrow> Session \<Rightarrow> slotLease \<times> Session" where
  "slotLease_Done = slotLease_release True"

definition slotLease_Retry :: "slotLease \<Rightarrow> Session \<Rightarrow> slotLease \<times> Session" where
  "slotLease_Retry = slotLease_release False"

subsection \<open>Goroutines\<close>

text \<open>
  Where a goroutine is: outside, holding a token before the scan, holding a lease, or past the
  locked part of \<open>release\<close> with the token still to be sent. The log records the released leases:
  slot, sequence id and whether the sequence id was advanced.
\<close>

datatype pc = Outside | HasToken | Leased slotLease | Returning

record world =
  wo_session :: Session
  wo_pcs :: "pc list"
  wo_log :: "(u32 \<times> u32 \<times> bool) list"

inductive session_step :: "world \<Rightarrow> world \<Rightarrow> bool" where
  take_token:
    "i < length (wo_pcs w) \<Longrightarrow> wo_pcs w ! i = Outside \<Longrightarrow> 0 < se_free (wo_session w) \<Longrightarrow>
     session_step w (w\<lparr>wo_session := (wo_session w)\<lparr>se_free := se_free (wo_session w) - 1\<rparr>,
                       wo_pcs := (wo_pcs w)[i := HasToken]\<rparr>)"
| scan:
    "i < length (wo_pcs w) \<Longrightarrow> wo_pcs w ! i = HasToken \<Longrightarrow>
     AcquireSlot_scan (wo_session w) = Some (l, s) \<Longrightarrow>
     session_step w (w\<lparr>wo_session := s, wo_pcs := (wo_pcs w)[i := Leased l]\<rparr>)"
| scan_fails:
    "i < length (wo_pcs w) \<Longrightarrow> wo_pcs w ! i = HasToken \<Longrightarrow>
     AcquireSlot_scan (wo_session w) = None \<Longrightarrow>
     session_step w (w\<lparr>wo_session := (wo_session w)\<lparr>se_free := se_free (wo_session w) + 1\<rparr>,
                       wo_pcs := (wo_pcs w)[i := Outside]\<rparr>)"
| release:
    "i < length (wo_pcs w) \<Longrightarrow> wo_pcs w ! i = Leased l \<Longrightarrow>
     session_step w (w\<lparr>wo_session := release_slot advance l (wo_session w),
                       wo_pcs := (wo_pcs w)[i := Returning],
                       wo_log := wo_log w @ [(le_slotID l, le_seq l, advance)]\<rparr>)"
| send_token:
    "i < length (wo_pcs w) \<Longrightarrow> wo_pcs w ! i = Returning \<Longrightarrow>
     se_free (wo_session w) < SlotCount (wo_session w) \<Longrightarrow>
     session_step w (w\<lparr>wo_session := (wo_session w)\<lparr>se_free := se_free (wo_session w) + 1\<rparr>,
                       wo_pcs := (wo_pcs w)[i := Outside]\<rparr>)"

definition session_start :: "SessionID \<Rightarrow> int \<Rightarrow> nat \<Rightarrow> world" where
  "session_start sid slotCount n =
     \<lparr>wo_session = NewSession sid slotCount, wo_pcs = replicate n Outside, wo_log = []\<rparr>"

definition session_reach :: "world \<Rightarrow> world \<Rightarrow> bool" where
  "session_reach = session_step\<^sup>*\<^sup>*"

inductive_cases session_stepE: "session_step w w'"


subsection \<open>The invariant\<close>

text \<open>How many elements satisfy a predicate.\<close>

definition num :: "('a \<Rightarrow> bool) \<Rightarrow> 'a list \<Rightarrow> nat" where
  "num P xs = length (filter P xs)"

lemma num_simps [simp]:
  "num P [] = 0" "num P (x # xs) = of_bool (P x) + num P xs" "num P (xs @ ys) = num P xs + num P ys"
  by (simp_all add: num_def)

lemma num_update:
  "i < length xs \<Longrightarrow> num P (xs[i := v]) + of_bool (P (xs ! i)) = num P xs + of_bool (P v)"
proof (induction xs arbitrary: i)
  case Nil
  then show ?case by simp
next
  case (Cons x xs)
  then show ?case by (cases i) (auto simp: algebra_simps)
qed

lemma num_pos: "i < length xs \<Longrightarrow> P (xs ! i) \<Longrightarrow> 0 < num P xs"
  by (auto simp: num_def filter_empty_conv)

lemma num_replicate: "num P (replicate n x) = (if P x then n else 0)"
  by (simp add: num_def)

lemma first_free_Some:
  "first_free i sls = Some j \<Longrightarrow> i \<le> j \<and> j < i + length sls \<and> \<not> sl_inUse (sls ! (j - i))"
proof (induction sls arbitrary: i)
  case Nil
  then show ?case by simp
next
  case (Cons sl sls)
  then show ?case
    by (cases "sl_inUse sl") (fastforce simp: nth_Cons' dest!: Cons.IH)+
qed

lemma first_free_None: "first_free i sls = None \<longleftrightarrow> num (\<lambda>sl. \<not> sl_inUse sl) sls = 0"
  by (induction sls arbitrary: i) auto

text \<open>
  Tokens: those in the channel, those taken and not yet used, and those still to be sent back are
  together as many as there are free slots; and there are as many leases as slots in use.
\<close>

abbreviation (input) is_leased :: "pc \<Rightarrow> bool" where
  "is_leased p \<equiv> p \<notin> {Outside, HasToken, Returning}"

definition tokens_inv :: "world \<Rightarrow> bool" where
  "tokens_inv w \<longleftrightarrow>
     se_free (wo_session w) + num (\<lambda>p. p = HasToken) (wo_pcs w) + num (\<lambda>p. p = Returning) (wo_pcs w)
       = num (\<lambda>sl. \<not> sl_inUse sl) (se_slots (wo_session w)) \<and>
     num is_leased (wo_pcs w) = num sl_inUse (se_slots (wo_session w))"

text \<open>Leases: each is on a slot in use, at the slot's sequence id, and no two on the same slot.\<close>

definition lease_ok :: "slot list \<Rightarrow> slotLease \<Rightarrow> bool" where
  "lease_ok sls l \<longleftrightarrow>
     unat (le_slotID l) < length sls \<and> sl_inUse (sls ! unat (le_slotID l)) \<and>
     le_seq l = sl_seq (sls ! unat (le_slotID l))"

definition leases_distinct :: "pc list \<Rightarrow> bool" where
  "leases_distinct pcs \<longleftrightarrow>
     (\<forall>i < length pcs. \<forall>j < length pcs. \<forall>l m. i \<noteq> j \<longrightarrow> pcs ! i = Leased l \<longrightarrow> pcs ! j = Leased m \<longrightarrow>
        le_slotID l \<noteq> le_slotID m)"

definition leases_inv :: "world \<Rightarrow> bool" where
  "leases_inv w \<longleftrightarrow>
     length (se_slots (wo_session w)) \<le> 2 ^ 32 \<and>
     (\<forall>l. Leased l \<in> set (wo_pcs w) \<longrightarrow> lease_ok (se_slots (wo_session w)) l) \<and>
     leases_distinct (wo_pcs w)"

text \<open>How often the log advances the sequence id of a slot.\<close>

definition advances :: "u32 \<Rightarrow> (u32 \<times> u32 \<times> bool) list \<Rightarrow> nat" where
  "advances sl log = num (\<lambda>(sl', sq, adv). sl' = sl \<and> adv) log"

definition log_inv :: "world \<Rightarrow> bool" where
  "log_inv w \<longleftrightarrow>
     (\<forall>k < length (se_slots (wo_session w)).
        sl_seq (se_slots (wo_session w) ! k) = 1 + word_of_nat (advances (word_of_nat k) (wo_log w))) \<and>
     (\<forall>p < length (wo_log w). \<forall>sl sq adv. wo_log w ! p = (sl, sq, adv) \<longrightarrow>
        sq = 1 + word_of_nat (advances sl (take p (wo_log w))))"

lemma scan_facts:
  assumes "AcquireSlot_scan s = Some (l, s')" and "length (se_slots s) \<le> 2 ^ 32"
  obtains i where "i < length (se_slots s)" "\<not> sl_inUse (se_slots s ! i)"
    "s' = s\<lparr>se_slots := (se_slots s)[i := (se_slots s ! i)\<lparr>sl_inUse := True\<rparr>], se_highest := max (word_of_nat i) (se_highest s)\<rparr>"
    "le_slotID l = word_of_nat i" "unat (le_slotID l) = i" "le_seq l = sl_seq (se_slots s ! i)"
    "le_highest l = se_highest s'" "\<not> le_released l"
proof -
  from assms(1) obtain i where i: "first_free 0 (se_slots s) = Some i"
    by (auto simp: AcquireSlot_scan_def split: option.splits)
  have len: "i < length (se_slots s)" "\<not> sl_inUse (se_slots s ! i)"
    using first_free_Some [OF i] by auto
  with assms(2) have "unat (word_of_nat i :: u32) = i" by (simp add: unat_word_of_nat_u32)
  then show ?thesis
    using assms(1) i len
    by (intro that [of i]) (auto simp: AcquireSlot_scan_def Let_def max_def not_less split: if_splits)
qed

text \<open>What a step of one goroutine does to the numbers of goroutines in each phase.\<close>

lemmas num_pcs =
  num_update [of i pcs "\<lambda>p. p = HasToken" p] num_update [of i pcs "\<lambda>p. p = Returning" p] num_update [of i pcs is_leased p] for i pcs p

lemma tokens_step:
  assumes "session_step w w'" and "tokens_inv w" and "leases_inv w"
  shows "tokens_inv w'"
  using assms
proof (induction rule: session_step.induct)
  case (take_token i w)
  then show ?case
    using num_pcs [of i "wo_pcs w" HasToken]
    by (simp add: tokens_inv_def)
next
  case (scan i w l s)
  from scan.prems have "length (se_slots (wo_session w)) \<le> 2 ^ 32" by (simp add: leases_inv_def)
  then obtain k where k: "k < length (se_slots (wo_session w))" "\<not> sl_inUse (se_slots (wo_session w) ! k)"
      "s = (wo_session w)\<lparr>se_slots := (se_slots (wo_session w))[k := (se_slots (wo_session w) ! k)\<lparr>sl_inUse := True\<rparr>],
             se_highest := max (word_of_nat k) (se_highest (wo_session w))\<rparr>"
    by (rule scan_facts [OF scan.hyps(3)])
  then show ?case
    using scan num_pcs [of i "wo_pcs w" "Leased l"]
      num_update [OF k(1), of sl_inUse "(se_slots (wo_session w) ! k)\<lparr>sl_inUse := True\<rparr>"]
      num_update [OF k(1), of "\<lambda>sl. \<not> sl_inUse sl" "(se_slots (wo_session w) ! k)\<lparr>sl_inUse := True\<rparr>"]
    by (simp add: tokens_inv_def)
next
  case (scan_fails i w)
  then show ?case
    using num_pcs [of i "wo_pcs w" Outside]
    by (simp add: tokens_inv_def)
next
  case (release i w l adv)
  let ?sls = "se_slots (wo_session w)"
  let ?k = "unat (le_slotID l)"
  let ?v = "(if adv then (?sls ! ?k)\<lparr>sl_seq := sl_seq (?sls ! ?k) + 1\<rparr> else ?sls ! ?k)\<lparr>sl_inUse := False\<rparr>"
  have "Leased l \<in> set (wo_pcs w)" using release by (metis nth_mem)
  then have "?k < length ?sls" "sl_inUse (?sls ! ?k)"
    using release by (auto simp: leases_inv_def lease_ok_def)
  then show ?case
    using release num_pcs [of i "wo_pcs w" Returning] num_update [of ?k ?sls sl_inUse ?v]
      num_update [of ?k ?sls "\<lambda>sl. \<not> sl_inUse sl" ?v]
    by (simp add: tokens_inv_def release_slot_def Let_def)
next
  case (send_token i w)
  then show ?case
    using num_pcs [of i "wo_pcs w" Outside]
    by (simp add: tokens_inv_def)
qed

lemma leases_distinctD:
  "leases_distinct pcs \<Longrightarrow> i < length pcs \<Longrightarrow> j < length pcs \<Longrightarrow> i \<noteq> j \<Longrightarrow> pcs ! i = Leased l \<Longrightarrow>
   pcs ! j = Leased m \<Longrightarrow> le_slotID l \<noteq> le_slotID m"
  unfolding leases_distinct_def by blast

lemma leases_distinct_update:
  assumes d: "leases_distinct pcs" and p: "\<And>j l m. j < length pcs \<Longrightarrow> j \<noteq> i \<Longrightarrow> pcs ! j = Leased m \<Longrightarrow> p = Leased l \<Longrightarrow>
      le_slotID m \<noteq> le_slotID l"
  shows "leases_distinct (pcs[i := p])"
  unfolding leases_distinct_def length_list_update
proof (intro allI impI)
  fix j k l m
  assume j: "j < length pcs" and k: "k < length pcs" and ne: "j \<noteq> k"
    and l: "pcs[i := p] ! j = Leased l" and m: "pcs[i := p] ! k = Leased m"
  consider "j = i" | "k = i" "j \<noteq> i" | "j \<noteq> i" "k \<noteq> i" by blast
  then show "le_slotID l \<noteq> le_slotID m"
  proof cases
    case 1
    then show ?thesis using p [of k m l] j k l m ne by auto
  next
    case 2
    then show ?thesis using p [of j l m] j k l m ne by auto
  next
    case 3
    then show ?thesis using leases_distinctD [OF d j k ne] l m by simp
  qed
qed

lemma leases_drop:
  assumes "leases_inv w" and "\<And>l. p \<noteq> Leased l" and "se_slots s = se_slots (wo_session w)"
  shows "leases_inv (w\<lparr>wo_session := s, wo_pcs := (wo_pcs w)[i := p]\<rparr>)"
proof -
  have "Leased l \<in> set (wo_pcs w)" if "Leased l \<in> set ((wo_pcs w)[i := p])" for l
    using that set_update_subset_insert [of "wo_pcs w" i p] assms(2) [of l] by auto
  moreover have "leases_distinct ((wo_pcs w)[i := p])"
    using assms(1,2) by (intro leases_distinct_update) (auto simp: leases_inv_def)
  ultimately show ?thesis using assms(1,3) by (simp add: leases_inv_def)
qed

lemma leases_scan:
  assumes inv: "leases_inv w" and sc: "AcquireSlot_scan (wo_session w) = Some (l, s)"
  shows "leases_inv (w\<lparr>wo_session := s, wo_pcs := (wo_pcs w)[i := Leased l]\<rparr>)"
proof -
  let ?sls = "se_slots (wo_session w)"
  have len: "length ?sls \<le> 2 ^ 32" using inv by (simp add: leases_inv_def)
  obtain k where k: "k < length ?sls" "\<not> sl_inUse (?sls ! k)"
      "s = (wo_session w)\<lparr>se_slots := ?sls[k := (?sls ! k)\<lparr>sl_inUse := True\<rparr>],
             se_highest := max (word_of_nat k) (se_highest (wo_session w))\<rparr>"
      "unat (le_slotID l) = k" "le_seq l = sl_seq (?sls ! k)"
    by (rule scan_facts [OF sc len])
  have old: "lease_ok (se_slots s) m \<and> unat (le_slotID m) \<noteq> k" if "Leased m \<in> set (wo_pcs w)" for m
  proof -
    have "lease_ok ?sls m" using inv that by (simp add: leases_inv_def)
    moreover from this have "unat (le_slotID m) \<noteq> k" using k(2) by (auto simp: lease_ok_def)
    ultimately show ?thesis by (simp add: lease_ok_def k(3))
  qed
  have "lease_ok (se_slots s) l" using k by (simp add: lease_ok_def)
  then have "lease_ok (se_slots s) m" if "Leased m \<in> set ((wo_pcs w)[i := Leased l])" for m
    using that old set_update_subset_insert [of "wo_pcs w" i "Leased l"] by auto
  moreover have "le_slotID m \<noteq> le_slotID l" if "j < length (wo_pcs w)" "wo_pcs w ! j = Leased m" for j m
    using old [of m] that k(4) by (metis nth_mem)
  then have "leases_distinct ((wo_pcs w)[i := Leased l])"
    using inv by (intro leases_distinct_update) (auto simp: leases_inv_def)
  ultimately show ?thesis using len by (simp add: leases_inv_def k(3))
qed

lemma leases_release:
  assumes inv: "leases_inv w" and i: "i < length (wo_pcs w)" "wo_pcs w ! i = Leased l"
  shows "leases_inv (w\<lparr>wo_session := release_slot adv l (wo_session w), wo_pcs := (wo_pcs w)[i := Returning],
           wo_log := log\<rparr>)"
proof -
  let ?sls = "se_slots (wo_session w)"
  have "lease_ok (se_slots (release_slot adv l (wo_session w))) m"
    if m: "Leased m \<in> set ((wo_pcs w)[i := Returning])" for m
  proof -
    obtain j where j: "j < length (wo_pcs w)" "(wo_pcs w)[i := Returning] ! j = Leased m"
      using m by (auto simp: in_set_conv_nth)
    then have "j \<noteq> i" using i(1) by auto
    moreover from this have "wo_pcs w ! j = Leased m" using j(2) by simp
    ultimately have "le_slotID m \<noteq> le_slotID l" and "lease_ok ?sls m"
      using j(1) i inv nth_mem [of j "wo_pcs w"] unfolding leases_inv_def leases_distinct_def by metis+
    then show ?thesis
      by (auto simp: lease_ok_def release_slot_def Let_def word_unat_eq_iff)
  qed
  moreover have "leases_distinct ((wo_pcs w)[i := Returning])"
    using inv by (intro leases_distinct_update) (auto simp: leases_inv_def)
  ultimately show ?thesis
    using inv by (simp add: leases_inv_def release_slot_def Let_def)
qed

lemma leases_step: "session_step w w' \<Longrightarrow> leases_inv w \<Longrightarrow> leases_inv w'"
proof (induction rule: session_step.induct)
  case (scan i w l s)
  then show ?case by (intro leases_scan)
next
  case (release i w l adv)
  then show ?case by (intro leases_release)
qed (rule leases_drop; simp)+

lemma log_step:
  assumes "session_step w w'" and "log_inv w" and "leases_inv w"
  shows "log_inv w'"
  using assms
proof (induction rule: session_step.induct)
  case (scan i w l s)
  from scan.prems have "length (se_slots (wo_session w)) \<le> 2 ^ 32" by (simp add: leases_inv_def)
  then obtain k where "k < length (se_slots (wo_session w))"
      "s = (wo_session w)\<lparr>se_slots := (se_slots (wo_session w))[k := (se_slots (wo_session w) ! k)\<lparr>sl_inUse := True\<rparr>],
             se_highest := max (word_of_nat k) (se_highest (wo_session w))\<rparr>"
    by (rule scan_facts [OF scan.hyps(3)])
  with scan.prems show ?case by (auto simp: log_inv_def nth_list_update)
next
  case (release i w l adv)
  let ?k = "unat (le_slotID l)"
  have l: "?k < length (se_slots (wo_session w))" "le_seq l = sl_seq (se_slots (wo_session w) ! ?k)"
    and len: "length (se_slots (wo_session w)) \<le> 2 ^ 32"
    using release nth_mem [of i "wo_pcs w"] by (auto simp: leases_inv_def lease_ok_def)
  then have seq: "le_seq l = 1 + word_of_nat (advances (le_slotID l) (wo_log w))"
    using release.prems(1) by (simp add: log_inv_def)
  have id: "word_of_nat k = le_slotID l \<longleftrightarrow> k = ?k" if "k < length (se_slots (wo_session w))" for k
    using that len by (auto simp: word_unat_eq_iff unat_word_of_nat_u32)
  have "sl_seq (se_slots (release_slot adv l (wo_session w)) ! k) =
      1 + word_of_nat (advances (word_of_nat k) (wo_log w @ [(le_slotID l, le_seq l, adv)]))"
    if "k < length (se_slots (wo_session w))" for k
    using that release.prems(1) l(1) id [OF that]
    by (auto simp: log_inv_def release_slot_def Let_def nth_list_update advances_def)
  moreover have "length (se_slots (release_slot adv l (wo_session w))) = length (se_slots (wo_session w))"
    by (simp add: release_slot_def Let_def)
  ultimately show ?case
    using release.prems(1) seq by (auto simp: log_inv_def nth_append less_Suc_eq)
qed (auto simp: log_inv_def)

definition session_inv :: "world \<Rightarrow> bool" where
  "session_inv w \<longleftrightarrow> tokens_inv w \<and> leases_inv w \<and> log_inv w"

lemma session_inv_step: "session_step w w' \<Longrightarrow> session_inv w \<Longrightarrow> session_inv w'"
  by (auto simp: session_inv_def intro: tokens_step leases_step log_step)

lemma session_inv_start:
  "slotCount \<le> 2 ^ 32 \<Longrightarrow> session_inv (session_start sid slotCount n)"
  by (auto simp: session_inv_def tokens_inv_def leases_inv_def log_inv_def session_start_def NewSession_def
      Let_def num_replicate advances_def leases_distinct_def)

lemma session_inv_reach: "session_reach w w' \<Longrightarrow> session_inv w \<Longrightarrow> session_inv w'"
  unfolding session_reach_def by (induction rule: rtranclp_induct) (auto intro: session_inv_step)

lemma SlotCount_step: "session_step w w' \<Longrightarrow> SlotCount (wo_session w') = SlotCount (wo_session w)"
  by (induction rule: session_step.induct)
    (auto simp: SlotCount_def release_slot_def Let_def AcquireSlot_scan_def split: option.splits if_splits)

lemma inv_scan_succeeds:
  assumes "session_inv w" "i < length (wo_pcs w)" "wo_pcs w ! i = HasToken"
  shows "AcquireSlot_scan (wo_session w) \<noteq> None"
proof -
  have "0 < num (\<lambda>sl. \<not> sl_inUse sl) (se_slots (wo_session w))"
    using assms num_pos [of i "wo_pcs w" "\<lambda>p. p = HasToken"]
    by (auto simp: session_inv_def tokens_inv_def)
  then have "first_free 0 (se_slots (wo_session w)) \<noteq> None"
    using first_free_None [of 0 "se_slots (wo_session w)"] by simp
  then show ?thesis by (auto simp: AcquireSlot_scan_def Let_def)
qed

lemma num_le_length: "num P xs \<le> length xs"
  by (simp add: num_def)

lemma inv_send_ready:
  assumes "session_inv w" "i < length (wo_pcs w)" "wo_pcs w ! i = Returning"
  shows "se_free (wo_session w) < SlotCount (wo_session w)"
  using assms num_pos [of i "wo_pcs w" "\<lambda>p. p = Returning"]
    num_le_length [of "\<lambda>sl. \<not> sl_inUse sl" "se_slots (wo_session w)"]
  by (auto simp: session_inv_def tokens_inv_def SlotCount_def)

text \<open>No goroutine is left waiting for something no other goroutine will do.\<close>

lemma inv_no_deadlock:
  assumes inv: "session_inv w" and "wo_pcs w \<noteq> []" and slots: "0 < SlotCount (wo_session w)"
  shows "\<exists>w'. session_step w w'"
proof (cases "\<exists>i < length (wo_pcs w). wo_pcs w ! i \<noteq> Outside")
  case True
  then obtain i where i: "i < length (wo_pcs w)" "wo_pcs w ! i \<noteq> Outside" by blast
  show ?thesis
  proof (cases "wo_pcs w ! i")
    case HasToken
    then obtain l s where "AcquireSlot_scan (wo_session w) = Some (l, s)"
      using inv_scan_succeeds [OF inv i(1)] by auto
    from session_step.scan [OF i(1) HasToken this] show ?thesis by (rule exI)
  next
    case (Leased l)
    from session_step.release [OF i(1) this] show ?thesis by (rule exI)
  next
    case Returning
    from session_step.send_token [OF i(1) this inv_send_ready [OF inv i(1) this]]
    show ?thesis by (rule exI)
  qed (use i in simp)
next
  case False
  then have all: "set (wo_pcs w) \<subseteq> {Outside}" by (auto simp: in_set_conv_nth)
  have none: "num P (wo_pcs w) = 0" if "\<not> P Outside" for P
    using all that by (auto simp: num_def filter_empty_conv)
  have "num sl_inUse (se_slots (wo_session w)) = 0"
    using inv none [of is_leased] by (simp add: session_inv_def tokens_inv_def)
  moreover have "num sl_inUse sls + num (\<lambda>sl. \<not> sl_inUse sl) sls = length sls" for sls
    by (induction sls) auto
  from this [of "se_slots (wo_session w)"]
  have "num sl_inUse (se_slots (wo_session w)) + num (\<lambda>sl. \<not> sl_inUse sl) (se_slots (wo_session w))
      = SlotCount (wo_session w)"
    by (simp add: SlotCount_def)
  ultimately have "num (\<lambda>sl. \<not> sl_inUse sl) (se_slots (wo_session w)) = SlotCount (wo_session w)"
    by simp
  then have "0 < se_free (wo_session w)"
    using inv none [of "\<lambda>p. p = HasToken"] none [of "\<lambda>p. p = Returning"] slots
    by (simp add: session_inv_def tokens_inv_def)
  moreover have "0 < length (wo_pcs w)" "wo_pcs w ! 0 = Outside"
    using assms(2) False by auto
  ultimately show ?thesis using session_step.take_token [of 0 w] by (intro exI)
qed

lemma SlotCount_reach: "session_reach w w' \<Longrightarrow> SlotCount (wo_session w') = SlotCount (wo_session w)"
  unfolding session_reach_def by (induction rule: rtranclp_induct) (auto simp: SlotCount_step)

lemma length_pcs_step: "session_step w w' \<Longrightarrow> length (wo_pcs w') = length (wo_pcs w)"
  by (induction rule: session_step.induct) simp_all

lemma length_pcs_reach: "session_reach w w' \<Longrightarrow> length (wo_pcs w') = length (wo_pcs w)"
  unfolding session_reach_def by (induction rule: rtranclp_induct) (auto simp: length_pcs_step)

lemma SlotCount_start: "0 < SlotCount (wo_session (session_start sid slotCount n))"
  by (simp add: SlotCount_def session_start_def NewSession_def Let_def)

lemma advances_le: "p \<le> q \<Longrightarrow> advances sl (take p log) \<le> advances sl (take q log)"
  by (auto simp: advances_def take_add le_iff_add)

lemma advances_Suc:
  "p < length log \<Longrightarrow> log ! p = (sl, sq, True) \<Longrightarrow> advances sl (take (Suc p) log) = Suc (advances sl (take p log))"
  by (simp add: advances_def take_Suc_conv_app_nth)

lemma log_seqs_differ:
  assumes "log_inv w" and p: "p < q" "q < length (wo_log w)" "wo_log w ! p = (sl, sq, True)"
    and q: "wo_log w ! q = (sl, sq', adv)" and small: "advances sl (wo_log w) < 2 ^ 32"
  shows "sq \<noteq> sq'"
proof -
  let ?a = "\<lambda>r. advances sl (take r (wo_log w))"
  have "sq = 1 + word_of_nat (?a p)" "sq' = 1 + word_of_nat (?a q)"
    using assms(1) p q less_trans [OF p(1,2)] unfolding log_inv_def by blast+
  moreover have lt: "?a p < ?a q"
    using advances_Suc [of p "wo_log w" sl sq] advances_le [of "Suc p" q sl "wo_log w"] p by simp
  have "?a q \<le> advances sl (wo_log w)"
    using advances_le [of q "length (wo_log w)" sl "wo_log w"] p by simp
  then have "?a q < 2 ^ 32" using small by simp
  then have "unat (word_of_nat (?a p) :: u32) = ?a p" "unat (word_of_nat (?a q) :: u32) = ?a q"
    using lt by (simp_all add: unat_word_of_nat_u32)
  then have "(word_of_nat (?a p) :: u32) \<noteq> word_of_nat (?a q)"
    using lt by auto
  ultimately show ?thesis by simp
qed

subsection \<open>The table between calls\<close>

text \<open>
  When no lease is held (between the calls of a client that makes them one after another), all
  tokens are in the channel and a lease is always the first slot.
\<close>

definition session_idle :: "Session \<Rightarrow> bool" where
  "session_idle s \<longleftrightarrow>
     se_slots s \<noteq> [] \<and> list_all (\<lambda>sl. \<not> sl_inUse sl) (se_slots s) \<and> se_free s = length (se_slots s)"

lemma session_idle_New [simp]: "session_idle (NewSession sid n)"
  by (simp add: session_idle_def NewSession_def Let_def list_all_length)

lemma AcquireSlot_idle:
  assumes "session_idle s"
  shows "AcquireSlot None s =
    Some (Inr \<lparr>le_slotID = 0, le_seq = sl_seq (se_slots s ! 0), le_highest = se_highest s, le_released = False\<rparr>,
          s\<lparr>se_free := se_free s - 1, se_slots := (se_slots s)[0 := (se_slots s ! 0)\<lparr>sl_inUse := True\<rparr>]\<rparr>)"
  using assms
  by (cases "se_slots s") (auto simp: session_idle_def AcquireSlot_def AcquireSlot_scan_def Let_def)

lemma release_idle:
  assumes "session_idle s" and "AcquireSlot None s = Some (Inr l, s1)"
  shows "snd (slotLease_release adv l s1) =
    s\<lparr>se_slots := (se_slots s)[0 := (se_slots s ! 0)\<lparr>sl_seq := sl_seq (se_slots s ! 0) + of_bool adv\<rparr>]\<rparr>"
    and "session_idle (snd (slotLease_release adv l s1))"
proof -
  obtain sl sls where sl: "se_slots s = sl # sls" using assms(1) by (cases "se_slots s") (auto simp: session_idle_def)
  have "\<not> sl_inUse sl" "se_free s = Suc (length sls)" using assms(1) sl by (auto simp: session_idle_def)
  moreover have "sl\<lparr>sl_inUse := False\<rparr> = sl" if "\<not> sl_inUse sl" for sl using that by (cases sl) simp
  ultimately show eq: "snd (slotLease_release adv l s1) =
      s\<lparr>se_slots := (se_slots s)[0 := (se_slots s ! 0)\<lparr>sl_seq := sl_seq (se_slots s ! 0) + of_bool adv\<rparr>]\<rparr>"
    using assms sl
    by (cases s; cases sl) (auto simp: AcquireSlot_idle slotLease_release_def release_slot_def Let_def)
  show "session_idle (snd (slotLease_release adv l s1))"
    unfolding eq using assms(1) by (auto simp: session_idle_def sl)
qed

subsection \<open>Properties\<close>

text \<open>A run of two goroutines on one slot: the first takes it, uses it and gives it back.\<close>

definition sample_world :: world where
  "sample_world =
     \<lparr>wo_session = \<lparr>se_id = [], se_slots = [\<lparr>sl_seq = 2, sl_inUse = False\<rparr>], se_highest = 0, se_free = 0\<rparr>,
      wo_pcs = [Returning, Outside], wo_log = [(0, 1, True)]\<rparr>"

lemma sample_reach: "session_reach (session_start [] 1 2) sample_world"
proof -
  let ?w0 = "session_start [] 1 2"
  let ?w1 = "?w0\<lparr>wo_session := (wo_session ?w0)\<lparr>se_free := se_free (wo_session ?w0) - 1\<rparr>,
                 wo_pcs := (wo_pcs ?w0)[0 := HasToken]\<rparr>"
  let ?l = "\<lparr>le_slotID = 0, le_seq = 1, le_highest = 0, le_released = False\<rparr>"
  let ?s = "(wo_session ?w1)\<lparr>se_slots := [\<lparr>sl_seq = 1, sl_inUse = True\<rparr>]\<rparr>"
  let ?w2 = "?w1\<lparr>wo_session := ?s, wo_pcs := (wo_pcs ?w1)[0 := Leased ?l]\<rparr>"
  let ?w3 = "?w2\<lparr>wo_session := release_slot True ?l (wo_session ?w2), wo_pcs := (wo_pcs ?w2)[0 := Returning],
                 wo_log := wo_log ?w2 @ [(le_slotID ?l, le_seq ?l, True)]\<rparr>"
  note defs = session_start_def NewSession_def numeral_2_eq_2
  have 1: "session_step ?w0 ?w1" by (rule session_step.take_token) (simp_all add: defs)
  have 2: "session_step ?w1 ?w2"
    by (rule session_step.scan) (simp_all add: defs AcquireSlot_scan_def)
  have 3: "session_step ?w2 ?w3" by (rule session_step.release) (simp_all add: defs)
  have "?w3 = sample_world" by (simp add: sample_world_def defs release_slot_def)
  with 1 2 3 show ?thesis
    unfolding session_reach_def by (metis (no_types, lifting) rtranclp.simps)
qed

text \<open>C13: In every state that any number of goroutines can bring a session to, no two goroutines
  hold the same slot; a lease is on a slot of the table with the sequence id the table has for it; a
  goroutine that got a token always finds a free slot, so the fallback the source calls unreachable
  is; and sending a token back never blocks on a full channel.\<close>

theorem session_slots_exclusive:
  assumes "slotCount \<le> 2 ^ 32" and "session_reach (session_start sid slotCount n) w"
  shows "(\<forall>i < length (wo_pcs w). \<forall>j < length (wo_pcs w). \<forall>l m.
            i \<noteq> j \<longrightarrow> wo_pcs w ! i = Leased l \<longrightarrow> wo_pcs w ! j = Leased m \<longrightarrow> le_slotID l \<noteq> le_slotID m) \<and>
         (\<forall>l. Leased l \<in> set (wo_pcs w) \<longrightarrow>
            unat (le_slotID l) < SlotCount (wo_session w) \<and>
            le_seq l = sl_seq (se_slots (wo_session w) ! unat (le_slotID l))) \<and>
         (\<forall>i < length (wo_pcs w). wo_pcs w ! i = HasToken \<longrightarrow> AcquireSlot_scan (wo_session w) \<noteq> None) \<and>
         (\<forall>i < length (wo_pcs w). wo_pcs w ! i = Returning \<longrightarrow>
            se_free (wo_session w) < SlotCount (wo_session w))"
proof -
  have inv: "session_inv w"
    using session_inv_reach [OF assms(2)] session_inv_start [OF assms(1)] by blast
  then have "leases_distinct (wo_pcs w)"
    and ok: "\<forall>l. Leased l \<in> set (wo_pcs w) \<longrightarrow> lease_ok (se_slots (wo_session w)) l"
    by (simp_all add: session_inv_def leases_inv_def)
  then show ?thesis
    using inv_scan_succeeds [OF inv] inv_send_ready [OF inv]
    unfolding leases_distinct_def lease_ok_def SlotCount_def by blast
qed

theorem session_slots_exclusive_witness:
  "se_free (wo_session sample_world) < SlotCount (wo_session sample_world)"
proof -
  have i: "0 < length (wo_pcs sample_world)" "wo_pcs sample_world ! 0 = Returning"
    by (simp_all add: sample_world_def)
  have "(1 :: int) \<le> 2 ^ 32" by simp
  from session_slots_exclusive [OF this sample_reach] i show ?thesis by blast
qed

text \<open>C15: The sequence ids sent on a slot: the use of a slot at any point of a run carries one plus
  the number of earlier uses of the slot that were advanced, so a retried use repeats its id, an
  advanced one moves to the next, and as long as a slot is advanced fewer than \<open>2 ^ 32\<close> times an
  advanced id is never used again.\<close>

theorem session_sequence_ids:
  assumes "slotCount \<le> 2 ^ 32" and "session_reach (session_start sid slotCount n) w"
    and "q < length (wo_log w)" and "wo_log w ! q = (sl, sq, adv)"
  shows "sq = 1 + word_of_nat (advances sl (take q (wo_log w))) \<and>
         (\<forall>p sq'. p < q \<and> wo_log w ! p = (sl, sq', True) \<and> advances sl (wo_log w) < 2 ^ 32 \<longrightarrow> sq' \<noteq> sq)"
proof -
  have log: "log_inv w"
    using session_inv_reach [OF assms(2)] session_inv_start [OF assms(1)] by (simp add: session_inv_def)
  then show ?thesis
    using assms(3,4) log_seqs_differ [OF log _ assms(3) _ assms(4)] unfolding log_inv_def by blast
qed

theorem session_sequence_ids_witness:
  "wo_log sample_world ! 0 = (0, 1, True) \<and> 1 = (1 :: u32) + word_of_nat (advances 0 (take 0 (wo_log sample_world)))"
  using session_sequence_ids [OF _ sample_reach, of 0 0 1 True] by (simp add: sample_world_def)

text \<open>C16: A session never deadlocks: in every state that goroutines using it can reach, one of
  them can take its next step.\<close>

theorem session_no_deadlock:
  assumes "slotCount \<le> 2 ^ 32" and "0 < n" and "session_reach (session_start sid slotCount n) w"
  shows "\<exists>w'. session_step w w'"
proof (rule inv_no_deadlock)
  show "session_inv w" using session_inv_reach [OF assms(3)] session_inv_start [OF assms(1)] by blast
  have "length (wo_pcs w) = n" using length_pcs_reach [OF assms(3)] by (simp add: session_start_def)
  then show "wo_pcs w \<noteq> []" using assms(2) by auto
  show "0 < SlotCount (wo_session w)" using SlotCount_reach [OF assms(3)] SlotCount_start by simp
qed

theorem session_no_deadlock_witness: "\<exists>w'. session_step sample_world w'"
  by (rule session_no_deadlock [OF _ _ sample_reach]) simp_all

end
