(* ===== verification/Callers.thy ===== *)
theory Callers
  imports Session
begin

text \<open>
  The callers stacked under a connection: \<open>src/nfs4/retry.go\<close> (retries with backoff) and the
  \<open>sessionCaller\<close> of \<open>src/nfs4/session.go\<close> (adds SEQUENCE), over a base caller.

  A \<open>CompoundCaller\<close> is a function that takes the compound, the result structs and the state of
  everything below it; \<open>None\<close> means that the call never returns. The store holds the sessions
  (shared by pointer between a connection and its caller) next to the rest of the world, which
  includes the network, the clock and the context.
\<close>

record 's store =
  st_world :: 's
  st_sessions :: "Session list"

type_synonym 's call = "Compound \<Rightarrow> res list \<Rightarrow> 's store \<Rightarrow> ((cresult \<times> res list) \<times> 's store) option"

text \<open>
  What the callers observe of the context: \<open>ctx.Err()\<close>, the branch a \<open>select\<close> on
  \<open>ctx.Done()\<close> takes, and a timed wait that the context can cut short.
\<close>

record 's goctx =
  cx_Err :: "'s store \<Rightarrow> goerror option \<times> 's store"
  cx_select :: "'s store \<Rightarrow> goerror option \<times> 's store"
  cx_wait :: "int \<Rightarrow> 's store \<Rightarrow> goerror option \<times> 's store"

subsection \<open>Retries\<close>

text \<open>Durations are in nanoseconds.\<close>

abbreviation (input) Millisecond :: int where "Millisecond \<equiv> 1000000"
abbreviation (input) DefaultRetryInitial :: int where "DefaultRetryInitial \<equiv> 10 * Millisecond"
abbreviation (input) DefaultRetryMax :: int where "DefaultRetryMax \<equiv> 1000 * Millisecond"
abbreviation (input) DefaultRetryMaxAttempts :: int where "DefaultRetryMaxAttempts \<equiv> 10"

record 's RetryConfig =
  rc_Initial :: int
  rc_Max :: int
  rc_MaxAttempts :: int
  rc_sleep :: "('s goctx \<Rightarrow> int \<Rightarrow> 's store \<Rightarrow> goerror option \<times> 's store) option"

definition sleepCtx :: "'s goctx \<Rightarrow> int \<Rightarrow> 's store \<Rightarrow> goerror option \<times> 's store" where
  "sleepCtx ctx d w = cx_wait ctx d w"

definition withDefaults :: "'s RetryConfig \<Rightarrow> 's RetryConfig" where
  "withDefaults cfg =
     (let cfg = (if rc_Initial cfg \<le> 0 then cfg\<lparr>rc_Initial := DefaultRetryInitial\<rparr> else cfg);
          cfg = (if rc_Max cfg \<le> 0 then cfg\<lparr>rc_Max := DefaultRetryMax\<rparr> else cfg);
          cfg = (if rc_MaxAttempts cfg < 1 then cfg\<lparr>rc_MaxAttempts := DefaultRetryMaxAttempts\<rparr> else cfg)
      in if rc_sleep cfg = None then cfg\<lparr>rc_sleep := Some sleepCtx\<rparr> else cfg)"

definition isRetriableStatus :: "Status \<Rightarrow> bool" where
  "isRetriableStatus s = (s = NFS4ERR_DELAY \<or> s = NFS4ERR_GRACE)"

fun retriable :: "cresult \<Rightarrow> bool" where
  "retriable (r, err) =
     ((case r of None \<Rightarrow> False | Some r \<Rightarrow> isRetriableStatus (cr_Status r)) \<or>
      (case err of None \<Rightarrow> False
       | Some e \<Rightarrow> errorHasStatus e NFS4ERR_DELAY \<or> errorHasStatus e NFS4ERR_GRACE))"

text \<open>\<open>delay *= 2; if delay > Max { delay = Max }\<close>.\<close>

definition next_delay :: "int \<Rightarrow> int \<Rightarrow> int" where
  "next_delay mx d = (let d = wrap64 (d * 2) in if d > mx then mx else d)"

text \<open>After the loop: the attempts are used up.\<close>

fun exhausted :: "cresult \<Rightarrow> cresult" where
  "exhausted (lastRes, lastErr) =
     (case (lastErr, lastRes) of
        (None, Some r) \<Rightarrow> (None, Status_Err (cr_Status r))
      | _ \<Rightarrow> (None, lastErr))"

text \<open>The loop with \<open>k\<close> attempts left. Calling a \<open>sleep\<close> that is nil panics, so the call does not
  return; \<open>withDefaults\<close> sees to it that there is one.\<close>

fun retry_loop ::
  "'s goctx \<Rightarrow> ('s goctx \<Rightarrow> int \<Rightarrow> 's store \<Rightarrow> goerror option \<times> 's store) option \<Rightarrow> int \<Rightarrow> 's call \<Rightarrow> Compound \<Rightarrow>
   nat \<Rightarrow> int \<Rightarrow> cresult \<Rightarrow> res list \<Rightarrow> 's store \<Rightarrow> ((cresult \<times> res list) \<times> 's store) option" where
  "retry_loop ctx sleep mx base c 0 delay last1 results w = Some ((exhausted last1, results), w)"
| "retry_loop ctx sleep mx base c (Suc k) delay last1 results w =
     (case cx_Err ctx w of
        (Some err, w) \<Rightarrow>
          Some (((None, Some (case snd last1 of Some e \<Rightarrow> e | None \<Rightarrow> err)), results), w)
      | (None, w) \<Rightarrow>
          (case base c results w of
             None \<Rightarrow> None
           | Some ((re, results), w) \<Rightarrow>
               if \<not> retriable re then Some ((re, results), w)
               else if k = 0 then Some ((exhausted re, results), w)
               else (case sleep of
                       None \<Rightarrow> None
                     | Some slp \<Rightarrow>
                         (case slp ctx delay w of
                            (Some serr, w) \<Rightarrow> Some (((None, Some serr), results), w)
                          | (None, w) \<Rightarrow>
                              retry_loop ctx sleep mx base c k (next_delay mx delay) re results w))))"

definition retryCaller_CallCompound :: "'s RetryConfig \<Rightarrow> 's goctx \<Rightarrow> 's call \<Rightarrow> 's call" where
  "retryCaller_CallCompound cfg ctx base c results w =
     retry_loop ctx (rc_sleep cfg) (rc_Max cfg) base c
       (nat (rc_MaxAttempts cfg)) (rc_Initial cfg) (None, None) results w"

subsection \<open>SEQUENCE\<close>

definition get_session :: "nat \<Rightarrow> 's store \<Rightarrow> Session" where
  "get_session i w = st_sessions w ! i"

definition put_session :: "nat \<Rightarrow> Session \<Rightarrow> 's store \<Rightarrow> 's store" where
  "put_session i s w = w\<lparr>st_sessions := (st_sessions w)[i := s]\<rparr>"

definition SequenceRes_zero :: res where
  "SequenceRes_zero = SequenceRes 0 (zeros 16) 0 0 0 0 0"

text \<open>The compound with SEQUENCE in front.\<close>

definition wrap_compound :: "SessionID \<Rightarrow> slotLease \<Rightarrow> Compound \<Rightarrow> Compound" where
  "wrap_compound sid lease c =
     foldl Compound_Add
       (Compound_Add ((NewCompound (cp_Tag c))\<lparr>cp_MinorVersion := cp_MinorVersion c\<rparr>)
          (ASequence \<lparr>sq_SessionID = sid, sq_SequenceID = le_seq lease, sq_SlotID = le_slotID lease,
             sq_HighestSlotID = le_highest lease, sq_CacheThis = False\<rparr>))
       (cp_ops c)"

definition sessionCaller_CallCompound :: "nat \<Rightarrow> 's goctx \<Rightarrow> 's call \<Rightarrow> 's call" where
  "sessionCaller_CallCompound i ctx base c results w =
     (case cx_select ctx w of
        (cancelled, w) \<Rightarrow>
          (case AcquireSlot cancelled (get_session i w) of
             None \<Rightarrow> None
           | Some (Inl err, s) \<Rightarrow> Some (((None, Some err), results), put_session i s w)
           | Some (Inr lease, s) \<Rightarrow>
               (let w = put_session i s w;
                    wrapped = wrap_compound (se_id s) lease c
                in case base wrapped (SequenceRes_zero # results) w of
                     None \<Rightarrow> None
                   | Some (((r, err), wrappedResults), w) \<Rightarrow>
                       (let seqRes = hd wrappedResults;
                            results = tl wrappedResults;
                            retried = put_session i (snd (slotLease_Retry lease (get_session i w))) w;
                            advanced = put_session i (snd (slotLease_Done lease (get_session i w))) w
                        in if err \<noteq> None then Some (((None, err), results), retried)
                           else if res_Status seqRes \<noteq> NFS4_OK
                           then Some (((None, Some (WrapF ''nfs4: SEQUENCE: %w'' []
                                         (StatusError (res_Status seqRes)))), results), advanced)
                           else Some (((map_option (\<lambda>r. if cr_NumResults r > 0
                                          then r\<lparr>cr_NumResults := cr_NumResults r - 1\<rparr> else r) r, None),
                                       results), advanced)))))"

subsection \<open>Stacks of callers\<close>

datatype 's caller =
    BaseCaller
  | SessionCaller nat "'s caller"
  | RetryCaller "'s RetryConfig" "'s caller"

definition newRetryCaller :: "'s caller \<Rightarrow> 's RetryConfig \<Rightarrow> 's caller" where
  "newRetryCaller base cfg = RetryCaller (withDefaults cfg) base"

definition newSessionCaller :: "'s caller \<Rightarrow> nat \<Rightarrow> 's caller" where
  "newSessionCaller base i = SessionCaller i base"

text \<open>\<open>caller.CallCompound(ctx, c, results)\<close>, with the base caller a parameter.\<close>

fun CallCompound :: "('s goctx \<Rightarrow> 's call) \<Rightarrow> 's caller \<Rightarrow> 's goctx \<Rightarrow> 's call" where
  "CallCompound base BaseCaller ctx = base ctx"
| "CallCompound base (SessionCaller i cl) ctx = sessionCaller_CallCompound i ctx (CallCompound base cl ctx)"
| "CallCompound base (RetryCaller cfg cl) ctx = retryCaller_CallCompound cfg ctx (CallCompound base cl ctx)"


subsection \<open>The contract of a compound caller\<close>

text \<open>
  What the connection relies on: the result structs come back with their types, and a call ends with
  a result or an error.
\<close>

locale compound_caller =
  fixes call :: "'s call"
  assumes keeps_types: "call c rs w = Some ((cr, rs'), w') \<Longrightarrow> map res_zero rs' = map res_zero rs"
    and result_or_error: "call c rs w = Some ((cr, rs'), w') \<Longrightarrow> cr \<noteq> (None, None)"
begin

lemma keeps_length: "call c rs w = Some ((cr, rs'), w') \<Longrightarrow> length rs' = length rs"
  using keeps_types [of c rs w cr rs' w'] by (metis length_map)

lemma keeps_nth: "call c rs w = Some ((cr, rs'), w') \<Longrightarrow> i < length rs \<Longrightarrow> res_zero (rs' ! i) = res_zero (rs ! i)"
  using keeps_types [of c rs w cr rs' w'] keeps_length [of c rs w cr rs' w'] by (metis nth_map)

lemma no_error_result: "call c rs w = Some (((r, None), rs'), w') \<Longrightarrow> \<exists>x. r = Some x"
  using result_or_error [of c rs w "(r, None)" rs' w'] by auto

end

text \<open>The base of every stack in the program: the RPC client.\<close>

definition rpc_call :: "'n peer \<Rightarrow> 'n rctx \<Rightarrow> 'n client call" where
  "rpc_call peer rctx c results w =
     (case RPCCaller_CallCompound peer rctx c results (st_world w) of
        (x, cl) \<Rightarrow> Some (x, w\<lparr>st_world := cl\<rparr>))"

lemma Call_ran_decoder:
  assumes "Call peer ctx prog vers proc ea (Some dr) cl = ((err, Some v), cl')"
  shows "\<exists>d d'. run_state dr d = (v, d')"
proof -
  have "\<exists>d d'. run_state dr d = (v, d')"
    if "decodeReply xid reply (Some dr) = (err, Some v)" for xid reply
    using that
    by (auto simp: decodeReply_def split: prod.splits sum.splits if_splits option.splits)
  then show ?thesis
    using assms by (auto simp: Call_def Let_def split: option.splits prod.splits sum.splits)
qed

lemma RPCCaller_keeps_types:
  assumes "RPCCaller_CallCompound peer ctx c rs cl = ((cr, rs'), cl')"
  shows "map res_zero rs' = map res_zero rs"
proof -
  obtain err v cl1 where call: "Call peer ctx Program Version4 ProcCompound (Some (Compound_Encode c))
      (Some (DecodeCompound rs)) cl = ((err, v), cl1)"
    by (metis prod.exhaust)
  show ?thesis
  proof (cases v)
    case None
    then show ?thesis
      using assms call by (auto simp: RPCCaller_CallCompound_def split: if_splits)
  next
    case (Some p)
    obtain out rs1 where p: "p = (out, rs1)" by (metis prod.exhaust)
    then have "rs' = rs1"
      using assms call Some
      by (auto simp: RPCCaller_CallCompound_def Let_def split: if_splits sum.splits)
    moreover obtain d d' where "run_state (DecodeCompound rs) d = ((out, rs1), d')"
      using Call_ran_decoder [OF call [unfolded Some p]] by blast
    ultimately show ?thesis using DecodeCompound_frame by blast
  qed
qed

interpretation rpc: compound_caller "rpc_call peer rctx" for peer rctx
proof
  show "map res_zero rs' = map res_zero rs" if "rpc_call peer rctx c rs w = Some ((cr, rs'), w')" for c rs w cr rs' w'
    using that by (auto simp: rpc_call_def split: prod.splits dest: RPCCaller_keeps_types)
  show "cr \<noteq> (None, None)" if "rpc_call peer rctx c rs w = Some ((cr, rs'), w')" for c rs w cr rs' w'
    using that CallCompound_no_nil [of peer rctx c rs "st_world w"]
    by (auto simp: rpc_call_def split: prod.splits)
qed

lemma retry_loop_keeps_types:
  assumes "compound_caller base"
  shows "retry_loop ctx sl mx base c k delay last1 rs w = Some ((cr, rs'), w') \<Longrightarrow>
         map res_zero rs' = map res_zero rs"
proof (induction k arbitrary: delay last1 rs w)
  case 0
  then show ?case by simp
next
  case (Suc k)
  show ?case
  proof (cases "cx_Err ctx w")
    case (Pair err w1)
    show ?thesis
    proof (cases err)
      case (Some e)
      then show ?thesis using Suc.prems Pair by simp
    next
      case None
      obtain re rs1 w2 where b: "base c rs w1 = Some ((re, rs1), w2)"
        using Suc.prems Pair None by (auto split: option.splits)
      then have t: "map res_zero rs1 = map res_zero rs"
        by (rule compound_caller.keeps_types [OF assms])
      show ?thesis
        using Suc.prems Pair None b t Suc.IH
        by (auto split: if_splits prod.splits option.splits simp del: retriable.simps exhausted.simps)
    qed
  qed
qed

lemma retriable_exhausted: "retriable re \<Longrightarrow> exhausted re \<noteq> (None, None)"
  by (cases re) (auto simp: isRetriableStatus_def Status_Err_def split: option.splits)

lemma retry_loop_result:
  assumes "compound_caller base" and "0 < k"
  shows "retry_loop ctx sl mx base c k delay last1 rs w = Some ((cr, rs'), w') \<Longrightarrow> cr \<noteq> (None, None)"
  using assms(2)
proof (induction k arbitrary: delay last1 rs w)
  case 0
  then show ?case by simp
next
  case (Suc k)
  show ?case
  proof (cases "cx_Err ctx w")
    case (Pair err w1)
    show ?thesis
    proof (cases err)
      case (Some e)
      then show ?thesis using Suc.prems Pair by auto
    next
      case None
      obtain re rs1 w2 where b: "base c rs w1 = Some ((re, rs1), w2)"
        using Suc.prems Pair None by (auto split: option.splits)
      then have "re \<noteq> (None, None)" by (rule compound_caller.result_or_error [OF assms(1)])
      then show ?thesis
        using Suc.prems Pair None b Suc.IH retriable_exhausted [of re]
        by (auto split: if_splits prod.splits option.splits simp del: retriable.simps exhausted.simps)
    qed
  qed
qed

lemma retryCaller_caller:
  assumes "compound_caller base" and "1 \<le> rc_MaxAttempts cfg"
  shows "compound_caller (retryCaller_CallCompound cfg ctx base)"
proof
  show "map res_zero rs' = map res_zero rs"
    if "retryCaller_CallCompound cfg ctx base c rs w = Some ((cr, rs'), w')" for c rs w cr rs' w'
    by (rule retry_loop_keeps_types [OF assms(1) that [unfolded retryCaller_CallCompound_def]])
  show "cr \<noteq> (None, None)"
    if "retryCaller_CallCompound cfg ctx base c rs w = Some ((cr, rs'), w')" for c rs w cr rs' w'
    using assms(2) by (intro retry_loop_result [OF assms(1) _ that [unfolded retryCaller_CallCompound_def]]) simp
qed

lemma withDefaults_MaxAttempts: "1 \<le> rc_MaxAttempts (withDefaults cfg)"
  by (simp add: withDefaults_def Let_def)

lemma withDefaults_sleep: "rc_sleep (withDefaults cfg) = Some (case rc_sleep cfg of None \<Rightarrow> sleepCtx | Some f \<Rightarrow> f)"
  by (simp add: withDefaults_def Let_def split: option.split)

text \<open>Fewer than one attempt, which the comment of \<open>MaxAttempts\<close> would make one, are ten.\<close>

lemma withDefaults_no_attempts: "rc_MaxAttempts cfg < 1 \<Longrightarrow> rc_MaxAttempts (withDefaults cfg) = 10"
  by (simp add: withDefaults_def Let_def)

lemma withDefaults_positive: "0 < rc_Initial (withDefaults cfg)" "0 < rc_Max (withDefaults cfg)"
  by (simp_all add: withDefaults_def Let_def)

lemma withDefaults_attempts: "1 \<le> rc_MaxAttempts cfg \<Longrightarrow> rc_MaxAttempts (withDefaults cfg) = rc_MaxAttempts cfg"
  by (simp add: withDefaults_def Let_def)

lemma sessionCaller_caller:
  assumes "compound_caller base"
  shows "compound_caller (sessionCaller_CallCompound i ctx base)"
proof -
  have "map res_zero rs' = map res_zero rs \<and> cr \<noteq> (None, None)"
    if call: "sessionCaller_CallCompound i ctx base c rs w = Some ((cr, rs'), w')" for c rs w cr rs' w'
  proof -
    obtain cancelled w1 where sel: "cx_select ctx w = (cancelled, w1)" by (metis prod.exhaust)
    from call sel obtain out s where acq: "AcquireSlot cancelled (get_session i w1) = Some (out, s)"
      by (auto simp: sessionCaller_CallCompound_def split: option.splits)
    show ?thesis
    proof (cases out)
      case (Inl e)
      then show ?thesis using call sel acq by (auto simp: sessionCaller_CallCompound_def)
    next
      case (Inr lease)
      from call sel acq Inr obtain r err wrs w2 where
        b: "base (wrap_compound (se_id s) lease c) (SequenceRes_zero # rs) (put_session i s w1) = Some (((r, err), wrs), w2)"
        by (auto simp: sessionCaller_CallCompound_def Let_def split: option.splits)
      have "map res_zero (tl wrs) = map res_zero rs" "(r, err) \<noteq> (None, None)"
        using compound_caller.keeps_types [OF assms b] compound_caller.result_or_error [OF assms b]
        by (auto simp: map_tl)
      then show ?thesis
        using call sel acq Inr b
        by (auto simp: sessionCaller_CallCompound_def Let_def split: if_splits)
    qed
  qed
  then show ?thesis by (intro compound_caller.intro) blast+
qed

text \<open>Stacks as the program builds them: retries configured with defaults.\<close>

fun stack_ok :: "'s caller \<Rightarrow> bool" where
  "stack_ok BaseCaller = True"
| "stack_ok (SessionCaller i cl) = stack_ok cl"
| "stack_ok (RetryCaller cfg cl) = (1 \<le> rc_MaxAttempts cfg \<and> stack_ok cl)"

lemma stack_ok_newRetryCaller [simp]: "stack_ok (newRetryCaller cl cfg) = stack_ok cl"
  by (simp add: newRetryCaller_def withDefaults_MaxAttempts)

lemma CallCompound_caller:
  "compound_caller (base ctx) \<Longrightarrow> stack_ok cl \<Longrightarrow> compound_caller (CallCompound base cl ctx)"
  by (induction cl) (auto intro: sessionCaller_caller retryCaller_caller)

subsection \<open>Backoff\<close>

text \<open>
  A scripted world for counting: the \<open>n\<close>-th call is answered by \<open>f n\<close>, and the world records
  the number of calls and the waits between them.
\<close>

type_synonym tally = "nat \<times> int list"

definition scripted_call :: "(nat \<Rightarrow> cresult) \<Rightarrow> tally call" where
  "scripted_call f c results w =
     Some ((f (fst (st_world w)), results), w\<lparr>st_world := (Suc (fst (st_world w)), snd (st_world w))\<rparr>)"

definition patient_ctx :: "tally goctx" where
  "patient_ctx =
     \<lparr>cx_Err = (\<lambda>w. (None, w)), cx_select = (\<lambda>w. (None, w)),
      cx_wait = (\<lambda>d w. (None, w\<lparr>st_world := (fst (st_world w), snd (st_world w) @ [d])\<rparr>))\<rparr>"

lemma patient_simps [simp]:
  "cx_Err patient_ctx w = (None, w)"
  "sleepCtx patient_ctx d \<lparr>st_world = (n, sl), st_sessions = ss\<rparr> =
     (None, \<lparr>st_world = (n, sl @ [d]), st_sessions = ss\<rparr>)"
  "scripted_call f c rs \<lparr>st_world = (n, sl), st_sessions = ss\<rparr> =
     Some ((f n, rs), \<lparr>st_world = (Suc n, sl), st_sessions = ss\<rparr>)"
  by (simp_all add: patient_ctx_def sleepCtx_def scripted_call_def)

lemma next_delay_doubles:
  assumes "0 < d" "d \<le> mx" "mx < 2 ^ 62"
  shows "next_delay mx d = min (d * 2) mx"
proof -
  have "wrap64 (d * 2) = d * 2" using assms by (intro wrap64_id) auto
  then show ?thesis by (simp add: next_delay_def Let_def min_def)
qed

lemma min_double: "0 < (d :: int) \<Longrightarrow> 0 < mx \<Longrightarrow> min (min d mx * 2) mx = min (d * 2) mx"
  by (auto simp: min_def)

lemma retry_loop_scripted:
  assumes mx: "0 < d" "0 < mx" "mx < 2 ^ 62"
    and j: "n \<le> j" "j \<le> n + Suc k" "\<And>i. n \<le> i \<Longrightarrow> i < j \<Longrightarrow> retriable (f i)"
    and stop: "j = n + Suc k \<or> \<not> retriable (f j)"
  shows "retry_loop patient_ctx (Some sleepCtx) mx (scripted_call f) c (Suc k) (min d mx) last1 rs
           \<lparr>st_world = (n, sl), st_sessions = ss\<rparr> =
         Some ((if j = n + Suc k then exhausted (f (n + k)) else f j, rs),
           \<lparr>st_world = (min (Suc j) (n + Suc k), sl @ map (\<lambda>i. min (d * 2 ^ i) mx) [0..<min (j - n) k]),
            st_sessions = ss\<rparr>)"
  using assms
proof (induction k arbitrary: n d sl last1)
  case 0
  then show ?case
    by (cases "j = n") (auto simp del: retriable.simps exhausted.simps)
next
  case (Suc k)
  show ?case
  proof (cases "j = n")
    case True
    then show ?thesis
      using Suc.prems by (auto simp del: retriable.simps exhausted.simps)
  next
    case False
    then have r: "retriable (f n)" and jn: "Suc n \<le> j" using Suc.prems by auto
    have nd: "next_delay mx (min d mx) = min (d * 2) mx"
      using Suc.prems by (simp add: next_delay_doubles min_double)
    have "retry_loop patient_ctx (Some sleepCtx) mx (scripted_call f) c (Suc k) (min (d * 2) mx) (f n) rs
           \<lparr>st_world = (Suc n, sl @ [min d mx]), st_sessions = ss\<rparr> =
         Some ((if j = Suc n + Suc k then exhausted (f (Suc n + k)) else f j, rs),
           \<lparr>st_world = (min (Suc j) (Suc n + Suc k),
              (sl @ [min d mx]) @ map (\<lambda>i. min (d * 2 * 2 ^ i) mx) [0..<min (j - Suc n) k]), st_sessions = ss\<rparr>)"
      using Suc.prems jn by (intro Suc.IH) auto
    moreover have "min (j - n) (Suc k) = Suc (min (j - Suc n) k)" using jn by auto
    then have "[0..<min (j - n) (Suc k)] = 0 # map Suc [0..<min (j - Suc n) k]"
      by (simp add: map_Suc_upt upt_conv_Cons del: upt_Suc)
    moreover have "retry_loop patient_ctx (Some sleepCtx) mx (scripted_call f) c (Suc (Suc k)) (min d mx) last1 rs
        \<lparr>st_world = (n, sl), st_sessions = ss\<rparr> =
      retry_loop patient_ctx (Some sleepCtx) mx (scripted_call f) c (Suc k) (min (d * 2) mx) (f n) rs
        \<lparr>st_world = (Suc n, sl @ [min d mx]), st_sessions = ss\<rparr>"
      using r by (subst retry_loop.simps(2)) (simp add: nd del: retriable.simps exhausted.simps retry_loop.simps)
    ultimately show ?thesis
      by (simp add: comp_def mult.assoc del: retriable.simps exhausted.simps retry_loop.simps)
  qed
qed

lemma retry_loop_not_retriable:
  "retry_loop ctx sl mx base c k delay last1 rs w = Some (((Some r, err), rs'), w') \<Longrightarrow> \<not> retriable (Some r, err)"
proof (induction k arbitrary: delay last1 rs w)
  case 0
  then show ?case by (cases last1) (auto split: option.splits)
next
  case (Suc k)
  have ex: "exhausted re \<noteq> (Some r, err)" for re by (cases re) (auto split: option.splits)
  show ?case
    using Suc ex
    by (auto split: prod.splits option.splits if_splits simp del: retriable.simps exhausted.simps)
qed

subsection \<open>SEQUENCE in front\<close>

lemma foldl_Compound_Add: "foldl Compound_Add c ops = c\<lparr>cp_ops := cp_ops c @ ops\<rparr>"
  by (induction ops arbitrary: c) (simp_all add: Compound_Add_def)

lemma wrap_compound_eq:
  "wrap_compound sid l c =
     \<lparr>cp_Tag = cp_Tag c, cp_MinorVersion = cp_MinorVersion c,
      cp_ops = ASequence \<lparr>sq_SessionID = sid, sq_SequenceID = le_seq l, sq_SlotID = le_slotID l,
                 sq_HighestSlotID = le_highest l, sq_CacheThis = False\<rparr> # cp_ops c\<rparr>"
  by (simp add: wrap_compound_def foldl_Compound_Add Compound_Add_def NewCompound_def)

text \<open>The session after a call on its first slot.\<close>

definition bump :: "bool \<Rightarrow> Session \<Rightarrow> Session" where
  "bump adv s = s\<lparr>se_slots := (se_slots s)[0 := (se_slots s ! 0)\<lparr>sl_seq := sl_seq (se_slots s ! 0) + of_bool adv\<rparr>]\<rparr>"

text \<open>The slot advances after every reply, also after a SEQUENCE that was refused for its slot or sequence id.\<close>

lemma sessionCaller_idle:
  assumes idle: "session_idle (get_session i w1)" and i: "i < length (st_sessions w1)"
    and sel: "cx_select ctx w = (None, w1)"
    and acq: "AcquireSlot None (get_session i w1) = Some (Inr l, s1)"
    and base: "base (wrap_compound (se_id (get_session i w1)) l c) (SequenceRes_zero # rs) (put_session i s1 w1) =
        Some (((r, err), q # rs'), w2)"
    and keep: "st_sessions w2 = (st_sessions w1)[i := s1]"
  shows "sessionCaller_CallCompound i ctx base c rs w =
    Some (((if err \<noteq> None then (None, err)
            else if res_Status q \<noteq> NFS4_OK
            then (None, Some (WrapF ''nfs4: SEQUENCE: %w'' [] (StatusError (res_Status q))))
            else (map_option (\<lambda>r. r\<lparr>cr_NumResults := cr_NumResults r - 1\<rparr>) r, None)), rs'),
      w2\<lparr>st_sessions := (st_sessions w1)[i := bump (err = None) (get_session i w1)]\<rparr>)"
proof -
  have s1: "se_id s1 = se_id (get_session i w1)" "get_session i w2 = s1"
    using acq keep i AcquireSlot_idle [OF idle] by (auto simp: get_session_def)
  have rel: "snd (slotLease_release adv l s1) = bump adv (get_session i w1)" for adv
    using release_idle(1) [OF idle acq] by (simp add: bump_def)
  have num: "(\<lambda>r. if cr_NumResults r > 0 then r\<lparr>cr_NumResults := cr_NumResults r - 1\<rparr> else r) =
      (\<lambda>r. r\<lparr>cr_NumResults := cr_NumResults r - 1\<rparr>)"
    by (rule ext) simp
  show ?thesis
    using base s1 keep
    by (cases err) (simp_all add: sessionCaller_CallCompound_def sel acq Let_def put_session_def rel slotLease_Done_def
        slotLease_Retry_def num)
qed

subsection \<open>Properties\<close>

text \<open>C17: A retry caller as \<open>newRetryCaller\<close> builds it from a configuration that asks for \<open>m\<close> attempts, at
  least one, with the sleeper left to the package: a compound is tried until the first reply that is not DELAY
  or GRACE, at most \<open>m\<close> times; the waits in between double from \<open>Initial\<close> up to \<open>Max\<close>, or from
  their defaults where these are not set (\<open>Initial\<close> being at most \<open>Max\<close>); the first final reply is returned as it is, and when all attempts were
  answered with DELAY or GRACE the caller gets that status as an error.\<close>

theorem retry_backoff:
  assumes "rc_sleep cfg = None" and "rc_MaxAttempts cfg = int m" and "0 < m"
    and "first = (if 0 < rc_Initial cfg then rc_Initial cfg else 10 * Millisecond)"
    and "mx = (if 0 < rc_Max cfg then rc_Max cfg else 1000 * Millisecond)" and "first \<le> mx" and "mx < 2 ^ 62"
    and "j \<le> m" and "\<And>i. i < j \<Longrightarrow> retriable (f i)" and "j = m \<or> \<not> retriable (f j)"
  shows "CallCompound (\<lambda>_. scripted_call f) (newRetryCaller BaseCaller cfg) patient_ctx c rs \<lparr>st_world = (0, []), st_sessions = ss\<rparr> =
    Some ((if j = m then exhausted (f (m - 1)) else f j, rs),
      \<lparr>st_world = (min (Suc j) m, map (\<lambda>i. min (first * 2 ^ i) mx) [0..<min j (m - 1)]), st_sessions = ss\<rparr>)"
proof -
  obtain k where k: "m = Suc k" using assms(3) by (cases m) auto
  let ?cfg = "withDefaults cfg"
  have n: "nat (rc_MaxAttempts ?cfg) = Suc k" using assms(2) k by (simp add: withDefaults_attempts)
  have cfg: "rc_Initial ?cfg = first" "rc_Max ?cfg = mx" "rc_sleep ?cfg = Some sleepCtx"
    using assms(1,4,5) by (auto simp: withDefaults_def Let_def)
  have pos: "0 < first" "0 < mx" using withDefaults_positive [of cfg] by (simp_all add: cfg)
  have "retry_loop patient_ctx (Some sleepCtx) mx (scripted_call f) c (Suc k) (min first mx) (None, None) rs
      \<lparr>st_world = (0, []), st_sessions = ss\<rparr> =
    Some ((if j = 0 + Suc k then exhausted (f (0 + k)) else f j, rs),
      \<lparr>st_world = (min (Suc j) (0 + Suc k), [] @ map (\<lambda>i. min (first * 2 ^ i) mx) [0..<min (j - 0) k]), st_sessions = ss\<rparr>)"
    using assms(7-10) pos k by (intro retry_loop_scripted) auto
  moreover have "min first mx = first" using assms(6) by simp
  ultimately show ?thesis
    by (simp add: newRetryCaller_def retryCaller_CallCompound_def n k cfg del: retry_loop.simps retriable.simps exhausted.simps)
qed

definition zero_config :: "tally RetryConfig" where
  "zero_config = \<lparr>rc_Initial = 0, rc_Max = 0, rc_MaxAttempts = 0, rc_sleep = None\<rparr>"

definition delay_reply :: cresult where
  "delay_reply = (Some \<lparr>cr_Status = NFS4ERR_DELAY, cr_Tag = [], cr_NumResults = 1\<rparr>, None)"

text \<open>The default delays with ten attempts: 10 calls and 3.27 s of waiting.\<close>

theorem retry_backoff_witness:
  "\<exists>sleeps. CallCompound (\<lambda>_. scripted_call (\<lambda>_. delay_reply)) (newRetryCaller BaseCaller (zero_config\<lparr>rc_MaxAttempts := 10\<rparr>))
       patient_ctx root_compound [] \<lparr>st_world = (0, []), st_sessions = []\<rparr> =
     Some (((None, Some (StatusError NFS4ERR_DELAY)), []), \<lparr>st_world = (10, sleeps), st_sessions = []\<rparr>)
   \<and> sum_list sleeps = 3270 * Millisecond"
proof -
  have r: "retriable delay_reply" by (simp add: delay_reply_def isRetriableStatus_def)
  have x: "exhausted delay_reply = (None, Some (StatusError NFS4ERR_DELAY))"
    by (simp add: delay_reply_def Status_Err_def)
  have "sum_list (map (\<lambda>i. min (10000000 * 2 ^ i) (1000000000 :: int)) [0..<9]) = 3270000000" by code_simp
  with retry_backoff [of "zero_config\<lparr>rc_MaxAttempts := 10\<rparr>" 10 _ _ 10 "\<lambda>_. delay_reply" root_compound "[]" "[]", OF _ _ _ refl refl] r x
  show ?thesis by (auto simp: zero_config_def simp del: retriable.simps exhausted.simps CallCompound.simps)
qed

text \<open>Whatever the callers below do, retries never return a compound result that still has a
  retriable status: the caller of the connection sees DELAY or GRACE only as an error.\<close>

theorem retry_hides_no_delay:
  assumes "CallCompound base (newRetryCaller cl cfg) ctx c rs w = Some (((Some r, err), rs'), w')"
  shows "\<not> isRetriableStatus (cr_Status r)"
  using assms
  by (auto simp: newRetryCaller_def retryCaller_CallCompound_def dest!: retry_loop_not_retriable)

theorem retry_hides_no_delay_witness:
  "\<exists>r w'. CallCompound (\<lambda>_. scripted_call (\<lambda>_. (Some \<lparr>cr_Status = 0, cr_Tag = [], cr_NumResults = 1\<rparr>, None)))
       (newRetryCaller BaseCaller zero_config) patient_ctx root_compound [] \<lparr>st_world = (0, []), st_sessions = []\<rparr>
     = Some (((Some r, None), []), w') \<and> \<not> isRetriableStatus (cr_Status r)"
proof -
  let ?f = "\<lambda>_ :: nat. (Some \<lparr>cr_Status = 0, cr_Tag = [], cr_NumResults = 1\<rparr>, None) :: cresult"
  have a: "nat (rc_MaxAttempts (withDefaults zero_config)) = Suc 9"
    by (simp add: withDefaults_def zero_config_def)
  have "CallCompound (\<lambda>_. scripted_call ?f) (newRetryCaller BaseCaller zero_config) patient_ctx root_compound []
      \<lparr>st_world = (0, []), st_sessions = []\<rparr>
    = Some (((Some \<lparr>cr_Status = 0, cr_Tag = [], cr_NumResults = 1\<rparr>, None), []),
        \<lparr>st_world = (1, []), st_sessions = []\<rparr>)"
    unfolding newRetryCaller_def CallCompound.simps retryCaller_CallCompound_def a retry_loop.simps
    by (simp add: isRetriableStatus_def withDefaults_def zero_config_def)
  from this retry_hides_no_delay [OF this] show ?thesis by blast
qed

definition calm_ctx :: "'s goctx" where
  "calm_ctx = \<lparr>cx_Err = (\<lambda>w. (None, w)), cx_select = (\<lambda>w. (None, w)), cx_wait = (\<lambda>d w. (None, w))\<rparr>"

text \<open>C27: A stack of session and retry callers over the RPC client keeps the contract the
  connection relies on: every result struct comes back with its type, and a call that returns gives a
  result or an error.\<close>

theorem caller_stack_contract:
  assumes "stack_ok cl"
    and "CallCompound (\<lambda>ctx. rpc_call peer (rctx ctx)) cl ctx c rs w = Some ((cr, rs'), w')"
  shows "map res_zero rs' = map res_zero rs \<and> cr \<noteq> (None, None)"
proof -
  have "compound_caller (CallCompound (\<lambda>ctx. rpc_call peer (rctx ctx)) cl ctx)"
    by (rule CallCompound_caller [OF rpc.compound_caller_axioms assms(1)])
  from compound_caller.keeps_types [OF this] compound_caller.result_or_error [OF this] assms(2)
  show ?thesis by blast
qed

theorem caller_stack_contract_witness:
  "\<exists>cr rs' w'. CallCompound (\<lambda>_ :: unit client goctx. rpc_call (\<lambda>p c. (None, c)) demo_ctx) BaseCaller calm_ctx root_compound root_results
     \<lparr>st_world = root_client, st_sessions = []\<rparr> = Some ((cr, rs'), w') \<and> map res_zero rs' = map res_zero root_results"
proof -
  let ?call = "CallCompound (\<lambda>_ :: unit client goctx. rpc_call (\<lambda>p c. (None, c)) demo_ctx) BaseCaller calm_ctx root_compound root_results
     \<lparr>st_world = root_client, st_sessions = []\<rparr>"
  obtain cr rs' cl where "RPCCaller_CallCompound (\<lambda>p c. (None, c)) demo_ctx root_compound root_results root_client = ((cr, rs'), cl)"
    by (metis prod.exhaust)
  then have c: "?call = Some ((cr, rs'), \<lparr>st_world = cl, st_sessions = []\<rparr>)"
    by (simp add: rpc_call_def)
  from caller_stack_contract [OF _ c] have "map res_zero rs' = map res_zero root_results" by simp
  with c show ?thesis by blast
qed

text \<open>The slot table while the first slot is leased.\<close>

definition first_slot_taken :: "Session \<Rightarrow> Session" where
  "first_slot_taken s =
     s\<lparr>se_free := se_free s - 1, se_slots := (se_slots s)[0 := (se_slots s ! 0)\<lparr>sl_inUse := True\<rparr>]\<rparr>"

text \<open>
  The statuses by which a server refuses a session, a slot or a sequence id (RFC 5661, section 15.1); the last
  four, which the program does not name, are RETRY_UNCACHED_REP, SEQ_FALSE_RETRY, BAD_HIGH_SLOT and DEADSESSION.
\<close>

definition slot_refusal :: "Status \<Rightarrow> bool" where
  "slot_refusal st \<longleftrightarrow>
     st \<in> {NFS4ERR_BADSESSION, NFS4ERR_BADSLOT, NFS4ERR_SEQ_MISORDERED, 10068, 10076, 10077, 10078}"

text \<open>C14: On a session no one else uses, the session caller sends the caller's operations with a
  SEQUENCE in front that carries the session's id, its first slot and that slot's current sequence id.
  When SEQUENCE succeeded, the caller gets the results behind SEQUENCE's with the status of the compound and a
  count without it, and the sequence id of the slot is advanced by one. When the call below failed, its
  error is returned and the sequence id stays, for the slot to be used again. A failed SEQUENCE is
  turned into an error, and the sequence id is advanced unless the server refused the session, the slot or the
  sequence id itself. In each case the slot is free afterwards and the rest of the session is as it was.\<close>

theorem sessionCaller_adds_SEQUENCE:
  assumes "session_idle (get_session i w1)" and "i < length (st_sessions w1)"
    and "cx_select ctx w = (None, w1)"
    and "base \<lparr>cp_Tag = cp_Tag c, cp_MinorVersion = cp_MinorVersion c,
                cp_ops = ASequence \<lparr>sq_SessionID = se_id (get_session i w1),
                  sq_SequenceID = sl_seq (se_slots (get_session i w1) ! 0), sq_SlotID = 0,
                  sq_HighestSlotID = se_highest (get_session i w1), sq_CacheThis = False\<rparr> # cp_ops c\<rparr>
           (SequenceRes_zero # rs) (put_session i (first_slot_taken (get_session i w1)) w1) =
         Some (((r, err), q # rs'), w2)"
    and "st_sessions w2 = (st_sessions w1)[i := first_slot_taken (get_session i w1)]"
  shows "\<exists>out adv. sessionCaller_CallCompound i ctx base c rs w =
      Some ((out, rs'), w2\<lparr>st_sessions := (st_sessions w1)[i := bump adv (get_session i w1)]\<rparr>) \<and>
    session_idle (bump adv (get_session i w1)) \<and>
    (if err \<noteq> None then out = (None, err) \<and> \<not> adv
     else if res_Status q = NFS4_OK
     then out = (map_option (\<lambda>r. r\<lparr>cr_NumResults := cr_NumResults r - 1\<rparr>) r, None) \<and> adv
     else out = (None, Some (WrapF ''nfs4: SEQUENCE: %w'' [] (StatusError (res_Status q)))) \<and>
       (\<not> slot_refusal (res_Status q) \<longrightarrow> adv))"
proof -
  let ?s = "get_session i w1"
  obtain l where l: "AcquireSlot None ?s = Some (Inr l, first_slot_taken ?s)"
      "le_seq l = sl_seq (se_slots ?s ! 0)" "le_slotID l = 0" "le_highest l = se_highest ?s"
    using AcquireSlot_idle [OF assms(1)] by (auto simp: first_slot_taken_def)
  have "base (wrap_compound (se_id ?s) l c) (SequenceRes_zero # rs) (put_session i (first_slot_taken ?s) w1) =
      Some (((r, err), q # rs'), w2)"
    using assms(4) by (simp add: wrap_compound_eq l)
  note call = sessionCaller_idle [OF assms(1,2,3) l(1), of base, OF this assms(5)]
  have "session_idle (bump adv ?s)" for adv using release_idle [OF assms(1) l(1)] by (simp add: bump_def)
  note idle = this [of "err = None"]
  show ?thesis unfolding call
    by (rule exI, rule exI [of _ "err = None"], rule conjI, rule refl) (simp add: idle)
qed

definition sequence_ok_call :: "unit call" where
  "sequence_ok_call c rs w =
     Some (((Some \<lparr>cr_Status = 0, cr_Tag = [], cr_NumResults = length rs\<rparr>, None), rs), w)"

theorem sessionCaller_adds_SEQUENCE_witness:
  "sessionCaller_CallCompound 0 calm_ctx sequence_ok_call root_compound [StatusRes 0, GetfhRes 0 None]
     \<lparr>st_world = (), st_sessions = [NewSession (zeros 16) 4]\<rparr> =
   Some (((Some \<lparr>cr_Status = 0, cr_Tag = [], cr_NumResults = 2\<rparr>, None), [StatusRes 0, GetfhRes 0 None]),
     \<lparr>st_world = (), st_sessions = [bump True (NewSession (zeros 16) 4)]\<rparr>)"
proof -
  let ?w = "\<lparr>st_world = (), st_sessions = [NewSession (zeros 16) 4]\<rparr>"
  have "session_idle (get_session 0 ?w)" "0 < length (st_sessions ?w)" "cx_select calm_ctx ?w = (None, ?w)"
    by (simp_all add: get_session_def calm_ctx_def)
  note sessionCaller_adds_SEQUENCE [OF this, where base = sequence_ok_call and c = root_compound
      and rs = "[StatusRes 0, GetfhRes 0 None]" and q = SequenceRes_zero
      and rs' = "[StatusRes 0, GetfhRes 0 None]"
      and r = "Some \<lparr>cr_Status = 0, cr_Tag = [], cr_NumResults = 3\<rparr>" and err = None
      and ?w2.0 = "put_session 0 (first_slot_taken (get_session 0 ?w)) ?w"]
  then show ?thesis
    by (auto simp: sequence_ok_call_def put_session_def get_session_def SequenceRes_zero_def)
qed

end
