(* ===== verification/Conn.thy ===== *)
theory Conn
  imports Callers
begin

text \<open>
  The NFSv4 connection of \<open>src/nfs4/conn.go\<close> and \<open>src/nfs4/conn_write.go\<close>: mounting (v4.0 and
  v4.1), the read and write operations, teardown, and \<open>Dial\<close> and \<open>DialAuto\<close> of
  \<open>src/nfs4/transport.go\<close>.

  A method takes the connection and the store and returns them updated with its results;
  \<open>None\<close> means that it never returns, because a caller below blocks for ever. A session is an
  index into the store's list of sessions. What the methods use of the operating system is the
  record \<open>env\<close>: the base caller, random bytes, the host name, opening and closing the RPC
  connection.
\<close>

subsection \<open>State\<close>

record 's ConnConfig =
  cc_ClientName :: string
  cc_MinorVersion :: u32
  cc_Retry :: "'s RetryConfig"

record 's Conn =
  cn_caller :: "'s caller"
  cn_cfg :: "'s ConnConfig"
  cn_rpc :: bool
  cn_clientID :: u64
  cn_confirm :: bytes
  cn_rootFH :: FileHandle
  cn_session :: "nat option"
  cn_eirSequence :: u32
  cn_openSeqid :: u32

record 's env =
  ev_base :: "'s goctx \<Rightarrow> 's call"
  ev_rand :: "'s store \<Rightarrow> (goerror + bytes) \<times> 's store"
  ev_hostname :: "goerror + string"
  ev_background :: "'s goctx"
  ev_dial :: "'s goctx \<Rightarrow> string \<Rightarrow> OpaqueAuth \<Rightarrow> OpaqueAuth \<Rightarrow> 's store \<Rightarrow> goerror option \<times> 's store"
  ev_close :: "'s store \<Rightarrow> goerror option \<times> 's store"

definition NewConn :: "'s caller \<Rightarrow> 's ConnConfig \<Rightarrow> 's Conn" where
  "NewConn caller cfg =
     \<lparr>cn_caller = newRetryCaller caller (cc_Retry cfg), cn_cfg = cfg, cn_rpc = False,
      cn_clientID = 0, cn_confirm = zeros 8, cn_rootFH = None, cn_session = None,
      cn_eirSequence = 0, cn_openSeqid = 0\<rparr>"

definition Conn_compound :: "'s Conn \<Rightarrow> Compound" where
  "Conn_compound c = (NewCompound [])\<lparr>cp_MinorVersion := cc_MinorVersion (cn_cfg c)\<rparr>"

text \<open>\<open>c.caller.CallCompound(ctx, c.compound().Add(...)..., results)\<close>.\<close>

definition Conn_call :: "'s env \<Rightarrow> 's goctx \<Rightarrow> 's Conn \<Rightarrow> arg list \<Rightarrow> res list \<Rightarrow> 's store \<Rightarrow>
    ((cresult \<times> res list) \<times> 's store) option" where
  "Conn_call env ctx c ops results w =
     CallCompound (ev_base env) (cn_caller c) ctx (foldl Compound_Add (Conn_compound c) ops) results w"

text \<open>
  \<open>r.Err()\<close> on the pointer a caller returned; a nil pointer would panic. (No caller returns nil
  without an error: \<open>compound_caller.no_error_result\<close>.)
\<close>

definition nil_panic :: goerror where
  "nil_panic = ErrorF ''invalid memory address or nil pointer dereference'' []"

definition result_Err :: "CompoundResult option \<Rightarrow> goerror option" where
  "result_Err r = (case r of None \<Rightarrow> Some nil_panic | Some r \<Rightarrow> CompoundResult_Err r)"

text \<open>
  The beginning all file operations share: call, wrap a transport error, return the compound's
  error; otherwise go on with the result structs.
\<close>

definition Conn_ops :: "'s env \<Rightarrow> 's goctx \<Rightarrow> 's Conn \<Rightarrow> string \<Rightarrow> fmtarg list \<Rightarrow> arg list \<Rightarrow> res list \<Rightarrow>
    's store \<Rightarrow> ((goerror + res list) \<times> 's store) option" where
  "Conn_ops env ctx c msg args ops results w =
     do {
       (((r, err), results), w) \<leftarrow> Conn_call env ctx c ops results w;
       (case err of
          Some e \<Rightarrow> Some (Inl (WrapF msg args e), w)
        | None \<Rightarrow>
            (case result_Err r of
               Some e \<Rightarrow> Some (Inl e, w)
             | None \<Rightarrow> Some (Inr results, w)))
     }"

text \<open>The beginning of the mount operations, which do not look at the compound's status.\<close>

definition Conn_one :: "'s env \<Rightarrow> 's goctx \<Rightarrow> 's Conn \<Rightarrow> string \<Rightarrow> arg \<Rightarrow> res \<Rightarrow> 's store \<Rightarrow>
    ((goerror + res) \<times> 's store) option" where
  "Conn_one env ctx c msg a r0 w =
     do {
       (((r, err), results), w) \<leftarrow> Conn_call env ctx c [a] [r0] w;
       (case err of
          Some e \<Rightarrow> Some (Inl (WrapF msg [] e), w)
        | None \<Rightarrow> Some (Inr (hd results), w))
     }"

subsection \<open>Mounting\<close>

definition clientName :: "'s env \<Rightarrow> 's Conn \<Rightarrow> string" where
  "clientName env c =
     (if cc_ClientName (cn_cfg c) \<noteq> [] then cc_ClientName (cn_cfg c)
      else (let host = (case ev_hostname env of
                          Inl err \<Rightarrow> ''go-nfs-client''
                        | Inr host \<Rightarrow> if host = [] then ''go-nfs-client'' else host)
            in ''go-nfs-client/'' @ host))"

abbreviation (input) ExchgIDFlagUseNonPNFS :: u32 where "ExchgIDFlagUseNonPNFS \<equiv> 0x00040000"

definition exchangeID :: "'s env \<Rightarrow> 's goctx \<Rightarrow> 's Conn \<Rightarrow> 's store \<Rightarrow>
    (goerror option \<times> 's Conn \<times> 's store) option" where
  "exchangeID env ctx c w =
     (case ev_rand env w of
        (Inl err, w) \<Rightarrow> Some (Some (WrapF ''nfs4: generating exchange-id verifier: %w'' [] err), c, w)
      | (Inr verifier, w) \<Rightarrow>
          do {
            (out, w) \<leftarrow> Conn_one env ctx c ''nfs4: EXCHANGE_ID: %w''
               (ExchangeIDArgs verifier (bytes_of_string (clientName env c)) ExchgIDFlagUseNonPNFS)
               (ExchangeIDRes 0 0 0 0) w;
            (case out of
               Inl err \<Rightarrow> Some (Some err, c, w)
             | Inr res \<Rightarrow>
                 (case Status_Err (res_Status res) of
                    Some err \<Rightarrow> Some (Some (WrapF ''nfs4: EXCHANGE_ID rejected: %w'' [] err), c, w)
                  | None \<Rightarrow> Some (None, c\<lparr>cn_clientID := res_ClientID res,
                                            cn_eirSequence := res_SequenceID res\<rparr>, w)))
          })"

definition session_chan :: ChannelAttrs where
  "session_chan =
     \<lparr>ca_HeaderPadSize = 0, ca_MaxRequestSize = 0x100000, ca_MaxResponseSize = 0x100000,
      ca_MaxResponseSizeCach = 0x10000, ca_MaxOperations = 16, ca_MaxRequests = 16\<rparr>"

text \<open>The session goes under an outer \<open>retryCaller\<close>.\<close>

fun install_session :: "nat \<Rightarrow> 's caller \<Rightarrow> 's caller" where
  "install_session i (RetryCaller cfg base) = RetryCaller cfg (newSessionCaller base i)"
| "install_session i cl = newSessionCaller cl i"

definition createSession :: "'s env \<Rightarrow> 's goctx \<Rightarrow> 's Conn \<Rightarrow> 's store \<Rightarrow>
    (goerror option \<times> 's Conn \<times> 's store) option" where
  "createSession env ctx c w =
     do {
       (out, w) \<leftarrow> Conn_one env ctx c ''nfs4: CREATE_SESSION: %w''
          (ACreateSession \<lparr>cs_ClientID = cn_clientID c, cs_SequenceID = cn_eirSequence c, cs_Flags = 0,
             cs_ForeChan = session_chan, cs_BackChan = session_chan, cs_CBProgram = 0\<rparr>)
          (CreateSessionRes 0 (zeros 16) 0 0 ChannelAttrs_zero ChannelAttrs_zero) w;
       (case out of
          Inl err \<Rightarrow> Some (Some err, c, w)
        | Inr res \<Rightarrow>
            (case Status_Err (res_Status res) of
               Some err \<Rightarrow> Some (Some (WrapF ''nfs4: CREATE_SESSION rejected: %w'' [] err), c, w)
             | None \<Rightarrow>
                 (let slotCount = uint (ca_MaxRequests (res_ForeChan res));
                      slotCount = (if slotCount < 1 then 1 else slotCount);
                      sess = NewSession (res_SessionID res) slotCount;
                      i = length (st_sessions w);
                      w = w\<lparr>st_sessions := st_sessions w @ [sess]\<rparr>
                  in Some (None, c\<lparr>cn_session := Some i, cn_caller := install_session i (cn_caller c)\<rparr>, w))))
     }"

definition reclaimComplete :: "'s env \<Rightarrow> 's goctx \<Rightarrow> 's Conn \<Rightarrow> 's store \<Rightarrow>
    (goerror option \<times> 's Conn \<times> 's store) option" where
  "reclaimComplete env ctx c w =
     do {
       (out, w) \<leftarrow> Conn_one env ctx c ''nfs4: RECLAIM_COMPLETE: %w'' (ReclaimCompleteArgs False)
          (ReclaimCompleteRes 0) w;
       (case out of
          Inl err \<Rightarrow> Some (Some err, c, w)
        | Inr res \<Rightarrow>
            if res_Status res \<noteq> NFS4_OK \<and> res_Status res \<noteq> NFS4ERR_COMPLETE_ALREADY
            then Some (Some (WrapF ''nfs4: RECLAIM_COMPLETE rejected: %w'' [] (StatusError (res_Status res))), c, w)
            else Some (None, c, w))
     }"

definition setClientID :: "'s env \<Rightarrow> 's goctx \<Rightarrow> 's Conn \<Rightarrow> 's store \<Rightarrow>
    (goerror option \<times> 's Conn \<times> 's store) option" where
  "setClientID env ctx c w =
     (case ev_rand env w of
        (Inl err, w) \<Rightarrow> Some (Some (WrapF ''nfs4: generating clientid verifier: %w'' [] err), c, w)
      | (Inr verifier, w) \<Rightarrow>
          do {
            (out, w) \<leftarrow> Conn_one env ctx c ''nfs4: SETCLIENTID: %w''
               (ASetclientid \<lparr>sc_Verifier = verifier, sc_ID = bytes_of_string (clientName env c),
                  sc_CallbackProg = 0, sc_CallbackNetID = ''tcp'', sc_CallbackAddr = ''0.0.0.0.0.0'',
                  sc_CallbackIdent = 0\<rparr>)
               (SetclientidRes 0 0 (zeros 8) [] []) w;
            (case out of
               Inl err \<Rightarrow> Some (Some err, c, w)
             | Inr res \<Rightarrow>
                 (case Status_Err (res_Status res) of
                    Some err \<Rightarrow> Some (Some (WrapF ''nfs4: SETCLIENTID rejected: %w'' [] err), c, w)
                  | None \<Rightarrow> Some (None, c\<lparr>cn_clientID := res_ClientID res,
                                            cn_confirm := res_Confirm res\<rparr>, w)))
          })"

definition confirmClientID :: "'s env \<Rightarrow> 's goctx \<Rightarrow> 's Conn \<Rightarrow> 's store \<Rightarrow>
    (goerror option \<times> 's Conn \<times> 's store) option" where
  "confirmClientID env ctx c w =
     do {
       (out, w) \<leftarrow> Conn_one env ctx c ''nfs4: SETCLIENTID_CONFIRM: %w''
          (SetclientidConfirmArgs (cn_clientID c) (cn_confirm c)) (StatusRes 0) w;
       (case out of
          Inl err \<Rightarrow> Some (Some err, c, w)
        | Inr res \<Rightarrow>
            (case Status_Err (res_Status res) of
               Some err \<Rightarrow> Some (Some (WrapF ''nfs4: SETCLIENTID_CONFIRM rejected: %w'' [] err), c, w)
             | None \<Rightarrow> Some (None, c, w)))
     }"

definition fetchRootFH :: "'s env \<Rightarrow> 's goctx \<Rightarrow> 's Conn \<Rightarrow> 's store \<Rightarrow>
    (goerror option \<times> 's Conn \<times> 's store) option" where
  "fetchRootFH env ctx c w =
     do {
       (((r, err), results), w) \<leftarrow> Conn_call env ctx c [PutrootfhArgs, GetfhArgs] [StatusRes 0, GetfhRes 0 None] w;
       (case err of
          Some e \<Rightarrow> Some (Some (WrapF ''nfs4: PUTROOTFH/GETFH: %w'' [] e), c, w)
        | None \<Rightarrow>
            (case result_Err r of
               Some e \<Rightarrow> Some (Some (WrapF ''nfs4: fetching root filehandle: %w'' [] e), c, w)
             | None \<Rightarrow>
                 (let getRes = results ! 1
                  in if res_Status getRes \<noteq> NFS4_OK
                     then Some (Some (WrapF ''nfs4: GETFH on root: %w'' [] (StatusError (res_Status getRes))), c, w)
                     else Some (None, c\<lparr>cn_rootFH := res_FH getRes\<rparr>, w))))
     }"

definition mountV41 :: "'s env \<Rightarrow> 's goctx \<Rightarrow> 's Conn \<Rightarrow> 's store \<Rightarrow>
    (goerror option \<times> 's Conn \<times> 's store) option" where
  "mountV41 env ctx c w =
     do {
       (err, c, w) \<leftarrow> exchangeID env ctx c w;
       if err \<noteq> None then Some (err, c, w)
       else do {
         (err, c, w) \<leftarrow> createSession env ctx c w;
         if err \<noteq> None then Some (err, c, w)
         else do {
           (err, c, w) \<leftarrow> reclaimComplete env ctx c w;
           if err \<noteq> None then Some (err, c, w)
           else fetchRootFH env ctx c w
         }
       }
     }"

definition Mount :: "'s env \<Rightarrow> 's goctx \<Rightarrow> 's Conn \<Rightarrow> 's store \<Rightarrow>
    (goerror option \<times> 's Conn \<times> 's store) option" where
  "Mount env ctx c w =
     (if cc_MinorVersion (cn_cfg c) \<ge> MinorV41 then mountV41 env ctx c w
      else do {
        (err, c, w) \<leftarrow> setClientID env ctx c w;
        if err \<noteq> None then Some (err, c, w)
        else do {
          (err, c, w) \<leftarrow> confirmClientID env ctx c w;
          if err \<noteq> None then Some (err, c, w)
          else fetchRootFH env ctx c w
        }
      })"

end
