(* ===== verification/Conn_Ops.thy ===== *)
theory Conn_Ops
  imports Conn
begin

text \<open>
  The file operations of a connection: the read side and the teardown of \<open>src/nfs4/conn.go\<close>, and
  the write side of \<open>src/nfs4/conn_write.go\<close>.

  An operation that takes an open-owner sequence id returns the connection as well, since it
  advances \<open>openSeqid\<close>; the others leave the connection alone and return their result and the
  store.
\<close>

subsection \<open>Reading\<close>

definition MinorVersion :: "'s Conn \<Rightarrow> u32" where
  "MinorVersion c = cc_MinorVersion (cn_cfg c)"

definition Conn_Session :: "'s Conn \<Rightarrow> nat option" where
  "Conn_Session c = cn_session c"

definition ClientID :: "'s Conn \<Rightarrow> u64" where
  "ClientID c = cn_clientID c"

definition RootFH :: "'s Conn \<Rightarrow> FileHandle" where
  "RootFH c = cn_rootFH c"

definition Lookup :: "'s env \<Rightarrow> 's goctx \<Rightarrow> 's Conn \<Rightarrow> FileHandle \<Rightarrow> string \<Rightarrow> 's store \<Rightarrow>
    ((goerror + FileHandle) \<times> 's store) option" where
  "Lookup env ctx c dir name w =
     do {
       (out, w) \<leftarrow> Conn_ops env ctx c ''nfs4: LOOKUP %q: %w'' [FStr name]
          [PutfhArgs dir, LookupArgs name, GetfhArgs] [StatusRes 0, StatusRes 0, GetfhRes 0 None] w;
       (case out of
          Inl err \<Rightarrow> Some (Inl err, w)
        | Inr results \<Rightarrow>
            (let getRes = results ! 2
             in if res_Status getRes \<noteq> NFS4_OK then Some (Inl (StatusError (res_Status getRes)), w)
                else Some (Inr (res_FH getRes), w)))
     }"

definition GetAttr :: "'s env \<Rightarrow> 's goctx \<Rightarrow> 's Conn \<Rightarrow> FileHandle \<Rightarrow> Bitmap \<Rightarrow> 's store \<Rightarrow>
    ((goerror + Bitmap \<times> bytes) \<times> 's store) option" where
  "GetAttr env ctx c fh bm w =
     do {
       (out, w) \<leftarrow> Conn_ops env ctx c ''nfs4: GETATTR: %w'' []
          [PutfhArgs fh, GetattrArgs bm] [StatusRes 0, GetattrRes 0 [] []] w;
       (case out of
          Inl err \<Rightarrow> Some (Inl err, w)
        | Inr results \<Rightarrow>
            (let getRes = results ! 1
             in if res_Status getRes \<noteq> NFS4_OK then Some (Inl (StatusError (res_Status getRes)), w)
                else Some (Inr (res_AttrMask getRes, res_AttrVals getRes), w)))
     }"

definition AnonStateid :: Stateid where
  "AnonStateid = Stateid_zero"

definition Read :: "'s env \<Rightarrow> 's goctx \<Rightarrow> 's Conn \<Rightarrow> FileHandle \<Rightarrow> u64 \<Rightarrow> u32 \<Rightarrow> 's store \<Rightarrow>
    ((goerror + bytes \<times> bool) \<times> 's store) option" where
  "Read env ctx c fh offset count w =
     do {
       (out, w) \<leftarrow> Conn_ops env ctx c ''nfs4: READ: %w'' []
          [PutfhArgs fh, ReadArgs AnonStateid offset count] [StatusRes 0, ReadRes 0 False []] w;
       (case out of
          Inl err \<Rightarrow> Some (Inl err, w)
        | Inr results \<Rightarrow>
            (let readRes = results ! 1
             in if res_Status readRes \<noteq> NFS4_OK then Some (Inl (StatusError (res_Status readRes)), w)
                else Some (Inr (res_Data readRes, res_EOF readRes), w)))
     }"

definition Readdir :: "'s env \<Rightarrow> 's goctx \<Rightarrow> 's Conn \<Rightarrow> FileHandle \<Rightarrow> u64 \<Rightarrow> bytes \<Rightarrow> Bitmap \<Rightarrow> 's store \<Rightarrow>
    ((goerror + res) \<times> 's store) option" where
  "Readdir env ctx c dir cookie cookieverf attrMask w =
     do {
       (out, w) \<leftarrow> Conn_ops env ctx c ''nfs4: READDIR: %w'' []
          [PutfhArgs dir, ReaddirArgs cookie cookieverf 8192 65536 attrMask]
          [StatusRes 0, ReaddirRes 0 (zeros 8) [] False] w;
       (case out of
          Inl err \<Rightarrow> Some (Inl err, w)
        | Inr results \<Rightarrow>
            (let ddRes = results ! 1
             in if res_Status ddRes \<noteq> NFS4_OK then Some (Inl (StatusError (res_Status ddRes)), w)
                else Some (Inr ddRes, w)))
     }"

definition Renew :: "'s env \<Rightarrow> 's goctx \<Rightarrow> 's Conn \<Rightarrow> 's store \<Rightarrow> (goerror option \<times> 's store) option" where
  "Renew env ctx c w =
     do {
       (out, w) \<leftarrow> Conn_one env ctx c ''nfs4: RENEW: %w'' (RenewArgs (ClientID c)) (StatusRes 0) w;
       (case out of
          Inl err \<Rightarrow> Some (Some err, w)
        | Inr res \<Rightarrow> Some (Status_Err (res_Status res), w))
     }"

definition Readlink :: "'s env \<Rightarrow> 's goctx \<Rightarrow> 's Conn \<Rightarrow> FileHandle \<Rightarrow> 's store \<Rightarrow>
    ((goerror + string) \<times> 's store) option" where
  "Readlink env ctx c fh w =
     do {
       (out, w) \<leftarrow> Conn_ops env ctx c ''nfs4: READLINK: %w'' []
          [PutfhArgs fh, ReadlinkArgs] [StatusRes 0, ReadlinkRes 0 []] w;
       (case out of
          Inl err \<Rightarrow> Some (Inl err, w)
        | Inr results \<Rightarrow>
            (let rlRes = results ! 1
             in if res_Status rlRes \<noteq> NFS4_OK then Some (Inl (StatusError (res_Status rlRes)), w)
                else Some (Inr (res_Link rlRes), w)))
     }"

fun LookupPath_loop :: "'s env \<Rightarrow> 's goctx \<Rightarrow> 's Conn \<Rightarrow> FileHandle \<Rightarrow> string list \<Rightarrow> 's store \<Rightarrow>
    ((goerror + FileHandle) \<times> 's store) option" where
  "LookupPath_loop env ctx c cur [] w = Some (Inr cur, w)"
| "LookupPath_loop env ctx c cur (name # comps) w =
     (if name = [] \<or> name = ''.'' then LookupPath_loop env ctx c cur comps w
      else do {
        (out, w) \<leftarrow> Lookup env ctx c cur name w;
        (case out of
           Inl err \<Rightarrow> Some (Inl err, w)
         | Inr fh \<Rightarrow> LookupPath_loop env ctx c fh comps w)
      })"

definition LookupPath :: "'s env \<Rightarrow> 's goctx \<Rightarrow> 's Conn \<Rightarrow> string list \<Rightarrow> 's store \<Rightarrow>
    ((goerror + FileHandle) \<times> 's store) option" where
  "LookupPath env ctx c components w =
     (let cur = RootFH c
      in if cur = None then Some (Inl (ErrorF ''nfs4: not mounted (no root filehandle)'' []), w)
         else LookupPath_loop env ctx c cur components w)"

subsection \<open>Writing\<close>

record OpenResult =
  or_FH :: FileHandle
  or_Stateid :: Stateid

definition nextSeqid :: "'s Conn \<Rightarrow> u32 \<times> 's Conn" where
  "nextSeqid c = (let n = cn_openSeqid c + 1 in (n, c\<lparr>cn_openSeqid := n\<rparr>))"

definition ownerID :: "'s Conn \<Rightarrow> bytes" where
  "ownerID c = bytes_of_string (''go-nfs-owner-'' @ dec_string (unat (ClientID c)))"

definition openConfirm :: "'s env \<Rightarrow> 's goctx \<Rightarrow> 's Conn \<Rightarrow> FileHandle \<Rightarrow> Stateid \<Rightarrow> 's store \<Rightarrow>
    ((goerror + Stateid) \<times> 's Conn \<times> 's store) option" where
  "openConfirm env ctx c fh sid w =
     (case nextSeqid c of
        (seqid, c) \<Rightarrow>
          do {
            (out, w) \<leftarrow> Conn_ops env ctx c ''nfs4: OPEN_CONFIRM: %w'' []
               [PutfhArgs fh, OpenConfirmArgs sid seqid] [StatusRes 0, OpenConfirmRes 0 Stateid_zero] w;
            (case out of
               Inl err \<Rightarrow> Some (Inl err, c, w)
             | Inr results \<Rightarrow>
                 (let ocRes = results ! 1
                  in if res_Status ocRes \<noteq> NFS4_OK then Some (Inl (StatusError (res_Status ocRes)), c, w)
                     else Some (Inr (res_Stateid ocRes), c, w)))
          })"

definition Open_args :: "'s Conn \<Rightarrow> u32 \<Rightarrow> string \<Rightarrow> u32 \<Rightarrow> Bitmap \<Rightarrow> bytes \<Rightarrow> bool \<Rightarrow> bool \<Rightarrow> OpenArgs" where
  "Open_args c seqid name share createAttrMask createAttrVals doCreate excl =
     (let args = \<lparr>oa_Seqid = seqid, oa_ShareAccess = share, oa_ShareDeny = OpenShareDenyNone,
            oa_ClientID = ClientID c, oa_Owner = ownerID c, oa_OpenType = 0, oa_CreateMode = 0,
            oa_CreateAttrMask = [], oa_CreateAttrVals = [], oa_CreateVerf = zeros 8, oa_Name = name\<rparr>
      in if doCreate
         then args\<lparr>oa_OpenType := Open4Create,
                oa_CreateMode := (if excl then CreateGuarded else CreateUnchecked),
                oa_CreateAttrMask := createAttrMask, oa_CreateAttrVals := createAttrVals\<rparr>
         else args\<lparr>oa_OpenType := Open4NoCreate\<rparr>)"

definition Open :: "'s env \<Rightarrow> 's goctx \<Rightarrow> 's Conn \<Rightarrow> FileHandle \<Rightarrow> string \<Rightarrow> u32 \<Rightarrow> Bitmap \<Rightarrow> bytes \<Rightarrow>
    bool \<Rightarrow> bool \<Rightarrow> 's store \<Rightarrow> ((goerror + OpenResult) \<times> 's Conn \<times> 's store) option" where
  "Open env ctx c dir name share createAttrMask createAttrVals doCreate excl w =
     (case nextSeqid c of
        (seqid, c) \<Rightarrow>
          do {
            (out, w) \<leftarrow> Conn_ops env ctx c ''nfs4: OPEN: %w'' []
               [PutfhArgs dir, AOpen (Open_args c seqid name share createAttrMask createAttrVals doCreate excl),
                GetfhArgs]
               [StatusRes 0, OpenRes 0 Stateid_zero 0 [], GetfhRes 0 None] w;
            (case out of
               Inl err \<Rightarrow> Some (Inl err, c, w)
             | Inr results \<Rightarrow>
                 (let openRes = results ! 1; getRes = results ! 2
                  in if res_Status openRes \<noteq> NFS4_OK then Some (Inl (StatusError (res_Status openRes)), c, w)
                     else (let res = \<lparr>or_FH = res_FH getRes, or_Stateid = res_Stateid openRes\<rparr>
                           in if NeedsConfirm openRes
                              then do {
                                (out, c, w) \<leftarrow> openConfirm env ctx c (or_FH res) (res_Stateid openRes) w;
                                (case out of
                                   Inl err \<Rightarrow> Some (Inl err, c, w)
                                 | Inr confirmed \<Rightarrow> Some (Inr (res\<lparr>or_Stateid := confirmed\<rparr>), c, w))
                              }
                              else Some (Inr res, c, w))))
          })"

definition Write :: "'s env \<Rightarrow> 's goctx \<Rightarrow> 's Conn \<Rightarrow> FileHandle \<Rightarrow> Stateid \<Rightarrow> u64 \<Rightarrow> bytes \<Rightarrow> StableHow \<Rightarrow>
    's store \<Rightarrow> ((goerror + u32 \<times> StableHow) \<times> 's store) option" where
  "Write env ctx c fh sid offset data how w =
     do {
       (out, w) \<leftarrow> Conn_ops env ctx c ''nfs4: WRITE: %w'' []
          [PutfhArgs fh, WriteArgs sid offset how data] [StatusRes 0, WriteRes 0 0 0 (zeros 8)] w;
       (case out of
          Inl err \<Rightarrow> Some (Inl err, w)
        | Inr results \<Rightarrow>
            (let wRes = results ! 1
             in if res_Status wRes \<noteq> NFS4_OK then Some (Inl (StatusError (res_Status wRes)), w)
                else Some (Inr (res_Count wRes, res_Committed wRes), w)))
     }"

text \<open>
  \<open>Commit\<close>, \<open>CloseFile\<close>, \<open>Remove\<close>, \<open>Rename\<close>, \<open>Link\<close> and \<open>SetAttr\<close> end alike:
  they return the status of their last operation.
\<close>

definition last_status :: "((goerror + res list) \<times> 's store) \<Rightarrow> (goerror option \<times> 's store) option" where
  "last_status outw =
     (case outw of
        (Inl err, w) \<Rightarrow> Some (Some err, w)
      | (Inr results, w) \<Rightarrow> Some (Status_Err (res_Status (last results)), w))"

definition Commit :: "'s env \<Rightarrow> 's goctx \<Rightarrow> 's Conn \<Rightarrow> FileHandle \<Rightarrow> u64 \<Rightarrow> u32 \<Rightarrow> 's store \<Rightarrow>
    (goerror option \<times> 's store) option" where
  "Commit env ctx c fh offset count w =
     Option.bind (Conn_ops env ctx c ''nfs4: COMMIT: %w'' []
       [PutfhArgs fh, CommitArgs offset count] [StatusRes 0, CommitRes 0 (zeros 8)] w) last_status"

definition CloseFile :: "'s env \<Rightarrow> 's goctx \<Rightarrow> 's Conn \<Rightarrow> FileHandle \<Rightarrow> Stateid \<Rightarrow> 's store \<Rightarrow>
    (goerror option \<times> 's Conn \<times> 's store) option" where
  "CloseFile env ctx c fh sid w =
     (case nextSeqid c of
        (seqid, c) \<Rightarrow>
          do {
            outw \<leftarrow> Conn_ops env ctx c ''nfs4: CLOSE: %w'' []
               [PutfhArgs fh, CloseArgs seqid sid] [StatusRes 0, CloseRes 0 Stateid_zero] w;
            (err, w) \<leftarrow> last_status outw;
            Some (err, c, w)
          })"

definition create :: "'s env \<Rightarrow> 's goctx \<Rightarrow> 's Conn \<Rightarrow> FileHandle \<Rightarrow> CreateArgs \<Rightarrow> 's store \<Rightarrow>
    ((goerror + FileHandle) \<times> 's store) option" where
  "create env ctx c dir args w =
     do {
       (out, w) \<leftarrow> Conn_ops env ctx c ''nfs4: CREATE: %w'' []
          [PutfhArgs dir, ACreate args, GetfhArgs] [StatusRes 0, CreateRes 0 [], GetfhRes 0 None] w;
       (case out of
          Inl err \<Rightarrow> Some (Inl err, w)
        | Inr results \<Rightarrow>
            (let crRes = results ! 1; getRes = results ! 2
             in if res_Status crRes \<noteq> NFS4_OK then Some (Inl (StatusError (res_Status crRes)), w)
                else Some (Inr (res_FH getRes), w)))
     }"

definition Mkdir :: "'s env \<Rightarrow> 's goctx \<Rightarrow> 's Conn \<Rightarrow> FileHandle \<Rightarrow> string \<Rightarrow> Bitmap \<Rightarrow> bytes \<Rightarrow> 's store \<Rightarrow>
    ((goerror + FileHandle) \<times> 's store) option" where
  "Mkdir env ctx c dir name attrMask attrVals w =
     create env ctx c dir \<lparr>ca_Type = 2, ca_LinkData = [], ca_ObjName = name, ca_AttrMask = attrMask,
       ca_AttrVals = attrVals\<rparr> w"

definition Symlink :: "'s env \<Rightarrow> 's goctx \<Rightarrow> 's Conn \<Rightarrow> FileHandle \<Rightarrow> string \<Rightarrow> string \<Rightarrow> Bitmap \<Rightarrow> bytes \<Rightarrow>
    's store \<Rightarrow> ((goerror + FileHandle) \<times> 's store) option" where
  "Symlink env ctx c dir name target attrMask attrVals w =
     create env ctx c dir \<lparr>ca_Type = 5, ca_LinkData = target, ca_ObjName = name, ca_AttrMask = attrMask,
       ca_AttrVals = attrVals\<rparr> w"

definition Remove :: "'s env \<Rightarrow> 's goctx \<Rightarrow> 's Conn \<Rightarrow> FileHandle \<Rightarrow> string \<Rightarrow> 's store \<Rightarrow>
    (goerror option \<times> 's store) option" where
  "Remove env ctx c dir name w =
     Option.bind (Conn_ops env ctx c ''nfs4: REMOVE: %w'' []
       [PutfhArgs dir, RemoveArgs name] [StatusRes 0, RemoveRes 0] w) last_status"

definition Rename :: "'s env \<Rightarrow> 's goctx \<Rightarrow> 's Conn \<Rightarrow> FileHandle \<Rightarrow> string \<Rightarrow> FileHandle \<Rightarrow> string \<Rightarrow> 's store \<Rightarrow>
    (goerror option \<times> 's store) option" where
  "Rename env ctx c srcDir oldName dstDir newName w =
     Option.bind (Conn_ops env ctx c ''nfs4: RENAME: %w'' []
       [PutfhArgs srcDir, SavefhArgs, PutfhArgs dstDir, RenameArgs oldName newName]
       [StatusRes 0, StatusRes 0, StatusRes 0, RenameRes 0] w) last_status"

definition Link :: "'s env \<Rightarrow> 's goctx \<Rightarrow> 's Conn \<Rightarrow> FileHandle \<Rightarrow> FileHandle \<Rightarrow> string \<Rightarrow> 's store \<Rightarrow>
    (goerror option \<times> 's store) option" where
  "Link env ctx c src dstDir newName w =
     Option.bind (Conn_ops env ctx c ''nfs4: LINK: %w'' []
       [PutfhArgs src, SavefhArgs, PutfhArgs dstDir, LinkArgs newName]
       [StatusRes 0, StatusRes 0, StatusRes 0, LinkRes 0] w) last_status"

definition SetAttr :: "'s env \<Rightarrow> 's goctx \<Rightarrow> 's Conn \<Rightarrow> FileHandle \<Rightarrow> Stateid \<Rightarrow> Bitmap \<Rightarrow> bytes \<Rightarrow> 's store \<Rightarrow>
    (goerror option \<times> 's store) option" where
  "SetAttr env ctx c fh sid attrMask attrVals w =
     Option.bind (Conn_ops env ctx c ''nfs4: SETATTR: %w'' []
       [PutfhArgs fh, SetattrArgs sid attrMask attrVals] [StatusRes 0, SetattrRes 0 []] w) last_status"

subsection \<open>Teardown\<close>

text \<open>The caller under an outer \<open>retryCaller\<close> and a \<open>sessionCaller\<close>.\<close>

fun unwrap_retry :: "'s caller \<Rightarrow> 's caller" where
  "unwrap_retry (RetryCaller cfg base) = base"
| "unwrap_retry cl = cl"

fun unwrap_session :: "'s caller \<Rightarrow> 's caller" where
  "unwrap_session (SessionCaller i base) = base"
| "unwrap_session cl = cl"

definition teardownSession :: "'s env \<Rightarrow> 's Conn \<Rightarrow> 's store \<Rightarrow> 's store option" where
  "teardownSession env c w =
     (case cn_session c of
        None \<Rightarrow> Some w
      | Some sess \<Rightarrow>
          (let base = CallCompound (ev_base env) (unwrap_session (unwrap_retry (cn_caller c)));
               ctx = ev_background env
           in do {
             (_, w) \<leftarrow> base ctx (Compound_Add (Conn_compound c) (DestroySessionArgs (se_id (get_session sess w))))
                         [DestroySessionRes 0] w;
             (_, w) \<leftarrow> base ctx (Compound_Add (Conn_compound c) (DestroyClientIDArgs (cn_clientID c)))
                         [DestroyClientIDRes 0] w;
             Some w
           }))"

definition Close :: "'s env \<Rightarrow> 's Conn \<Rightarrow> 's store \<Rightarrow> (goerror option \<times> 's store) option" where
  "Close env c w =
     do {
       w \<leftarrow> teardownSession env c w;
       if cn_rpc c then Some (ev_close env w) else Some (None, w)
     }"

end
