(* ===== verification/Server.thy ===== *)
theory Server
  imports Conn_Ops
begin

text \<open>
  The other side of a connection, as far as the protocol fixes it: how an NFSv4 server runs a
  compound (RFC 7530, sections 1.4.3 and 15.2; RFC 8881, section 2.10.6). It evaluates the
  operations in order with a current and a saved file handle, stops at the first that fails, and
  from minor version 1 on wants a SEQUENCE in front that names the session and the next sequence
  id of a slot.

  What the operations do to files is not fixed here: it is the record \<open>server\<close>, a parameter.
  On top of it stand the abstract operations a connection promises (\<open>sv_lookup\<close>,
  \<open>sv_rename\<close> and so on, on file handles), and the lemmas that the methods of a connection,
  whose caller is one of the stacks the program builds, perform exactly these.
\<close>

subsection \<open>What a server does\<close>

record 's server =
  sv_root :: "'s \<Rightarrow> bytes"
  sv_putfh :: "bytes \<Rightarrow> 's \<Rightarrow> Status"
  sv_lookup :: "bytes \<Rightarrow> string \<Rightarrow> 's \<Rightarrow> Status \<times> bytes"
  sv_getattr :: "bytes \<Rightarrow> Bitmap \<Rightarrow> 's \<Rightarrow> Status \<times> Bitmap \<times> bytes"
  sv_read :: "bytes \<Rightarrow> Stateid \<Rightarrow> u64 \<Rightarrow> u32 \<Rightarrow> 's \<Rightarrow> Status \<times> bytes \<times> bool"
  sv_readdir :: "bytes \<Rightarrow> u64 \<Rightarrow> bytes \<Rightarrow> u32 \<Rightarrow> u32 \<Rightarrow> Bitmap \<Rightarrow> 's \<Rightarrow> Status \<times> bytes \<times> DirEntry list \<times> bool"
  sv_readlink :: "bytes \<Rightarrow> 's \<Rightarrow> Status \<times> string"
  sv_open :: "bytes \<Rightarrow> OpenArgs \<Rightarrow> 's \<Rightarrow> (Status \<times> bytes \<times> Stateid \<times> u32) \<times> 's"
  sv_open_confirm :: "bytes \<Rightarrow> Stateid \<Rightarrow> u32 \<Rightarrow> 's \<Rightarrow> (Status \<times> Stateid) \<times> 's"
  sv_write :: "bytes \<Rightarrow> Stateid \<Rightarrow> u64 \<Rightarrow> StableHow \<Rightarrow> bytes \<Rightarrow> 's \<Rightarrow> (Status \<times> u32 \<times> StableHow) \<times> 's"
  sv_commit :: "bytes \<Rightarrow> u64 \<Rightarrow> u32 \<Rightarrow> 's \<Rightarrow> Status \<times> 's"
  sv_close :: "bytes \<Rightarrow> u32 \<Rightarrow> Stateid \<Rightarrow> 's \<Rightarrow> Status \<times> 's"
  sv_create :: "bytes \<Rightarrow> CreateArgs \<Rightarrow> 's \<Rightarrow> (Status \<times> bytes) \<times> 's"
  sv_remove :: "bytes \<Rightarrow> string \<Rightarrow> 's \<Rightarrow> Status \<times> 's"
  sv_rename :: "bytes \<Rightarrow> string \<Rightarrow> bytes \<Rightarrow> string \<Rightarrow> 's \<Rightarrow> Status \<times> 's"
  sv_link :: "bytes \<Rightarrow> bytes \<Rightarrow> string \<Rightarrow> 's \<Rightarrow> Status \<times> 's"
  sv_setattr :: "bytes \<Rightarrow> Stateid \<Rightarrow> Bitmap \<Rightarrow> bytes \<Rightarrow> 's \<Rightarrow> Status \<times> 's"
  sv_renew :: "u64 \<Rightarrow> 's \<Rightarrow> Status \<times> 's"
  sv_setclientid :: "SetclientidArgs \<Rightarrow> 's \<Rightarrow> (Status \<times> u64 \<times> bytes) \<times> 's"
  sv_confirm :: "u64 \<Rightarrow> bytes \<Rightarrow> 's \<Rightarrow> Status \<times> 's"
  sv_exchange_id :: "bytes \<Rightarrow> bytes \<Rightarrow> u32 \<Rightarrow> 's \<Rightarrow> (Status \<times> u64 \<times> u32) \<times> 's"
  sv_create_session :: "CreateSessionArgs \<Rightarrow> 's \<Rightarrow> (Status \<times> SessionID \<times> u32) \<times> 's"
  sv_reclaim :: "bool \<Rightarrow> 's \<Rightarrow> Status \<times> 's"
  sv_destroy_session :: "SessionID \<Rightarrow> 's \<Rightarrow> Status \<times> 's"
  sv_destroy_clientid :: "u64 \<Rightarrow> 's \<Rightarrow> Status \<times> 's"

abbreviation (input) NFS4ERR_OP_NOT_IN_SESSION :: Status where "NFS4ERR_OP_NOT_IN_SESSION \<equiv> 10071"

text \<open>The result of an operation that carries nothing but a status.\<close>

fun reply_to :: "arg \<Rightarrow> Status \<Rightarrow> res" where
  "reply_to GetfhArgs st = GetfhRes st None"
| "reply_to (GetattrArgs _) st = GetattrRes st [] []"
| "reply_to (ASetclientid _) st = SetclientidRes st 0 (zeros 8) [] []"
| "reply_to (ReadArgs _ _ _) st = ReadRes st False []"
| "reply_to (ReaddirArgs _ _ _ _ _) st = ReaddirRes st (zeros 8) [] False"
| "reply_to ReadlinkArgs st = ReadlinkRes st []"
| "reply_to (AOpen _) st = OpenRes st Stateid_zero 0 []"
| "reply_to (OpenConfirmArgs _ _) st = OpenConfirmRes st Stateid_zero"
| "reply_to (WriteArgs _ _ _ _) st = WriteRes st 0 0 (zeros 8)"
| "reply_to (CommitArgs _ _) st = CommitRes st (zeros 8)"
| "reply_to (CloseArgs _ _) st = CloseRes st Stateid_zero"
| "reply_to (ACreate _) st = CreateRes st []"
| "reply_to (RemoveArgs _) st = RemoveRes st"
| "reply_to (RenameArgs _ _) st = RenameRes st"
| "reply_to (LinkArgs _) st = LinkRes st"
| "reply_to (SetattrArgs _ _ _) st = SetattrRes st []"
| "reply_to (ExchangeIDArgs _ _ _) st = ExchangeIDRes st 0 0 0"
| "reply_to (ACreateSession _) st = CreateSessionRes st (zeros 16) 0 0 ChannelAttrs_zero ChannelAttrs_zero"
| "reply_to (DestroySessionArgs _) st = DestroySessionRes st"
| "reply_to (DestroyClientIDArgs _) st = DestroyClientIDRes st"
| "reply_to (ReclaimCompleteArgs _) st = ReclaimCompleteRes st"
| "reply_to (ASequence _) st = SequenceRes st (zeros 16) 0 0 0 0 0"
| "reply_to _ st = StatusRes st"

text \<open>An operation at the current file handle: its result, the new current file handle, the new state.\<close>

fun op_at :: "'s server \<Rightarrow> bytes \<Rightarrow> FileHandle \<Rightarrow> arg \<Rightarrow> 's \<Rightarrow> res \<times> bytes \<times> 's" where
  "op_at sv cur saved GetfhArgs s = (GetfhRes 0 (Some cur), cur, s)"
| "op_at sv cur saved (LookupArgs name) s =
     (case sv_lookup sv cur name s of
        (st, fh) \<Rightarrow> (StatusRes st, if st = NFS4_OK then fh else cur, s))"
| "op_at sv cur saved (GetattrArgs bm) s =
     (case sv_getattr sv cur bm s of
        (st, bm', vals) \<Rightarrow> (if st = NFS4_OK then GetattrRes 0 bm' vals else GetattrRes st [] [], cur, s))"
| "op_at sv cur saved (ReadArgs sid off count) s =
     (case sv_read sv cur sid off count s of
        (st, data, eof) \<Rightarrow> (if st = NFS4_OK then ReadRes 0 eof data else ReadRes st False [], cur, s))"
| "op_at sv cur saved (ReaddirArgs cookie verf dircount maxcount bm) s =
     (case sv_readdir sv cur cookie verf dircount maxcount bm s of
        (st, verf', entries, eof) \<Rightarrow>
          (if st = NFS4_OK then ReaddirRes 0 verf' entries eof else ReaddirRes st (zeros 8) [] False, cur, s))"
| "op_at sv cur saved ReadlinkArgs s =
     (case sv_readlink sv cur s of
        (st, link) \<Rightarrow> (if st = NFS4_OK then ReadlinkRes 0 link else ReadlinkRes st [], cur, s))"
| "op_at sv cur saved (AOpen a) s =
     (case sv_open sv cur a s of
        ((st, fh, sid, rflags), s) \<Rightarrow>
          if st = NFS4_OK then (OpenRes 0 sid rflags [], fh, s) else (OpenRes st Stateid_zero 0 [], cur, s))"
| "op_at sv cur saved (OpenConfirmArgs sid seqid) s =
     (case sv_open_confirm sv cur sid seqid s of
        ((st, sid'), s) \<Rightarrow> (if st = NFS4_OK then OpenConfirmRes 0 sid' else OpenConfirmRes st Stateid_zero, cur, s))"
| "op_at sv cur saved (WriteArgs sid off how data) s =
     (case sv_write sv cur sid off how data s of
        ((st, count, committed), s) \<Rightarrow>
          (if st = NFS4_OK then WriteRes 0 count committed (zeros 8) else WriteRes st 0 0 (zeros 8), cur, s))"
| "op_at sv cur saved (CommitArgs off count) s =
     (case sv_commit sv cur off count s of (st, s) \<Rightarrow> (CommitRes st (zeros 8), cur, s))"
| "op_at sv cur saved (CloseArgs seqid sid) s =
     (case sv_close sv cur seqid sid s of (st, s) \<Rightarrow> (CloseRes st Stateid_zero, cur, s))"
| "op_at sv cur saved (ACreate a) s =
     (case sv_create sv cur a s of
        ((st, fh), s) \<Rightarrow> (CreateRes st [], if st = NFS4_OK then fh else cur, s))"
| "op_at sv cur saved (RemoveArgs name) s =
     (case sv_remove sv cur name s of (st, s) \<Rightarrow> (RemoveRes st, cur, s))"
| "op_at sv cur saved (RenameArgs oldname newname) s =
     (case saved of
        None \<Rightarrow> (RenameRes NFS4ERR_NOFILEHANDLE, cur, s)
      | Some src \<Rightarrow> (case sv_rename sv src oldname cur newname s of (st, s) \<Rightarrow> (RenameRes st, cur, s)))"
| "op_at sv cur saved (LinkArgs newname) s =
     (case saved of
        None \<Rightarrow> (LinkRes NFS4ERR_NOFILEHANDLE, cur, s)
      | Some src \<Rightarrow> (case sv_link sv src cur newname s of (st, s) \<Rightarrow> (LinkRes st, cur, s)))"
| "op_at sv cur saved (SetattrArgs sid bm vals) s =
     (case sv_setattr sv cur sid bm vals s of (st, s) \<Rightarrow> (SetattrRes st [], cur, s))"
| "op_at sv cur saved a s = (reply_to a NFS4ERR_OP_ILLEGAL, cur, s)"

fun serve_op :: "'s server \<Rightarrow> FileHandle \<times> FileHandle \<Rightarrow> arg \<Rightarrow> 's \<Rightarrow> res \<times> (FileHandle \<times> FileHandle) \<times> 's" where
  "serve_op sv (cur, saved) PutrootfhArgs s = (StatusRes 0, (Some (sv_root sv s), saved), s)"
| "serve_op sv (cur, saved) (PutfhArgs fh) s =
     (let st = sv_putfh sv (nilb fh) s
      in (StatusRes st, (if st = NFS4_OK then Some (nilb fh) else cur, saved), s))"
| "serve_op sv (cur, saved) (RenewArgs cid) s =
     (case sv_renew sv cid s of (st, s) \<Rightarrow> (StatusRes st, (cur, saved), s))"
| "serve_op sv (cur, saved) (ASetclientid a) s =
     (case sv_setclientid sv a s of
        ((st, cid, confirm), s) \<Rightarrow>
          (if st = NFS4_OK then SetclientidRes 0 cid confirm [] [] else SetclientidRes st 0 (zeros 8) [] [],
           (cur, saved), s))"
| "serve_op sv (cur, saved) (SetclientidConfirmArgs cid verf) s =
     (case sv_confirm sv cid verf s of (st, s) \<Rightarrow> (StatusRes st, (cur, saved), s))"
| "serve_op sv (cur, saved) (ReclaimCompleteArgs one) s =
     (case sv_reclaim sv one s of (st, s) \<Rightarrow> (ReclaimCompleteRes st, (cur, saved), s))"
| "serve_op sv (None, saved) a s = (reply_to a NFS4ERR_NOFILEHANDLE, (None, saved), s)"
| "serve_op sv (Some cur, saved) SavefhArgs s = (StatusRes 0, (Some cur, Some cur), s)"
| "serve_op sv (Some cur, None) RestorefhArgs s = (StatusRes NFS4ERR_RESTOREFH, (Some cur, None), s)"
| "serve_op sv (Some cur, Some sav) RestorefhArgs s = (StatusRes 0, (Some sav, Some sav), s)"
| "serve_op sv (Some cur, saved) a s =
     (case op_at sv cur saved a s of (r, cur', s) \<Rightarrow> (r, (Some cur', saved), s))"

fun run_ops :: "'s server \<Rightarrow> FileHandle \<times> FileHandle \<Rightarrow> arg list \<Rightarrow> 's \<Rightarrow> res list \<times> 's" where
  "run_ops sv fhs [] s = ([], s)"
| "run_ops sv fhs (a # as) s =
     (case serve_op sv fhs a s of
        (r, fhs, s) \<Rightarrow>
          if res_Status r \<noteq> NFS4_OK then ([r], s)
          else (case run_ops sv fhs as s of (rs, s) \<Rightarrow> (r # rs, s)))"

text \<open>
  The two ends of a connection: the server with its session (the id and, per slot, the sequence id
  of the last request), and the RPC client below the base caller.
\<close>

record 's wire =
  wi_fs :: 's
  wi_sid :: "SessionID option"
  wi_slots :: "u32 list"
  wi_rpc :: "unit client"

definition wire_tick :: "'s wire \<Rightarrow> 's wire" where
  "wire_tick s = s\<lparr>wi_rpc := snd (allocXID (wi_rpc s))\<rparr>"

lemma wire_tick_simps [simp]:
  "wi_fs (wire_tick s) = wi_fs s" "wi_sid (wire_tick s) = wi_sid s" "wi_slots (wire_tick s) = wi_slots s"
  by (simp_all add: wire_tick_def)

text \<open>An RPC client between two calls on a connection nothing is pending on.\<close>

definition idle_client :: "unit client" where
  "idle_client = NewClient \<lparr>nc_in = bytes_reader [], nc_srv = (), nc_closed = False, nc_closeErr = None\<rparr>
     \<lparr>co_Cred = AuthNull, co_Verf = AuthNull\<rparr> 0"

text \<open>A compound of minor version \<open>mv\<close>.\<close>

definition wire_sequence :: "'s server \<Rightarrow> SequenceArgs \<Rightarrow> arg list \<Rightarrow> 's wire \<Rightarrow> res list \<times> 's wire" where
  "wire_sequence sv a ops s =
     (let i = unat (sq_SlotID a); fail = (\<lambda>st. ([reply_to (ASequence a) st], s))
      in if wi_sid s \<noteq> Some (sq_SessionID a) then fail NFS4ERR_BADSESSION
         else if length (wi_slots s) \<le> i then fail NFS4ERR_BADSLOT
         else if sq_SequenceID a \<noteq> wi_slots s ! i + 1 then fail NFS4ERR_SEQ_MISORDERED
         else (case run_ops sv (None, None) ops (wi_fs s) of
                 (rs, fs) \<Rightarrow>
                   (SequenceRes 0 (sq_SessionID a) (sq_SequenceID a) (sq_SlotID a) (sq_HighestSlotID a)
                      (sq_HighestSlotID a) 0 # rs,
                    s\<lparr>wi_fs := fs, wi_slots := (wi_slots s)[i := sq_SequenceID a]\<rparr>)))"

fun wire_ops :: "'s server \<Rightarrow> u32 \<Rightarrow> arg list \<Rightarrow> 's wire \<Rightarrow> res list \<times> 's wire" where
  "wire_ops sv mv ops s =
     (if mv = 0 then (case run_ops sv (None, None) ops (wi_fs s) of (rs, fs) \<Rightarrow> (rs, s\<lparr>wi_fs := fs\<rparr>))
      else case ops of
        [] \<Rightarrow> ([], s)
      | ASequence a # rest \<Rightarrow> wire_sequence sv a rest s
      | [ExchangeIDArgs verf owner flags] \<Rightarrow>
          (case sv_exchange_id sv verf owner flags (wi_fs s) of
             ((st, cid, seqid), fs) \<Rightarrow>
               ([if st = NFS4_OK then ExchangeIDRes 0 cid seqid 0 else ExchangeIDRes st 0 0 0], s\<lparr>wi_fs := fs\<rparr>))
      | [ACreateSession a] \<Rightarrow>
          (case sv_create_session sv a (wi_fs s) of
             ((st, sid, maxreq), fs) \<Rightarrow>
               if st = NFS4_OK
               then ([CreateSessionRes 0 sid (cs_SequenceID a) 0 ((cs_ForeChan a)\<lparr>ca_MaxRequests := maxreq\<rparr>)
                        (cs_BackChan a)],
                     s\<lparr>wi_fs := fs, wi_sid := Some sid, wi_slots := replicate (max 1 (unat maxreq)) 0\<rparr>)
               else ([reply_to (ACreateSession a) st], s\<lparr>wi_fs := fs\<rparr>))
      | [DestroySessionArgs sid] \<Rightarrow>
          (case sv_destroy_session sv sid (wi_fs s) of
             (st, fs) \<Rightarrow>
               ([DestroySessionRes st],
                s\<lparr>wi_fs := fs, wi_sid := (if st = NFS4_OK then None else wi_sid s)\<rparr>))
      | [DestroyClientIDArgs cid] \<Rightarrow>
          (case sv_destroy_clientid sv cid (wi_fs s) of
             (st, fs) \<Rightarrow> ([DestroyClientIDRes st], s\<lparr>wi_fs := fs\<rparr>))
      | a # _ \<Rightarrow> ([reply_to a NFS4ERR_OP_NOT_IN_SESSION], s))"

definition final_status :: "res list \<Rightarrow> Status" where
  "final_status rs = (if rs = [] then NFS4_OK else res_Status (last rs))"

text \<open>
  The base caller whose compounds reach this server and whose replies come back; each takes the
  next transaction id of the RPC client. (\<open>Nfsd.rpc_base\<close> does the same over the bytes of a
  connection.)
\<close>

definition serve :: "'s server \<Rightarrow> 's wire goctx \<Rightarrow> 's wire call" where
  "serve sv ctx c results w =
     (case wire_ops sv (cp_MinorVersion c) (cp_ops c) (st_world w) of
        (rs, s) \<Rightarrow>
          Some (((Some \<lparr>cr_Status = final_status rs, cr_Tag = cp_Tag c, cr_NumResults = length rs\<rparr>, None),
                 rs @ drop (length rs) results),
                w\<lparr>st_world := wire_tick s\<rparr>))"

subsection \<open>A connection to a server\<close>

text \<open>
  The contract between the methods and the stack of callers below them: a compound is run by the
  server, its results come back in the result structs, and nothing is lost or repeated.
\<close>

locale conn_server =
  fixes env :: "'s wire env" and ctx :: "'s wire goctx" and sv :: "'s server"
    and cl :: "'s wire caller" and mv :: u32 and I :: "'s wire store \<Rightarrow> bool"
  assumes call: "I w \<Longrightarrow> run_ops sv (None, None) ops (wi_fs (st_world w)) = (out, fs) \<Longrightarrow>
      \<not> isRetriableStatus (final_status out) \<Longrightarrow>
      \<exists>w'. CallCompound (ev_base env) cl ctx \<lparr>cp_Tag = [], cp_MinorVersion = mv, cp_ops = ops\<rparr> results w =
             Some (((Some \<lparr>cr_Status = final_status out, cr_Tag = [], cr_NumResults = length out\<rparr>, None),
                    out @ drop (length out) results), w') \<and>
           wi_fs (st_world w') = fs \<and> I w'"
begin

lemma Conn_call_served:
  assumes "cn_caller c = cl" "cc_MinorVersion (cn_cfg c) = mv" "I w"
    and "run_ops sv (None, None) ops (wi_fs (st_world w)) = (out, fs)" "\<not> isRetriableStatus (final_status out)"
  shows "\<exists>w'. Conn_call env ctx c ops results w =
           Some (((Some \<lparr>cr_Status = final_status out, cr_Tag = [], cr_NumResults = length out\<rparr>, None),
                  out @ drop (length out) results), w') \<and>
         wi_fs (st_world w') = fs \<and> I w'"
  using call [OF assms(3,4,5)] assms(1,2)
  by (simp add: Conn_call_def foldl_Compound_Add Conn_compound_def NewCompound_def)

lemma Conn_ops_served:
  assumes "cn_caller c = cl" "cc_MinorVersion (cn_cfg c) = mv" "I w"
    and "run_ops sv (None, None) ops (wi_fs (st_world w)) = (out, fs)" "\<not> isRetriableStatus (final_status out)"
  shows "\<exists>w'. Conn_ops env ctx c msg args ops results w =
           Some (if final_status out = NFS4_OK then Inr (out @ drop (length out) results)
                 else Inl (StatusError (final_status out)), w') \<and>
         wi_fs (st_world w') = fs \<and> I w'"
proof -
  from Conn_call_served [OF assms, of results] obtain w' where
    "Conn_call env ctx c ops results w =
       Some (((Some \<lparr>cr_Status = final_status out, cr_Tag = [], cr_NumResults = length out\<rparr>, None),
              out @ drop (length out) results), w')" "wi_fs (st_world w') = fs" "I w'" by blast
  then show ?thesis
    by (simp add: Conn_ops_def result_Err_def CompoundResult_Err_def Status_Err_def)
qed

lemma Conn_one_served:
  assumes "cn_caller c = cl" "cc_MinorVersion (cn_cfg c) = mv" "I w"
    and "serve_op sv (None, None) a (wi_fs (st_world w)) = (r, fhs, fs)" "\<not> isRetriableStatus (res_Status r)"
  shows "\<exists>w'. Conn_one env ctx c msg a r0 w = Some (Inr r, w') \<and> wi_fs (st_world w') = fs \<and> I w'"
proof -
  have "run_ops sv (None, None) [a] (wi_fs (st_world w)) = ([r], fs)" using assms(4) by simp
  moreover have "\<not> isRetriableStatus (final_status [r])" using assms(5) by (simp add: final_status_def)
  ultimately obtain w' where "Conn_call env ctx c [a] [r0] w =
       Some (((Some \<lparr>cr_Status = final_status [r], cr_Tag = [], cr_NumResults = length [r]\<rparr>, None),
              [r] @ drop (length [r]) [r0]), w')" "wi_fs (st_world w') = fs" "I w'"
    using Conn_call_served [OF assms(1-3), of "[a]" "[r]" fs "[r0]"] by blast
  then show ?thesis by (simp add: Conn_one_def)
qed

end

lemma retry_first:
  assumes "CallCompound base cl calm_ctx c results w = Some ((re, results'), w')" and "\<not> retriable re"
  shows "CallCompound base (newRetryCaller cl cfg) calm_ctx c results w = Some ((re, results'), w')"
proof -
  obtain k where "nat (rc_MaxAttempts (withDefaults cfg)) = Suc k"
    using withDefaults_MaxAttempts [of cfg] by (cases "nat (rc_MaxAttempts (withDefaults cfg))") auto
  then show ?thesis
    using assms
    by (simp add: newRetryCaller_def retryCaller_CallCompound_def calm_ctx_def del: retriable.simps)
qed

interpretation v40: conn_server "env\<lparr>ev_base := serve sv\<rparr>" calm_ctx sv "newRetryCaller BaseCaller cfg" 0 "\<lambda>_. True"
  for env sv cfg
proof
  fix w :: "'a wire store" and ops out fs results
  assume r: "run_ops sv (None, None) ops (wi_fs (st_world w)) = (out, fs)" "\<not> isRetriableStatus (final_status out)"
  let ?c = "\<lparr>cp_Tag = [], cp_MinorVersion = 0, cp_ops = ops\<rparr>"
  have "CallCompound (serve sv) BaseCaller calm_ctx ?c results w =
      Some (((Some \<lparr>cr_Status = final_status out, cr_Tag = [], cr_NumResults = length out\<rparr>, None),
        out @ drop (length out) results),
        w\<lparr>st_world := wire_tick ((st_world w)\<lparr>wi_fs := fs\<rparr>)\<rparr>)"
    using r by (simp add: serve_def)
  from retry_first [OF this, of cfg] r(2)
  show "\<exists>w'. CallCompound (ev_base (env\<lparr>ev_base := serve sv\<rparr>)) (newRetryCaller BaseCaller cfg) calm_ctx ?c results w =
          Some (((Some \<lparr>cr_Status = final_status out, cr_Tag = [], cr_NumResults = length out\<rparr>, None),
            out @ drop (length out) results), w') \<and>
        wi_fs (st_world w') = fs \<and> True"
    by simp
qed

text \<open>
  From minor version 1 on, the client's slot table is in step with the server's: no slot is in use
  and each one's next sequence id follows the last one the server saw.
\<close>

definition in_step :: "nat \<Rightarrow> 's wire store \<Rightarrow> bool" where
  "in_step i w \<longleftrightarrow>
     i < length (st_sessions w) \<and> session_idle (get_session i w) \<and>
     wi_sid (st_world w) = Some (se_id (get_session i w)) \<and>
     map sl_seq (se_slots (get_session i w)) = map (\<lambda>q. q + 1) (wi_slots (st_world w))"

text \<open>
  A call through the session, over any base caller that answers the compound with SEQUENCE in front
  as the server does.
\<close>

lemma in_step_call_via:
  assumes step: "in_step i w" and mv: "mv \<noteq> 0"
    and r: "run_ops sv (None, None) ops (wi_fs (st_world w)) = (out, fs)"
    and same: "\<And>q w1. wi_sid (st_world w) = Some (sq_SessionID q) \<Longrightarrow>
        unat (sq_SlotID q) < length (wi_slots (st_world w)) \<Longrightarrow>
        sq_SequenceID q = wi_slots (st_world w) ! unat (sq_SlotID q) + 1 \<Longrightarrow> st_world w1 = st_world w \<Longrightarrow>
        base calm_ctx \<lparr>cp_Tag = [], cp_MinorVersion = mv, cp_ops = ASequence q # ops\<rparr> (SequenceRes_zero # results) w1 =
        serve sv calm_ctx \<lparr>cp_Tag = [], cp_MinorVersion = mv, cp_ops = ASequence q # ops\<rparr> (SequenceRes_zero # results) w1"
  shows "\<exists>w'. CallCompound base (newSessionCaller BaseCaller i) calm_ctx
             \<lparr>cp_Tag = [], cp_MinorVersion = mv, cp_ops = ops\<rparr> results w =
           Some (((Some \<lparr>cr_Status = final_status out, cr_Tag = [], cr_NumResults = length out\<rparr>, None),
             out @ drop (length out) results), w') \<and>
         wi_fs (st_world w') = fs \<and> in_step i w' \<and> wi_sid (st_world w') = wi_sid (st_world w) \<and>
         wi_rpc (st_world w') = snd (allocXID (wi_rpc (st_world w)))"
proof -
  let ?s = "get_session i w" and ?c = "\<lparr>cp_Tag = [], cp_MinorVersion = mv, cp_ops = ops\<rparr>"
  from step have i: "i < length (st_sessions w)" and idle: "session_idle ?s"
    and sid: "wi_sid (st_world w) = Some (se_id ?s)"
    and seqs: "map sl_seq (se_slots ?s) = map (\<lambda>q. q + 1) (wi_slots (st_world w))"
    by (simp_all add: in_step_def)
  from idle seqs obtain sl sls q qs where sl: "se_slots ?s = sl # sls" "wi_slots (st_world w) = q # qs"
    "sl_seq sl = q + 1" "map sl_seq sls = map (\<lambda>q. q + 1) qs"
    by (cases "se_slots ?s"; cases "wi_slots (st_world w)") (auto simp: session_idle_def)
  obtain l where l: "AcquireSlot None ?s = Some (Inr l, first_slot_taken ?s)"
      "le_seq l = q + 1" "le_slotID l = 0"
    using AcquireSlot_idle [OF idle] sl by (auto simp: first_slot_taken_def)
  have sel: "cx_select calm_ctx w = (None, w)" by (simp add: calm_ctx_def)
  let ?w1 = "put_session i (first_slot_taken ?s) w"
  let ?q = "SequenceRes 0 (se_id ?s) (q + 1) 0 (le_highest l) (le_highest l) 0"
  let ?w2 = "?w1\<lparr>st_world := wire_tick ((st_world w)\<lparr>wi_fs := fs, wi_slots := (q + 1) # qs\<rparr>)\<rparr>"
  let ?r = "\<lparr>cr_Status = final_status (?q # out), cr_Tag = [], cr_NumResults = Suc (length out)\<rparr>"
  have "CallCompound base BaseCaller calm_ctx (wrap_compound (se_id ?s) l ?c) (SequenceRes_zero # results) ?w1 =
      serve sv calm_ctx (wrap_compound (se_id ?s) l ?c) (SequenceRes_zero # results) ?w1"
    using sid sl by (simp add: wrap_compound_eq) (rule same, simp_all add: l put_session_def)
  also have "\<dots> = Some (((Some ?r, None), ?q # (out @ drop (length out) results)), ?w2)"
    using mv r sid sl by (simp add: serve_def wrap_compound_eq wire_sequence_def l put_session_def Let_def)
  finally have base: "CallCompound base BaseCaller calm_ctx (wrap_compound (se_id ?s) l ?c) (SequenceRes_zero # results) ?w1 =
      Some (((Some ?r, None), ?q # (out @ drop (length out) results)), ?w2)" .
  have keep: "st_sessions ?w2 = (st_sessions w)[i := first_slot_taken ?s]" by (simp add: put_session_def)
  let ?w' = "?w2\<lparr>st_sessions := (st_sessions w)[i := bump True ?s]\<rparr>"
  have "CallCompound base (newSessionCaller BaseCaller i) calm_ctx ?c results w =
      Some (((Some (?r\<lparr>cr_NumResults := length out\<rparr>), None), out @ drop (length out) results), ?w')"
    using sessionCaller_idle [OF idle i sel l(1), of "CallCompound base BaseCaller calm_ctx", OF base keep]
    by (simp add: newSessionCaller_def)
  moreover have "final_status (?q # out) = final_status out"
    by (simp add: final_status_def)
  moreover have "in_step i ?w'"
    using i idle sl sid
    by (auto simp: in_step_def get_session_def bump_def session_idle_def)
  ultimately show ?thesis by (intro exI [of _ ?w']) (simp add: wire_tick_def)
qed

lemma in_step_call:
  assumes "in_step i w" and "mv \<noteq> 0" and "run_ops sv (None, None) ops (wi_fs (st_world w)) = (out, fs)"
  shows "\<exists>w'. CallCompound (serve sv) (newSessionCaller BaseCaller i) calm_ctx
             \<lparr>cp_Tag = [], cp_MinorVersion = mv, cp_ops = ops\<rparr> results w =
           Some (((Some \<lparr>cr_Status = final_status out, cr_Tag = [], cr_NumResults = length out\<rparr>, None),
             out @ drop (length out) results), w') \<and>
         wi_fs (st_world w') = fs \<and> in_step i w'"
proof -
  have "\<exists>w'. CallCompound (serve sv) (newSessionCaller BaseCaller i) calm_ctx
             \<lparr>cp_Tag = [], cp_MinorVersion = mv, cp_ops = ops\<rparr> results w =
           Some (((Some \<lparr>cr_Status = final_status out, cr_Tag = [], cr_NumResults = length out\<rparr>, None),
             out @ drop (length out) results), w') \<and>
         wi_fs (st_world w') = fs \<and> in_step i w' \<and> wi_sid (st_world w') = wi_sid (st_world w) \<and>
         wi_rpc (st_world w') = snd (allocXID (wi_rpc (st_world w)))"
    by (rule in_step_call_via [OF assms]) (rule refl)
  then show ?thesis by blast
qed

interpretation v41: conn_server "env\<lparr>ev_base := serve sv\<rparr>" calm_ctx sv
    "newRetryCaller (newSessionCaller BaseCaller i) cfg" 1 "in_step i"
  for env sv cfg i
proof
  fix w :: "'a wire store" and ops out fs results
  assume step: "in_step i w"
    and r: "run_ops sv (None, None) ops (wi_fs (st_world w)) = (out, fs)" "\<not> isRetriableStatus (final_status out)"
  let ?c = "\<lparr>cp_Tag = [], cp_MinorVersion = 1, cp_ops = ops\<rparr>"
  from in_step_call [OF step _ r(1), of 1 results] obtain w' where
    "CallCompound (serve sv) (newSessionCaller BaseCaller i) calm_ctx ?c results w =
       Some (((Some \<lparr>cr_Status = final_status out, cr_Tag = [], cr_NumResults = length out\<rparr>, None),
         out @ drop (length out) results), w')" "wi_fs (st_world w') = fs" "in_step i w'" by auto
  with retry_first [of "serve sv" "newSessionCaller BaseCaller i"] r(2)
  show "\<exists>w'. CallCompound (ev_base (env\<lparr>ev_base := serve sv\<rparr>)) (newRetryCaller (newSessionCaller BaseCaller i) cfg)
           calm_ctx ?c results w =
          Some (((Some \<lparr>cr_Status = final_status out, cr_Tag = [], cr_NumResults = length out\<rparr>, None),
            out @ drop (length out) results), w') \<and>
        wi_fs (st_world w') = fs \<and> in_step i w'"
    by fastforce
qed

end
