(* ===== verification/Conn_Refine.thy ===== *)
theory Conn_Refine
  imports Server
begin

text \<open>
  The methods of a connection refine the operations of the server it is connected to: each sends
  the compound that performs one abstract operation on file handles and returns its result, or the
  status of the first operation that failed. This holds for both stacks of callers the program
  builds, and mounting establishes it.
\<close>

subsection \<open>Connections in use\<close>

definition conn_on :: "'s wire Conn \<Rightarrow> 's wire store \<Rightarrow> bool" where
  "conn_on c w \<longleftrightarrow>
     (\<exists>cfg. cc_MinorVersion (cn_cfg c) = 0 \<and> cn_caller c = newRetryCaller BaseCaller cfg) \<or>
     (\<exists>cfg i. cc_MinorVersion (cn_cfg c) = 1 \<and>
        cn_caller c = newRetryCaller (newSessionCaller BaseCaller i) cfg \<and> in_step i w)"

text \<open>A server that does not ask for retries (those are the subject of \<open>Callers.retry_backoff\<close>).\<close>

definition never_delays :: "'s server \<Rightarrow> bool" where
  "never_delays sv \<longleftrightarrow>
     (\<forall>fhs a s. \<not> isRetriableStatus (res_Status (fst (serve_op sv fhs a s)))) \<and>
     (\<forall>verf owner flags s. \<not> isRetriableStatus (fst (fst (sv_exchange_id sv verf owner flags s)))) \<and>
     (\<forall>a s. \<not> isRetriableStatus (fst (fst (sv_create_session sv a s))))"

lemma run_ops_prompt:
  assumes "never_delays sv"
  shows "run_ops sv fhs ops s = (out, fs) \<Longrightarrow> \<not> isRetriableStatus (final_status out)"
proof (induction ops arbitrary: fhs s out fs)
  case Nil
  then show ?case by (simp add: final_status_def isRetriableStatus_def)
next
  case (Cons a ops)
  obtain r fhs' s' where r: "serve_op sv fhs a s = (r, fhs', s')" by (metis prod.exhaust)
  then have "\<not> isRetriableStatus (res_Status r)" using assms by (metis fst_conv never_delays_def)
  then show ?case
    using Cons.prems r Cons.IH [of fhs' s']
    by (auto simp: final_status_def split: if_splits prod.splits)
qed

lemma conn_onI40: "cc_MinorVersion (cn_cfg c) = 0 \<Longrightarrow> cn_caller c = newRetryCaller BaseCaller cfg \<Longrightarrow> conn_on c w"
  unfolding conn_on_def by blast

lemma conn_onI41:
  "cc_MinorVersion (cn_cfg c) = 1 \<Longrightarrow> cn_caller c = newRetryCaller (newSessionCaller BaseCaller i) cfg \<Longrightarrow>
   in_step i w \<Longrightarrow> conn_on c w"
  unfolding conn_on_def by blast

lemma conn_on_cong [simp]:
  "conn_on (c\<lparr>cn_openSeqid := n\<rparr>) w = conn_on c w"
  "conn_on (c\<lparr>cn_rootFH := fh\<rparr>) w = conn_on c w"
  "conn_on (c\<lparr>cn_clientID := cid\<rparr>) w = conn_on c w"
  "conn_on (c\<lparr>cn_confirm := verf\<rparr>) w = conn_on c w"
  by (simp_all add: conn_on_def)

lemma conn_on_call:
  assumes "conn_on c w" and "never_delays sv" and "run_ops sv (None, None) ops (wi_fs (st_world w)) = (out, fs)"
  shows "\<exists>w'. Conn_call (env\<lparr>ev_base := serve sv\<rparr>) calm_ctx c ops results w =
           Some (((Some \<lparr>cr_Status = final_status out, cr_Tag = [], cr_NumResults = length out\<rparr>, None),
                  out @ drop (length out) results), w') \<and>
         wi_fs (st_world w') = fs \<and> conn_on c w'"
  using assms(1)
proof (unfold conn_on_def [of c w], elim disjE exE conjE)
  fix cfg assume c: "cc_MinorVersion (cn_cfg c) = 0" "cn_caller c = newRetryCaller BaseCaller cfg"
  then have "conn_on c w'" for w' by (rule conn_onI40)
  with v40.Conn_call_served [OF c(2,1) TrueI assms(3) run_ops_prompt [OF assms(2,3)]]
  show ?thesis by blast
next
  fix cfg i
  assume c: "cc_MinorVersion (cn_cfg c) = 1" "cn_caller c = newRetryCaller (newSessionCaller BaseCaller i) cfg"
    and step: "in_step i w"
  then have "in_step i w' \<Longrightarrow> conn_on c w'" for w' by (intro conn_onI41)
  with v41.Conn_call_served [OF c(2,1) step assms(3) run_ops_prompt [OF assms(2,3)]]
  show ?thesis by blast
qed

lemma conn_on_ops:
  assumes "conn_on c w" and "never_delays sv" and "run_ops sv (None, None) ops (wi_fs (st_world w)) = (out, fs)"
  shows "\<exists>w'. Conn_ops (env\<lparr>ev_base := serve sv\<rparr>) calm_ctx c msg args ops results w =
           Some (if final_status out = NFS4_OK then Inr (out @ drop (length out) results)
                 else Inl (StatusError (final_status out)), w') \<and>
         wi_fs (st_world w') = fs \<and> conn_on c w'"
  using conn_on_call [OF assms, of env results]
  by (auto simp: Conn_ops_def result_Err_def CompoundResult_Err_def Status_Err_def)

subsection \<open>The abstract operations\<close>

text \<open>An operation on a file handle: the handle is checked first; a status other than OK is the error.\<close>

definition at_fh :: "'s server \<Rightarrow> FileHandle \<Rightarrow> 's \<Rightarrow> (Status \<times> 'a) \<times> 's \<Rightarrow> (goerror + 'a) \<times> 's" where
  "at_fh sv fh s out =
     (if sv_putfh sv (nilb fh) s \<noteq> NFS4_OK then (Inl (StatusError (sv_putfh sv (nilb fh) s)), s)
      else (case out of ((st, x), s') \<Rightarrow> (if st = NFS4_OK then Inr x else Inl (StatusError st), s')))"

definition at_fh_err :: "'s server \<Rightarrow> FileHandle \<Rightarrow> 's \<Rightarrow> Status \<times> 's \<Rightarrow> goerror option \<times> 's" where
  "at_fh_err sv fh s out =
     (if sv_putfh sv (nilb fh) s \<noteq> NFS4_OK then (Some (StatusError (sv_putfh sv (nilb fh) s)), s)
      else (case out of (st, s') \<Rightarrow> (Status_Err st, s')))"

text \<open>A method call returns the given result, leaves the server in the given state and the connection in use.\<close>

definition performs :: "'s wire Conn \<Rightarrow> ('a \<times> 's wire store) option \<Rightarrow> 'a \<times> 's \<Rightarrow> bool" where
  "performs c m spec \<longleftrightarrow> (\<exists>w'. m = Some (fst spec, w') \<and> wi_fs (st_world w') = snd spec \<and> conn_on c w')"

text \<open>All file operations begin with PUTFH.\<close>

lemma conn_on_put:
  assumes "conn_on c w" and "never_delays sv" and "s = wi_fs (st_world w)"
  shows "\<exists>w'. Conn_ops (env\<lparr>ev_base := serve sv\<rparr>) calm_ctx c msg args (PutfhArgs fh # ops) (StatusRes 0 # results) w =
           Some (if sv_putfh sv (nilb fh) s \<noteq> NFS4_OK then Inl (StatusError (sv_putfh sv (nilb fh) s))
                 else (case run_ops sv (Some (nilb fh), None) ops s of
                         (out, fs) \<Rightarrow> if final_status out = NFS4_OK then Inr (StatusRes 0 # out @ drop (length out) results)
                                      else Inl (StatusError (final_status out))), w') \<and>
         wi_fs (st_world w') = (if sv_putfh sv (nilb fh) s \<noteq> NFS4_OK then s
                                else snd (run_ops sv (Some (nilb fh), None) ops s)) \<and>
         conn_on c w'"
proof (cases "sv_putfh sv (nilb fh) s = NFS4_OK")
  case True
  obtain out fs where out: "run_ops sv (Some (nilb fh), None) ops s = (out, fs)" by (metis prod.exhaust)
  with True have "run_ops sv (None, None) (PutfhArgs fh # ops) (wi_fs (st_world w)) = (StatusRes 0 # out, fs)"
    using assms(3) by (simp add: Let_def)
  from conn_on_ops [OF assms(1,2) this, of env msg args "StatusRes 0 # results"] True out
  show ?thesis by (auto simp: final_status_def split: if_splits)
next
  case False
  then have "run_ops sv (None, None) (PutfhArgs fh # ops) (wi_fs (st_world w)) = ([StatusRes (sv_putfh sv (nilb fh) s)], s)"
    using assms(3) by (simp add: Let_def)
  from conn_on_ops [OF assms(1,2) this, of env msg args "StatusRes 0 # results"] False
  show ?thesis by (auto simp: final_status_def)
qed

lemmas refine_defs = performs_def at_fh_def at_fh_err_def final_status_def last_status_def Status_Err_def

lemma Lookup_refines:
  assumes "conn_on c w" "never_delays sv" and "s = wi_fs (st_world w)"
  shows "performs c (Lookup (env\<lparr>ev_base := serve sv\<rparr>) calm_ctx c dir name w)
    (at_fh sv dir s (case sv_lookup sv (nilb dir) name s of (st, fh) \<Rightarrow> ((st, Some fh), s)))"
  using conn_on_put [OF assms, of env "''nfs4: LOOKUP %q: %w''" "[FStr name]" dir "[LookupArgs name, GetfhArgs]"
      "[StatusRes 0, GetfhRes 0 None]"]
  by (auto simp: Lookup_def refine_defs split: if_splits prod.splits)

lemma GetAttr_refines:
  assumes "conn_on c w" "never_delays sv" and "s = wi_fs (st_world w)"
  shows "performs c (GetAttr (env\<lparr>ev_base := serve sv\<rparr>) calm_ctx c fh bm w)
    (at_fh sv fh s (sv_getattr sv (nilb fh) bm s, s))"
  using conn_on_put [OF assms, of env "''nfs4: GETATTR: %w''" "[]" fh "[GetattrArgs bm]" "[GetattrRes 0 [] []]"]
  by (auto simp: GetAttr_def refine_defs split: if_splits prod.splits)

lemma Read_refines:
  assumes "conn_on c w" "never_delays sv" and "s = wi_fs (st_world w)"
  shows "performs c (Read (env\<lparr>ev_base := serve sv\<rparr>) calm_ctx c fh offset count w)
    (at_fh sv fh s (sv_read sv (nilb fh) AnonStateid offset count s, s))"
  using conn_on_put [OF assms, of env "''nfs4: READ: %w''" "[]" fh "[ReadArgs AnonStateid offset count]"
      "[ReadRes 0 False []]"]
  by (auto simp: Read_def refine_defs split: if_splits prod.splits)

lemma Readdir_refines:
  assumes "conn_on c w" "never_delays sv" and "s = wi_fs (st_world w)"
  shows "performs c (Readdir (env\<lparr>ev_base := serve sv\<rparr>) calm_ctx c dir cookie verf bm w)
    (at_fh sv dir s (case sv_readdir sv (nilb dir) cookie verf 8192 65536 bm s of
       (st, verf', entries, eof) \<Rightarrow> ((st, ReaddirRes 0 verf' entries eof), s)))"
  using conn_on_put [OF assms, of env "''nfs4: READDIR: %w''" "[]" dir "[ReaddirArgs cookie verf 8192 65536 bm]"
      "[ReaddirRes 0 (zeros 8) [] False]"]
  by (auto simp: Readdir_def refine_defs split: if_splits prod.splits)

lemma Readlink_refines:
  assumes "conn_on c w" "never_delays sv" and "s = wi_fs (st_world w)"
  shows "performs c (Readlink (env\<lparr>ev_base := serve sv\<rparr>) calm_ctx c fh w)
    (at_fh sv fh s (sv_readlink sv (nilb fh) s, s))"
  using conn_on_put [OF assms, of env "''nfs4: READLINK: %w''" "[]" fh "[ReadlinkArgs]" "[ReadlinkRes 0 []]"]
  by (auto simp: Readlink_def refine_defs split: if_splits prod.splits)

lemma Renew_refines:
  assumes "conn_on c w" "never_delays sv" and "s = wi_fs (st_world w)"
  shows "performs c (Renew (env\<lparr>ev_base := serve sv\<rparr>) calm_ctx c w)
    (case sv_renew sv (cn_clientID c) s of (st, s') \<Rightarrow> (Status_Err st, s'))"
proof -
  obtain st s' where r: "sv_renew sv (cn_clientID c) s = (st, s')" by (metis prod.exhaust)
  then have "run_ops sv (None, None) [RenewArgs (cn_clientID c)] (wi_fs (st_world w)) = ([StatusRes st], s')"
    using assms(3) by (simp split: if_splits)
  from conn_on_call [OF assms(1,2) this, of env "[StatusRes 0]"] r
  show ?thesis by (auto simp: Renew_def Conn_one_def ClientID_def refine_defs)
qed

lemma Write_refines:
  assumes "conn_on c w" "never_delays sv" and "s = wi_fs (st_world w)"
  shows "performs c (Write (env\<lparr>ev_base := serve sv\<rparr>) calm_ctx c fh sid offset data how w)
    (at_fh sv fh s (sv_write sv (nilb fh) sid offset how data s))"
  using conn_on_put [OF assms, of env "''nfs4: WRITE: %w''" "[]" fh "[WriteArgs sid offset how data]"
      "[WriteRes 0 0 0 (zeros 8)]"]
  by (auto simp: Write_def refine_defs split: if_splits prod.splits)

lemma Commit_refines:
  assumes "conn_on c w" "never_delays sv" and "s = wi_fs (st_world w)"
  shows "performs c (Commit (env\<lparr>ev_base := serve sv\<rparr>) calm_ctx c fh offset count w)
    (at_fh_err sv fh s (sv_commit sv (nilb fh) offset count s))"
  using conn_on_put [OF assms, of env "''nfs4: COMMIT: %w''" "[]" fh "[CommitArgs offset count]"
      "[CommitRes 0 (zeros 8)]"]
  by (auto simp: Commit_def refine_defs split: if_splits prod.splits)

lemma create_refines:
  assumes "conn_on c w" "never_delays sv" and "s = wi_fs (st_world w)"
  shows "performs c (create (env\<lparr>ev_base := serve sv\<rparr>) calm_ctx c dir args w)
    (at_fh sv dir s (case sv_create sv (nilb dir) args s of ((st, fh), s') \<Rightarrow> ((st, Some fh), s')))"
  using conn_on_put [OF assms, of env "''nfs4: CREATE: %w''" "[]" dir "[ACreate args, GetfhArgs]"
      "[CreateRes 0 [], GetfhRes 0 None]"]
  by (auto simp: create_def refine_defs split: if_splits prod.splits)

lemma Remove_refines:
  assumes "conn_on c w" "never_delays sv" and "s = wi_fs (st_world w)"
  shows "performs c (Remove (env\<lparr>ev_base := serve sv\<rparr>) calm_ctx c dir name w)
    (at_fh_err sv dir s (sv_remove sv (nilb dir) name s))"
  using conn_on_put [OF assms, of env "''nfs4: REMOVE: %w''" "[]" dir "[RemoveArgs name]" "[RemoveRes 0]"]
  by (auto simp: Remove_def refine_defs split: if_splits prod.splits)

lemma Rename_refines:
  assumes "conn_on c w" "never_delays sv" and "s = wi_fs (st_world w)"
  shows "performs c (Rename (env\<lparr>ev_base := serve sv\<rparr>) calm_ctx c src oldname dst newname w)
    (if sv_putfh sv (nilb src) s \<noteq> NFS4_OK then (Some (StatusError (sv_putfh sv (nilb src) s)), s)
     else at_fh_err sv dst s (sv_rename sv (nilb src) oldname (nilb dst) newname s))"
  using conn_on_put [OF assms, of env "''nfs4: RENAME: %w''" "[]" src
      "[SavefhArgs, PutfhArgs dst, RenameArgs oldname newname]" "[StatusRes 0, StatusRes 0, RenameRes 0]"]
  by (auto simp: Rename_def refine_defs Let_def split: if_splits prod.splits)

lemma Link_refines:
  assumes "conn_on c w" "never_delays sv" and "s = wi_fs (st_world w)"
  shows "performs c (Link (env\<lparr>ev_base := serve sv\<rparr>) calm_ctx c src dst newname w)
    (if sv_putfh sv (nilb src) s \<noteq> NFS4_OK then (Some (StatusError (sv_putfh sv (nilb src) s)), s)
     else at_fh_err sv dst s (sv_link sv (nilb src) (nilb dst) newname s))"
  using conn_on_put [OF assms, of env "''nfs4: LINK: %w''" "[]" src
      "[SavefhArgs, PutfhArgs dst, LinkArgs newname]" "[StatusRes 0, StatusRes 0, LinkRes 0]"]
  by (auto simp: Link_def refine_defs Let_def split: if_splits prod.splits)

lemma SetAttr_refines:
  assumes "conn_on c w" "never_delays sv" and "s = wi_fs (st_world w)"
  shows "performs c (SetAttr (env\<lparr>ev_base := serve sv\<rparr>) calm_ctx c fh sid bm vals w)
    (at_fh_err sv fh s (sv_setattr sv (nilb fh) sid bm vals s))"
  using conn_on_put [OF assms, of env "''nfs4: SETATTR: %w''" "[]" fh "[SetattrArgs sid bm vals]" "[SetattrRes 0 []]"]
  by (auto simp: SetAttr_def refine_defs split: if_splits prod.splits)

text \<open>
  Operations with an open-owner sequence id: the connection comes back with the id advanced.
\<close>

definition performs_seq :: "'s wire Conn \<Rightarrow> ('a \<times> 's wire Conn \<times> 's wire store) option \<Rightarrow> 'a \<times> u32 \<times> 's \<Rightarrow> bool" where
  "performs_seq c m spec \<longleftrightarrow>
     (case spec of (out, n, s) \<Rightarrow>
        \<exists>w'. m = Some (out, c\<lparr>cn_openSeqid := n\<rparr>, w') \<and> wi_fs (st_world w') = s \<and> conn_on c w')"

lemma CloseFile_refines:
  assumes "conn_on c w" "never_delays sv" and "s = wi_fs (st_world w)"
  shows "performs_seq c (CloseFile (env\<lparr>ev_base := serve sv\<rparr>) calm_ctx c fh sid w)
    (case at_fh_err sv fh s (sv_close sv (nilb fh) (cn_openSeqid c + 1) sid s) of
       (err, s') \<Rightarrow> (err, cn_openSeqid c + 1, s'))"
proof -
  let ?c = "c\<lparr>cn_openSeqid := cn_openSeqid c + 1\<rparr>"
  have "conn_on ?c w" using assms(1) by simp
  from conn_on_put [OF this assms(2,3), of env "''nfs4: CLOSE: %w''" "[]" fh "[CloseArgs (cn_openSeqid c + 1) sid]"
      "[CloseRes 0 Stateid_zero]"]
  show ?thesis
    by (auto simp: CloseFile_def nextSeqid_def Let_def performs_seq_def refine_defs split: if_splits prod.splits)
qed

lemma openConfirm_refines:
  assumes "conn_on c w" "never_delays sv" and "s = wi_fs (st_world w)"
  shows "performs_seq c (openConfirm (env\<lparr>ev_base := serve sv\<rparr>) calm_ctx c fh sid w)
    (case at_fh sv fh s (sv_open_confirm sv (nilb fh) sid (cn_openSeqid c + 1) s) of
       (out, s') \<Rightarrow> (out, cn_openSeqid c + 1, s'))"
proof -
  let ?c = "c\<lparr>cn_openSeqid := cn_openSeqid c + 1\<rparr>"
  have "conn_on ?c w" using assms(1) by simp
  from conn_on_put [OF this assms(2,3), of env "''nfs4: OPEN_CONFIRM: %w''" "[]" fh
      "[OpenConfirmArgs sid (cn_openSeqid c + 1)]" "[OpenConfirmRes 0 Stateid_zero]"]
  show ?thesis
    by (auto simp: openConfirm_def nextSeqid_def Let_def performs_seq_def refine_defs split: if_splits prod.splits)
qed

definition open_spec :: "'s server \<Rightarrow> FileHandle \<Rightarrow> OpenArgs \<Rightarrow> u32 \<Rightarrow> 's \<Rightarrow> (goerror + OpenResult) \<times> u32 \<times> 's" where
  "open_spec sv dir args n s =
     (case at_fh sv dir s (sv_open sv (nilb dir) args s) of
        (Inl err, s) \<Rightarrow> (Inl err, n, s)
      | (Inr (fh, sid, rflags), s) \<Rightarrow>
          if rflags AND OpenResultConfirm = 0 then (Inr \<lparr>or_FH = Some fh, or_Stateid = sid\<rparr>, n, s)
          else (case at_fh sv (Some fh) s (sv_open_confirm sv fh sid (n + 1) s) of
                  (Inl err, s) \<Rightarrow> (Inl err, n + 1, s)
                | (Inr sid', s) \<Rightarrow> (Inr \<lparr>or_FH = Some fh, or_Stateid = sid'\<rparr>, n + 1, s)))"

lemma Open_args_seqid [simp]: "Open_args (c\<lparr>cn_openSeqid := m\<rparr>) = Open_args c"
  by (intro ext) (simp add: Open_args_def ClientID_def ownerID_def Let_def)

text \<open>The compound of OPEN, before the new open owner is confirmed.\<close>

lemma Open_call_refines:
  assumes "conn_on c w" "never_delays sv" and "s = wi_fs (st_world w)"
    and "sv_open sv (nilb dir) a s = ((st, fh, sid, rflags), s1)"
  shows "\<exists>w1. Conn_ops (env\<lparr>ev_base := serve sv\<rparr>) calm_ctx c ''nfs4: OPEN: %w'' [] [PutfhArgs dir, AOpen a, GetfhArgs]
        [StatusRes 0, OpenRes 0 Stateid_zero 0 [], GetfhRes 0 None] w =
      Some (if sv_putfh sv (nilb dir) s \<noteq> NFS4_OK then Inl (StatusError (sv_putfh sv (nilb dir) s))
            else if st = NFS4_OK then Inr [StatusRes 0, OpenRes 0 sid rflags [], GetfhRes 0 (Some fh)]
            else Inl (StatusError st), w1) \<and>
    wi_fs (st_world w1) = (if sv_putfh sv (nilb dir) s \<noteq> NFS4_OK then s else s1) \<and> conn_on c w1"
  using conn_on_put [OF assms(1-3), of env "''nfs4: OPEN: %w''" "[]" dir "[AOpen a, GetfhArgs]"
      "[OpenRes 0 Stateid_zero 0 [], GetfhRes 0 None]"] assms(4)
  by (auto simp: final_status_def split: if_splits)

lemma Open_refines:
  assumes "conn_on c w" "never_delays sv" and "s = wi_fs (st_world w)" and "n = cn_openSeqid c + 1"
  shows "performs_seq c (Open (env\<lparr>ev_base := serve sv\<rparr>) calm_ctx c dir name share bm vals doCreate excl w)
    (open_spec sv dir (Open_args c n name share bm vals doCreate excl) n s)"
proof -
  let ?c = "c\<lparr>cn_openSeqid := n\<rparr>" and ?E = "env\<lparr>ev_base := serve sv\<rparr>"
  let ?a = "Open_args c n name share bm vals doCreate excl"
  have "conn_on ?c w" using assms(1) by simp
  obtain st fh sid rflags s1 where op: "sv_open sv (nilb dir) ?a s = ((st, fh, sid, rflags), s1)" by (metis prod.exhaust)
  from Open_call_refines [OF \<open>conn_on ?c w\<close> assms(2,3) op, of env] obtain w1 where
    w1: "Conn_ops ?E calm_ctx ?c ''nfs4: OPEN: %w'' [] [PutfhArgs dir, AOpen ?a, GetfhArgs]
        [StatusRes 0, OpenRes 0 Stateid_zero 0 [], GetfhRes 0 None] w =
      Some (if sv_putfh sv (nilb dir) s \<noteq> NFS4_OK then Inl (StatusError (sv_putfh sv (nilb dir) s))
            else if st = NFS4_OK then Inr [StatusRes 0, OpenRes 0 sid rflags [], GetfhRes 0 (Some fh)]
            else Inl (StatusError st), w1)"
      "wi_fs (st_world w1) = (if sv_putfh sv (nilb dir) s \<noteq> NFS4_OK then s else s1)" "conn_on ?c w1" by blast
  show ?thesis
  proof (cases "sv_putfh sv (nilb dir) s = NFS4_OK \<and> st = NFS4_OK \<and> rflags AND OpenResultConfirm \<noteq> 0")
    case True
    with op w1 have "wi_fs (st_world w1) = s1" by simp
    from openConfirm_refines [OF w1(3) assms(2) this [symmetric], of env "Some fh" sid]
    show ?thesis
      using True op w1 assms(4)
      by (auto simp: Open_def nextSeqid_def Let_def NeedsConfirm_def open_spec_def performs_seq_def at_fh_def
          split: if_splits prod.splits)
  next
    case False
    then show ?thesis
      using op w1 assms(4)
      by (auto simp: Open_def nextSeqid_def Let_def NeedsConfirm_def open_spec_def performs_seq_def at_fh_def)
  qed
qed

subsection \<open>Paths\<close>

text \<open>Walking down from a file handle, one name after the other.\<close>

fun walk :: "'s server \<Rightarrow> 's \<Rightarrow> FileHandle \<Rightarrow> string list \<Rightarrow> goerror + FileHandle" where
  "walk sv s cur [] = Inr cur"
| "walk sv s cur (name # names) =
     (case fst (at_fh sv cur s (sv_lookup sv (nilb cur) name s, s)) of
        Inl err \<Rightarrow> Inl err
      | Inr fh \<Rightarrow> walk sv s (Some fh) names)"

lemma LookupPath_loop_walks:
  assumes "never_delays sv"
  shows "conn_on c w \<Longrightarrow> s = wi_fs (st_world w) \<Longrightarrow>
    performs c (LookupPath_loop (env\<lparr>ev_base := serve sv\<rparr>) calm_ctx c cur names w)
      (walk sv s cur (filter (\<lambda>n. n \<noteq> [] \<and> n \<noteq> ''.'') names), s)"
proof (induction names arbitrary: cur w)
  case Nil
  then show ?case by (simp add: performs_def)
next
  case (Cons name names)
  show ?case
  proof (cases "name = [] \<or> name = ''.''")
    case True
    then show ?thesis using Cons by auto
  next
    case False
    from Lookup_refines [OF Cons.prems(1) assms Cons.prems(2), of env cur name]
    obtain w' where w': "Lookup (env\<lparr>ev_base := serve sv\<rparr>) calm_ctx c cur name w =
        Some (fst (at_fh sv cur s (case sv_lookup sv (nilb cur) name s of (st, fh) \<Rightarrow> ((st, Some fh), s))), w')"
        "wi_fs (st_world w') = s" "conn_on c w'"
      by (auto simp: performs_def at_fh_def split: prod.splits)
    show ?thesis
      using False w' Cons.IH [OF w'(3) w'(2) [symmetric]]
      by (auto simp: performs_def at_fh_def split: prod.splits if_splits)
  qed
qed

subsection \<open>Mounting\<close>

lemma never_delays_op: "never_delays sv \<Longrightarrow> serve_op sv fhs a s = (r, fhs', s') \<Longrightarrow> \<not> isRetriableStatus (res_Status r)"
  by (metis fst_conv never_delays_def)

text \<open>A compound of one operation that takes no file handle.\<close>

lemma conn_on_one:
  assumes "conn_on c w" and "never_delays sv" and "serve_op sv (None, None) a (wi_fs (st_world w)) = (r, fhs, fs)"
  shows "\<exists>w'. Conn_one (env\<lparr>ev_base := serve sv\<rparr>) calm_ctx c msg a r0 w = Some (Inr r, w') \<and>
         wi_fs (st_world w') = fs \<and> conn_on c w'"
proof -
  have "run_ops sv (None, None) [a] (wi_fs (st_world w)) = ([r], fs)" using assms(3) by simp
  from conn_on_call [OF assms(1,2) this, of env "[r0]"] show ?thesis by (auto simp: Conn_one_def)
qed

lemma fetchRootFH_refines:
  assumes "conn_on c w" and "never_delays sv" and "s = wi_fs (st_world w)"
  shows "\<exists>w'. fetchRootFH (env\<lparr>ev_base := serve sv\<rparr>) calm_ctx c w =
           Some (None, c\<lparr>cn_rootFH := Some (sv_root sv s)\<rparr>, w') \<and>
         wi_fs (st_world w') = s \<and> conn_on c w'"
proof -
  have "run_ops sv (None, None) [PutrootfhArgs, GetfhArgs] (wi_fs (st_world w)) =
      ([StatusRes 0, GetfhRes 0 (Some (sv_root sv s))], s)"
    using assms(3) by simp
  from conn_on_call [OF assms(1,2) this, of env "[StatusRes 0, GetfhRes 0 None]"]
  show ?thesis
    by (auto simp: fetchRootFH_def result_Err_def CompoundResult_Err_def final_status_def)
qed

definition setclientid_args :: "'s env \<Rightarrow> 's Conn \<Rightarrow> bytes \<Rightarrow> SetclientidArgs" where
  "setclientid_args env c verf =
     \<lparr>sc_Verifier = verf, sc_ID = bytes_of_string (clientName env c), sc_CallbackProg = 0,
      sc_CallbackNetID = ''tcp'', sc_CallbackAddr = ''0.0.0.0.0.0'', sc_CallbackIdent = 0\<rparr>"

text \<open>What mounting with minor version 0 does to the server: the error, the client id and the state.\<close>

definition mount40_spec :: "'s server \<Rightarrow> SetclientidArgs \<Rightarrow> 's \<Rightarrow> goerror option \<times> u64 \<times> 's" where
  "mount40_spec sv args s =
     (case sv_setclientid sv args s of
        ((st, cid, confirm), s) \<Rightarrow>
          if st \<noteq> NFS4_OK then (Some (WrapF ''nfs4: SETCLIENTID rejected: %w'' [] (StatusError st)), cid, s)
          else (case sv_confirm sv cid confirm s of
                  (st, s) \<Rightarrow>
                    if st \<noteq> NFS4_OK then (Some (WrapF ''nfs4: SETCLIENTID_CONFIRM rejected: %w'' [] (StatusError st)), cid, s)
                    else (None, cid, s)))"

lemma clientName_env [simp]: "clientName (env\<lparr>ev_base := b\<rparr>) c = clientName env c"
  by (simp add: clientName_def)

lemma Mount_v40:
  assumes c: "cc_MinorVersion (cn_cfg c) = 0" "cn_caller c = newRetryCaller BaseCaller cfg"
    and sv: "never_delays sv" and rand: "ev_rand env w = (Inr verf, w)" and s: "s = wi_fs (st_world w)"
    and spec: "mount40_spec sv (setclientid_args env c verf) s = (err, cid, s')"
  shows "\<exists>c' w'. Mount (env\<lparr>ev_base := serve sv\<rparr>) calm_ctx c w = Some (err, c', w') \<and>
     wi_fs (st_world w') = s' \<and> conn_on c' w' \<and>
     (err = None \<longrightarrow> ClientID c' = cid \<and> RootFH c' = Some (sv_root sv s'))"
proof -
  let ?E = "env\<lparr>ev_base := serve sv\<rparr>" and ?a = "setclientid_args env c verf"
  have on: "conn_on c w" using c by (auto simp: conn_on_def)
  obtain st1 cid1 confirm s1 where set: "sv_setclientid sv ?a s = ((st1, cid1, confirm), s1)" by (metis prod.exhaust)
  have op1: "serve_op sv (None, None) (ASetclientid ?a) (wi_fs (st_world w)) =
      (if st1 = 0 then SetclientidRes 0 cid1 confirm [] [] else SetclientidRes st1 0 (zeros 8) [] [], (None, None), s1)"
    using set s by simp
  obtain w1 where w1: "setClientID ?E calm_ctx c w =
      Some (if st1 = 0 then (None, c\<lparr>cn_clientID := cid1, cn_confirm := confirm\<rparr>, w1)
            else (Some (WrapF ''nfs4: SETCLIENTID rejected: %w'' [] (StatusError st1)), c, w1))"
      "wi_fs (st_world w1) = s1" "conn_on c w1"
    using conn_on_one [OF on sv op1, of env "''nfs4: SETCLIENTID: %w''" "SetclientidRes 0 0 (zeros 8) [] []"] rand
    by (auto simp: setClientID_def setclientid_args_def Status_Err_def split: if_splits)
  let ?c1 = "c\<lparr>cn_clientID := cid1, cn_confirm := confirm\<rparr>"
  show ?thesis
  proof (cases "st1 = 0")
    case False
    then show ?thesis using c w1 set spec by (auto simp: Mount_def mount40_spec_def)
  next
    case True
    obtain st2 s2 where conf: "sv_confirm sv cid1 confirm s1 = (st2, s2)" by (metis prod.exhaust)
    have op2: "serve_op sv (None, None) (SetclientidConfirmArgs cid1 confirm) (wi_fs (st_world w1)) =
        (StatusRes st2, (None, None), s2)" using conf w1 by simp
    have on1: "conn_on ?c1 w1" using w1 by simp
    obtain w2 where w2: "confirmClientID ?E calm_ctx ?c1 w1 =
        Some (if st2 = 0 then None
              else Some (WrapF ''nfs4: SETCLIENTID_CONFIRM rejected: %w'' [] (StatusError st2)), ?c1, w2)"
        "wi_fs (st_world w2) = s2" "conn_on ?c1 w2"
      using conn_on_one [OF on1 sv op2, of env "''nfs4: SETCLIENTID_CONFIRM: %w''" "StatusRes 0"]
      by (auto simp: confirmClientID_def Status_Err_def split: if_splits)
    from fetchRootFH_refines [OF w2(3) sv w2(2) [symmetric], of env] obtain w3 where
      "fetchRootFH ?E calm_ctx ?c1 w2 = Some (None, ?c1\<lparr>cn_rootFH := Some (sv_root sv s2)\<rparr>, w3)"
      "wi_fs (st_world w3) = s2" "conn_on ?c1 w3" by blast
    then show ?thesis
      using True c w1 w2 set conf spec
      by (auto simp: Mount_def mount40_spec_def ClientID_def RootFH_def split: if_splits)
  qed
qed

text \<open>With minor version 1: EXCHANGE_ID and CREATE_SESSION are sent before there is a session.\<close>

lemma presession_one:
  assumes "cc_MinorVersion (cn_cfg c) = 1" "cn_caller c = newRetryCaller BaseCaller cfg"
    and "wire_ops sv 1 [a] (st_world w) = ([r], s')" "\<not> isRetriableStatus (res_Status r)"
  shows "Conn_one (env\<lparr>ev_base := serve sv\<rparr>) calm_ctx c msg a r0 w = Some (Inr r, w\<lparr>st_world := wire_tick s'\<rparr>)"
proof -
  let ?c = "\<lparr>cp_Tag = [], cp_MinorVersion = 1, cp_ops = [a]\<rparr>"
  have "CallCompound (serve sv) BaseCaller calm_ctx ?c [r0] w =
      Some (((Some \<lparr>cr_Status = res_Status r, cr_Tag = [], cr_NumResults = 1\<rparr>, None), [r]), w\<lparr>st_world := wire_tick s'\<rparr>)"
    using assms(3) by (simp add: serve_def final_status_def del: wire_ops.simps)
  from retry_first [OF this, of cfg] assms(4)
  have "CallCompound (serve sv) (newRetryCaller BaseCaller cfg) calm_ctx ?c [r0] w =
      Some (((Some \<lparr>cr_Status = res_Status r, cr_Tag = [], cr_NumResults = 1\<rparr>, None), [r]), w\<lparr>st_world := wire_tick s'\<rparr>)"
    by simp
  then show ?thesis
    using assms(1,2) by (simp add: Conn_one_def Conn_call_def Conn_compound_def NewCompound_def Compound_Add_def)
qed

definition session_args :: "u64 \<Rightarrow> u32 \<Rightarrow> CreateSessionArgs" where
  "session_args cid seqid =
     \<lparr>cs_ClientID = cid, cs_SequenceID = seqid, cs_Flags = 0, cs_ForeChan = session_chan,
      cs_BackChan = session_chan, cs_CBProgram = 0\<rparr>"

lemma exchangeID_refines:
  assumes "cc_MinorVersion (cn_cfg c) = 1" "cn_caller c = newRetryCaller BaseCaller cfg" "never_delays sv"
    and "ev_rand env w = (Inr verf, w)"
    and "sv_exchange_id sv verf (bytes_of_string (clientName env c)) ExchgIDFlagUseNonPNFS (wi_fs (st_world w)) =
           ((st, cid, seqid), s1)"
  shows "exchangeID (env\<lparr>ev_base := serve sv\<rparr>) calm_ctx c w =
    Some (if st = NFS4_OK then None else Some (WrapF ''nfs4: EXCHANGE_ID rejected: %w'' [] (StatusError st)),
          if st = NFS4_OK then c\<lparr>cn_clientID := cid, cn_eirSequence := seqid\<rparr> else c,
          w\<lparr>st_world := wire_tick ((st_world w)\<lparr>wi_fs := s1\<rparr>)\<rparr>)"
proof -
  let ?r = "if st = NFS4_OK then ExchangeIDRes 0 cid seqid 0 else ExchangeIDRes st 0 0 0"
  have "\<not> isRetriableStatus st" using assms(3,5) by (metis fst_conv never_delays_def)
  then have "\<not> isRetriableStatus (res_Status ?r)" by auto
  from presession_one [OF assms(1,2) _ this, where a = "ExchangeIDArgs verf (bytes_of_string (clientName env c)) ExchgIDFlagUseNonPNFS"
      and sv = sv and w = w] assms(4,5)
  show ?thesis by (simp add: exchangeID_def Status_Err_def)
qed

lemma slot_count: "nat (if uint (n :: u32) < 1 then 1 else uint n) = max 1 (unat n)"
proof -
  define m where "m = unat n"
  then have "uint n = int m" by simp
  then show ?thesis unfolding m_def [symmetric] by auto
qed

lemma createSession_refines:
  assumes "cc_MinorVersion (cn_cfg c) = 1" "cn_caller c = newRetryCaller BaseCaller cfg" "never_delays sv"
    and "sv_create_session sv (session_args (cn_clientID c) (cn_eirSequence c)) (wi_fs (st_world w)) =
           ((st, sid, maxreq), s1)"
  shows "\<exists>c' w'. createSession (env\<lparr>ev_base := serve sv\<rparr>) calm_ctx c w =
      Some (if st = NFS4_OK then None else Some (WrapF ''nfs4: CREATE_SESSION rejected: %w'' [] (StatusError st)), c', w') \<and>
    wi_fs (st_world w') = s1 \<and> cn_clientID c' = cn_clientID c \<and>
    (st = NFS4_OK \<longrightarrow> conn_on c' w' \<and> cn_session c' = Some (length (st_sessions w)) \<and>
       se_id (get_session (length (st_sessions w)) w') = sid \<and>
       SlotCount (get_session (length (st_sessions w)) w') = max 1 (unat maxreq))"
proof -
  let ?a = "session_args (cn_clientID c) (cn_eirSequence c)" and ?i = "length (st_sessions w)"
  let ?fore = "session_chan\<lparr>ca_MaxRequests := maxreq\<rparr>"
  let ?r = "if st = NFS4_OK then CreateSessionRes 0 sid (cn_eirSequence c) 0 ?fore session_chan
            else reply_to (ACreateSession ?a) st"
  let ?s = "if st = NFS4_OK
            then (st_world w)\<lparr>wi_fs := s1, wi_sid := Some sid, wi_slots := replicate (max 1 (unat maxreq)) 0\<rparr>
            else (st_world w)\<lparr>wi_fs := s1\<rparr>"
  have "\<not> isRetriableStatus st" using assms(3,4) by (metis fst_conv never_delays_def)
  then have nr: "\<not> isRetriableStatus (res_Status ?r)" by auto
  have "wire_ops sv 1 [ACreateSession ?a] (st_world w) = ([?r], ?s)"
    using assms(4) by (simp add: session_args_def)
  from presession_one [OF assms(1,2) this nr]
  have one: "Conn_one (env\<lparr>ev_base := serve sv\<rparr>) calm_ctx c msg (ACreateSession ?a) r0 w = Some (Inr ?r, w\<lparr>st_world := wire_tick ?s\<rparr>)"
    for msg r0 .
  show ?thesis
  proof (cases "st = NFS4_OK")
    case False
    then show ?thesis
      using one [unfolded session_args_def] by (simp add: createSession_def Status_Err_def session_args_def)
  next
    case True
    let ?n = "if uint maxreq < 1 then 1 else uint maxreq"
    let ?sess = "NewSession sid ?n"
    let ?c' = "c\<lparr>cn_session := Some ?i, cn_caller := install_session ?i (cn_caller c)\<rparr>"
    let ?w' = "w\<lparr>st_world := wire_tick ?s, st_sessions := st_sessions w @ [?sess]\<rparr>"
    have n: "nat ?n = max 1 (unat maxreq)" by (rule slot_count)
    have run: "createSession (env\<lparr>ev_base := serve sv\<rparr>) calm_ctx c w = Some (None, ?c', ?w')"
      using one [unfolded session_args_def] True by (simp add: createSession_def Let_def)
    have caller: "cn_caller ?c' = newRetryCaller (newSessionCaller BaseCaller ?i) cfg"
      using assms(2) by (simp add: newRetryCaller_def)
    have sess: "get_session ?i ?w' = ?sess" by (simp add: get_session_def)
    have slots: "se_slots ?sess = replicate (max 1 (unat maxreq)) \<lparr>sl_seq = 1, sl_inUse = False\<rparr>" "se_id ?sess = sid"
      using n by (simp_all add: NewSession_def Let_def)
    have "in_step ?i ?w'"
      using True slots session_idle_New [of sid ?n] unfolding in_step_def sess by (simp add: map_replicate_const)
    then have "conn_on ?c' ?w'" using assms(1) by (intro conn_onI41 [OF _ caller]) simp_all
    then show ?thesis
      using run sess slots True by (intro exI [of _ ?c'] exI [of _ ?w']) (simp add: SlotCount_def)
  qed
qed

definition mount41_spec ::
  "'s server \<Rightarrow> bytes \<Rightarrow> bytes \<Rightarrow> 's \<Rightarrow> goerror option \<times> u64 \<times> 's" where
  "mount41_spec sv verf owner s =
     (case sv_exchange_id sv verf owner ExchgIDFlagUseNonPNFS s of
        ((st, cid, seqid), s) \<Rightarrow>
          if st \<noteq> NFS4_OK
          then (Some (WrapF ''nfs4: EXCHANGE_ID rejected: %w'' [] (StatusError st)), 0, s)
          else (case sv_create_session sv (session_args cid seqid) s of
                  ((st, sid, maxreq), s) \<Rightarrow>
                    if st \<noteq> NFS4_OK
                    then (Some (WrapF ''nfs4: CREATE_SESSION rejected: %w'' [] (StatusError st)), 0, s)
                    else (case sv_reclaim sv False s of
                            (st, s) \<Rightarrow>
                              if st \<noteq> NFS4_OK \<and> st \<noteq> NFS4ERR_COMPLETE_ALREADY
                              then (Some (WrapF ''nfs4: RECLAIM_COMPLETE rejected: %w'' [] (StatusError st)), 0, s)
                              else (None, cid, s))))"

lemma reclaimComplete_refines:
  assumes "conn_on c w" and "never_delays sv" and "sv_reclaim sv False (wi_fs (st_world w)) = (st, s1)"
  shows "\<exists>w'. reclaimComplete (env\<lparr>ev_base := serve sv\<rparr>) calm_ctx c w =
      Some (if st \<noteq> NFS4_OK \<and> st \<noteq> NFS4ERR_COMPLETE_ALREADY
            then Some (WrapF ''nfs4: RECLAIM_COMPLETE rejected: %w'' [] (StatusError st)) else None, c, w') \<and>
    wi_fs (st_world w') = s1 \<and> conn_on c w'"
proof -
  have "serve_op sv (None, None) (ReclaimCompleteArgs False) (wi_fs (st_world w)) = (ReclaimCompleteRes st, (None, None), s1)"
    using assms(3) by simp
  from conn_on_one [OF assms(1,2) this, of env "''nfs4: RECLAIM_COMPLETE: %w''" "ReclaimCompleteRes 0"]
  show ?thesis by (auto simp: reclaimComplete_def)
qed

lemma Mount_v41:
  assumes c: "cc_MinorVersion (cn_cfg c) = 1" "cn_caller c = newRetryCaller BaseCaller cfg"
    and sv: "never_delays sv" and rand: "ev_rand env w = (Inr verf, w)" and s: "s = wi_fs (st_world w)"
    and spec: "mount41_spec sv verf (bytes_of_string (clientName env c)) s = (err, cid, s')"
  shows "\<exists>c' w'. Mount (env\<lparr>ev_base := serve sv\<rparr>) calm_ctx c w = Some (err, c', w') \<and>
     wi_fs (st_world w') = s' \<and>
     (err = None \<longrightarrow> conn_on c' w' \<and> ClientID c' = cid \<and> RootFH c' = Some (sv_root sv s'))"
proof -
  let ?E = "env\<lparr>ev_base := serve sv\<rparr>"
  obtain st1 cid1 seqid s1 where ex: "sv_exchange_id sv verf (bytes_of_string (clientName env c)) ExchgIDFlagUseNonPNFS s =
      ((st1, cid1, seqid), s1)" by (metis prod.exhaust)
  note w1 = exchangeID_refines [OF c sv rand ex [unfolded s]]
  show ?thesis
  proof (cases "st1 = NFS4_OK")
    case False
    then show ?thesis using c w1 ex spec by (auto simp: Mount_def mountV41_def mount41_spec_def)
  next
    case st1: True
    let ?c1 = "c\<lparr>cn_clientID := cid1, cn_eirSequence := seqid\<rparr>"
    let ?w1 = "w\<lparr>st_world := wire_tick ((st_world w)\<lparr>wi_fs := s1\<rparr>)\<rparr>"
    obtain st2 sid2 maxreq s2 where cs: "sv_create_session sv (session_args cid1 seqid) s1 = ((st2, sid2, maxreq), s2)"
      by (metis prod.exhaust)
    have "cc_MinorVersion (cn_cfg ?c1) = 1" "cn_caller ?c1 = newRetryCaller BaseCaller cfg" using c by simp_all
    from createSession_refines [OF this sv, of ?w1 st2 sid2 maxreq s2 env] cs obtain c2 w2 where
      w2: "createSession ?E calm_ctx ?c1 ?w1 =
          Some (if st2 = NFS4_OK then None else Some (WrapF ''nfs4: CREATE_SESSION rejected: %w'' [] (StatusError st2)), c2, w2)"
        "wi_fs (st_world w2) = s2" "cn_clientID c2 = cid1" "st2 = NFS4_OK \<Longrightarrow> conn_on c2 w2"
      by auto
    show ?thesis
    proof (cases "st2 = NFS4_OK")
      case False
      then show ?thesis using c st1 w1 w2 ex cs spec by (auto simp: Mount_def mountV41_def mount41_spec_def)
    next
      case st2: True
      obtain st3 s3 where rc: "sv_reclaim sv False s2 = (st3, s3)" by (metis prod.exhaust)
      from reclaimComplete_refines [OF w2(4) [OF st2] sv, of st3 s3 env] w2(2) rc obtain w3 where
        w3: "reclaimComplete ?E calm_ctx c2 w2 =
            Some (if st3 \<noteq> NFS4_OK \<and> st3 \<noteq> NFS4ERR_COMPLETE_ALREADY
                  then Some (WrapF ''nfs4: RECLAIM_COMPLETE rejected: %w'' [] (StatusError st3)) else None, c2, w3)"
          "wi_fs (st_world w3) = s3" "conn_on c2 w3"
        by auto
      from fetchRootFH_refines [OF w3(3) sv w3(2) [symmetric], of env] obtain w4 where
        "fetchRootFH ?E calm_ctx c2 w3 = Some (None, c2\<lparr>cn_rootFH := Some (sv_root sv s3)\<rparr>, w4)"
        "wi_fs (st_world w4) = s3" "conn_on c2 w4" by blast
      then show ?thesis
        using c st1 st2 w1 w2 w3 ex cs rc spec
        by (auto simp: Mount_def mountV41_def mount41_spec_def ClientID_def RootFH_def split: if_splits)
    qed
  qed
qed

end
