(* ===== verification/Attr.thy ===== *)
theory Attr
  imports Nfs_Types
begin

text \<open>
  Package \<open>attr\<close>: attribute bitmaps (\<open>src/nfs4/attr/bitmap.go\<close>), decoding of the standard and
  of the file-system attributes (\<open>attr.go\<close>, \<open>statvfs.go\<close>) and encoding of the settable ones
  (\<open>encode.go\<close>). A \<open>time.Time\<close> is the pair of its Unix seconds and nanoseconds; the zero
  \<open>time.Time\<close> is the year 1, second \<open>-62135596800\<close>.
\<close>

subsection \<open>Bitmaps\<close>

type_synonym AttrNum = u32

abbreviation (input) AttrType :: AttrNum where "AttrType \<equiv> 1"
abbreviation (input) AttrSize :: AttrNum where "AttrSize \<equiv> 4"
abbreviation (input) AttrFSID :: AttrNum where "AttrFSID \<equiv> 8"
abbreviation (input) AttrFileID :: AttrNum where "AttrFileID \<equiv> 20"
abbreviation (input) AttrFilesAvail :: AttrNum where "AttrFilesAvail \<equiv> 21"
abbreviation (input) AttrFilesFree :: AttrNum where "AttrFilesFree \<equiv> 22"
abbreviation (input) AttrFilesTotal :: AttrNum where "AttrFilesTotal \<equiv> 23"
abbreviation (input) AttrMaxName :: AttrNum where "AttrMaxName \<equiv> 30"
abbreviation (input) AttrMode :: AttrNum where "AttrMode \<equiv> 33"
abbreviation (input) AttrNumLinks :: AttrNum where "AttrNumLinks \<equiv> 35"
abbreviation (input) AttrOwner :: AttrNum where "AttrOwner \<equiv> 36"
abbreviation (input) AttrOwnerGroup :: AttrNum where "AttrOwnerGroup \<equiv> 37"
abbreviation (input) AttrRawDev :: AttrNum where "AttrRawDev \<equiv> 41"
abbreviation (input) AttrSpaceAvail :: AttrNum where "AttrSpaceAvail \<equiv> 42"
abbreviation (input) AttrSpaceFree :: AttrNum where "AttrSpaceFree \<equiv> 43"
abbreviation (input) AttrSpaceTotal :: AttrNum where "AttrSpaceTotal \<equiv> 44"
abbreviation (input) AttrSpaceUsed :: AttrNum where "AttrSpaceUsed \<equiv> 45"
abbreviation (input) AttrTimeAccess :: AttrNum where "AttrTimeAccess \<equiv> 47"
abbreviation (input) AttrTimeMetadata :: AttrNum where "AttrTimeMetadata \<equiv> 52"
abbreviation (input) AttrTimeModify :: AttrNum where "AttrTimeModify \<equiv> 53"

definition bit_of :: "nat \<Rightarrow> u32" where
  "bit_of n = push_bit n 1"

definition BitmapFor :: "AttrNum list \<Rightarrow> Bitmap" where
  "BitmapFor attrs =
     (let mx = foldl (\<lambda>m a. if a > m then a else m) 0 attrs;
          words = unat (mx div 32) + 1
      in foldl (\<lambda>bm a. bm[unat (a div 32) := bm ! unat (a div 32) OR bit_of (unat (a mod 32))])
           (replicate words 0) attrs)"

definition Bitmap_Has :: "Bitmap \<Rightarrow> AttrNum \<Rightarrow> bool" where
  "Bitmap_Has b a =
     (let word = unat (a div 32)
      in if word \<ge> length b then False
         else b ! word AND bit_of (unat (a mod 32)) \<noteq> 0)"

definition Bitmap_SetAttrs :: "Bitmap \<Rightarrow> AttrNum list" where
  "Bitmap_SetAttrs b =
     concat (map (\<lambda>word.
       map (\<lambda>bit. word_of_nat (word * 32 + bit))
         (filter (\<lambda>bit. b ! word AND bit_of bit \<noteq> 0) [0..<32])) [0..<length b])"

definition AttrBitmap_Encode :: "Bitmap \<Rightarrow> ('w encoder, unit) state" where
  "AttrBitmap_Encode b = do {
     Encoder_Uint32 (word_of_nat (length b));
     forM b Encoder_Uint32
   }"

definition AttrDecodeBitmap :: "(decoder, Bitmap) state" where
  "AttrDecodeBitmap = do {
     n \<leftarrow> Decoder_Uint32;
     err \<leftarrow> Decoder_Err;
     if err \<noteq> None then State_Monad.return []
     else repeatM (unat n) Decoder_Uint32
   }"

definition StandardMask :: Bitmap where
  "StandardMask = BitmapFor
     [AttrType, AttrSize, AttrFSID, AttrFileID,
      AttrMode, AttrNumLinks, AttrOwner, AttrOwnerGroup,
      AttrRawDev, AttrSpaceUsed, AttrTimeAccess, AttrTimeMetadata, AttrTimeModify]"

definition StatvfsMask :: Bitmap where
  "StatvfsMask = BitmapFor
     [AttrFSID, AttrFilesAvail, AttrFilesFree, AttrFilesTotal, AttrMaxName,
      AttrSpaceAvail, AttrSpaceFree, AttrSpaceTotal]"

subsection \<open>Decoding attributes\<close>

type_synonym Ftype = u32

abbreviation (input) FtypeReg :: Ftype where "FtypeReg \<equiv> 1"
abbreviation (input) FtypeDir :: Ftype where "FtypeDir \<equiv> 2"
abbreviation (input) FtypeBlk :: Ftype where "FtypeBlk \<equiv> 3"
abbreviation (input) FtypeChr :: Ftype where "FtypeChr \<equiv> 4"
abbreviation (input) FtypeLnk :: Ftype where "FtypeLnk \<equiv> 5"
abbreviation (input) FtypeSock :: Ftype where "FtypeSock \<equiv> 6"
abbreviation (input) FtypeFifo :: Ftype where "FtypeFifo \<equiv> 7"
abbreviation (input) FtypeAttrDir :: Ftype where "FtypeAttrDir \<equiv> 8"

type_synonym gotime = "int \<times> int"

definition zero_time :: gotime where
  "zero_time = (- 62135596800, 0)"

text \<open>\<open>time.Unix(sec, nsec)\<close> for \<open>nsec \<ge> 0\<close>.\<close>

definition time_Unix :: "int \<Rightarrow> int \<Rightarrow> gotime" where
  "time_Unix sec nsec = (wrap64 (sec + nsec div 1000000000), nsec mod 1000000000)"

record Attributes =
  at_Present :: Bitmap
  at_Type :: Ftype
  at_Size :: u64
  at_FSID :: "u64 \<times> u64"
  at_FileID :: u64
  at_Mode :: u32
  at_NumLinks :: u32
  at_Owner :: string
  at_OwnerGroup :: string
  at_RawDev :: "u32 \<times> u32"
  at_SpaceUsed :: u64
  at_TimeAccess :: gotime
  at_TimeMeta :: gotime
  at_TimeModify :: gotime

definition Attributes_zero :: Attributes where
  "Attributes_zero =
     \<lparr>at_Present = [], at_Type = 0, at_Size = 0, at_FSID = (0, 0), at_FileID = 0, at_Mode = 0,
      at_NumLinks = 0, at_Owner = [], at_OwnerGroup = [], at_RawDev = (0, 0), at_SpaceUsed = 0,
      at_TimeAccess = zero_time, at_TimeMeta = zero_time, at_TimeModify = zero_time\<rparr>"

definition decodeTime :: "(decoder, gotime) state" where
  "decodeTime = do {
     secs \<leftarrow> Decoder_Int64;
     nsecs \<leftarrow> Decoder_Uint32;
     err \<leftarrow> Decoder_Err;
     State_Monad.return (if err \<noteq> None then zero_time else time_Unix secs (uint nsecs))
   }"

text \<open>The \<open>switch\<close> of \<open>Decode\<close>: \<open>None\<close> is its default case.\<close>

definition Decode_attr :: "AttrNum \<Rightarrow> Attributes \<Rightarrow> (decoder, Attributes) state option" where
  "Decode_attr num a =
     (if num = AttrType then
        Some (do { v \<leftarrow> Decoder_Uint32; State_Monad.return (a\<lparr>at_Type := v\<rparr>) })
      else if num = AttrSize then
        Some (do { v \<leftarrow> Decoder_Uint64; State_Monad.return (a\<lparr>at_Size := v\<rparr>) })
      else if num = AttrFSID then
        Some (do { v \<leftarrow> Decoder_Uint64; w \<leftarrow> Decoder_Uint64; State_Monad.return (a\<lparr>at_FSID := (v, w)\<rparr>) })
      else if num = AttrFileID then
        Some (do { v \<leftarrow> Decoder_Uint64; State_Monad.return (a\<lparr>at_FileID := v\<rparr>) })
      else if num = AttrMode then
        Some (do { v \<leftarrow> Decoder_Uint32; State_Monad.return (a\<lparr>at_Mode := v\<rparr>) })
      else if num = AttrNumLinks then
        Some (do { v \<leftarrow> Decoder_Uint32; State_Monad.return (a\<lparr>at_NumLinks := v\<rparr>) })
      else if num = AttrOwner then
        Some (do { v \<leftarrow> Decoder_String; State_Monad.return (a\<lparr>at_Owner := v\<rparr>) })
      else if num = AttrOwnerGroup then
        Some (do { v \<leftarrow> Decoder_String; State_Monad.return (a\<lparr>at_OwnerGroup := v\<rparr>) })
      else if num = AttrRawDev then
        Some (do { v \<leftarrow> Decoder_Uint32; w \<leftarrow> Decoder_Uint32; State_Monad.return (a\<lparr>at_RawDev := (v, w)\<rparr>) })
      else if num = AttrSpaceUsed then
        Some (do { v \<leftarrow> Decoder_Uint64; State_Monad.return (a\<lparr>at_SpaceUsed := v\<rparr>) })
      else if num = AttrTimeAccess then
        Some (do { v \<leftarrow> decodeTime; State_Monad.return (a\<lparr>at_TimeAccess := v\<rparr>) })
      else if num = AttrTimeMetadata then
        Some (do { v \<leftarrow> decodeTime; State_Monad.return (a\<lparr>at_TimeMeta := v\<rparr>) })
      else if num = AttrTimeModify then
        Some (do { v \<leftarrow> decodeTime; State_Monad.return (a\<lparr>at_TimeModify := v\<rparr>) })
      else None)"

fun Decode_loop :: "AttrNum list \<Rightarrow> Attributes \<Rightarrow> (decoder, goerror + Attributes) state" where
  "Decode_loop [] a = State_Monad.return (Inr a)"
| "Decode_loop (num # nums) a =
     (case Decode_attr num a of
        None \<Rightarrow> State_Monad.return
                  (Inl (ErrorF ''attr: cannot decode unsupported attribute %d'' [FInt (unat num)]))
      | Some m \<Rightarrow> do {
          a' \<leftarrow> m;
          err \<leftarrow> Decoder_Err;
          (case err of
             Some e \<Rightarrow> State_Monad.return
                        (Inl (WrapF ''attr: decoding attribute %d: %w'' [FInt (unat num)] e))
           | None \<Rightarrow> Decode_loop nums a')
        })"

definition Decode :: "Bitmap \<Rightarrow> bytes \<Rightarrow> goerror + Attributes" where
  "Decode bm vals =
     fst (run_state (Decode_loop (Bitmap_SetAttrs bm) (Attributes_zero\<lparr>at_Present := bm\<rparr>))
            (bdec vals))"

subsection \<open>File modes\<close>

abbreviation (input) ModeDir :: u32 where "ModeDir \<equiv> bit_of 31"
abbreviation (input) ModeSymlink :: u32 where "ModeSymlink \<equiv> bit_of 27"
abbreviation (input) ModeDevice :: u32 where "ModeDevice \<equiv> bit_of 26"
abbreviation (input) ModeNamedPipe :: u32 where "ModeNamedPipe \<equiv> bit_of 25"
abbreviation (input) ModeSocket :: u32 where "ModeSocket \<equiv> bit_of 24"
abbreviation (input) ModeSetuid :: u32 where "ModeSetuid \<equiv> bit_of 23"
abbreviation (input) ModeSetgid :: u32 where "ModeSetgid \<equiv> bit_of 22"
abbreviation (input) ModeCharDevice :: u32 where "ModeCharDevice \<equiv> bit_of 21"
abbreviation (input) ModeSticky :: u32 where "ModeSticky \<equiv> bit_of 20"

definition Attributes_FileMode :: "Attributes \<Rightarrow> u32" where
  "Attributes_FileMode a =
     (let mode = at_Mode a AND 0x1FF;
          mode = (if at_Mode a AND 0x800 \<noteq> 0 then mode OR ModeSetuid else mode);
          mode = (if at_Mode a AND 0x400 \<noteq> 0 then mode OR ModeSetgid else mode);
          mode = (if at_Mode a AND 0x200 \<noteq> 0 then mode OR ModeSticky else mode)
      in if at_Type a = FtypeDir \<or> at_Type a = FtypeAttrDir then mode OR ModeDir
         else if at_Type a = FtypeLnk then mode OR ModeSymlink
         else if at_Type a = FtypeBlk then mode OR ModeDevice
         else if at_Type a = FtypeChr then mode OR (ModeDevice OR ModeCharDevice)
         else if at_Type a = FtypeSock then mode OR ModeSocket
         else if at_Type a = FtypeFifo then mode OR ModeNamedPipe
         else mode)"

text \<open>\<open>fs.FileMode.IsDir\<close> and \<open>fs.FileMode.Perm\<close>.\<close>

definition FileMode_IsDir :: "u32 \<Rightarrow> bool" where
  "FileMode_IsDir m = (m AND ModeDir \<noteq> 0)"

definition FileMode_Perm :: "u32 \<Rightarrow> u32" where
  "FileMode_Perm m = m AND 0x1FF"

text \<open>\<open>fileInfo\<close>: a name and the attributes.\<close>

record fileInfo =
  fi_name :: string
  fi_attrs :: Attributes

definition Attributes_FileInfo :: "Attributes \<Rightarrow> string \<Rightarrow> fileInfo" where
  "Attributes_FileInfo a name = \<lparr>fi_name = name, fi_attrs = a\<rparr>"

definition fileInfo_Size :: "fileInfo \<Rightarrow> int" where
  "fileInfo_Size fi = sint (at_Size (fi_attrs fi))"

definition fileInfo_Mode :: "fileInfo \<Rightarrow> u32" where
  "fileInfo_Mode fi = Attributes_FileMode (fi_attrs fi)"

definition fileInfo_ModTime :: "fileInfo \<Rightarrow> gotime" where
  "fileInfo_ModTime fi = at_TimeModify (fi_attrs fi)"

definition fileInfo_IsDir :: "fileInfo \<Rightarrow> bool" where
  "fileInfo_IsDir fi = FileMode_IsDir (Attributes_FileMode (fi_attrs fi))"

subsection \<open>Encoding settable attributes\<close>

record SettableAttrs =
  sa_Mode :: "u32 option"
  sa_Size :: "u64 option"
  sa_TimeAccess :: "gotime option"
  sa_TimeModify :: "gotime option"

abbreviation (input) setToClientTime4 :: u32 where "setToClientTime4 \<equiv> 1"

definition encodeSettime :: "gotime \<Rightarrow> ('w encoder, unit) state" where
  "encodeSettime t = do {
     Encoder_Uint32 setToClientTime4;
     Encoder_Int64 (fst t);
     Encoder_Uint32 (word_of_int (snd t))
   }"

text \<open>\<open>if p != nil { f(*p) }\<close>.\<close>

definition when_some :: "'a option \<Rightarrow> ('a \<Rightarrow> ('s, unit) state) \<Rightarrow> ('s, unit) state" where
  "when_some v f = (case v of None \<Rightarrow> State_Monad.return () | Some x \<Rightarrow> f x)"

definition EncodeFattr_nums :: "SettableAttrs \<Rightarrow> AttrNum list" where
  "EncodeFattr_nums s =
     (if sa_Size s \<noteq> None then [AttrSize] else []) @
     (if sa_Mode s \<noteq> None then [AttrMode] else []) @
     (if sa_TimeAccess s \<noteq> None then [AttrTimeAccess] else []) @
     (if sa_TimeModify s \<noteq> None then [AttrTimeModify] else [])"

definition EncodeFattr_vals :: "SettableAttrs \<Rightarrow> ('w encoder, unit) state" where
  "EncodeFattr_vals s = do {
     when_some (sa_Size s) Encoder_Uint64;
     when_some (sa_Mode s) Encoder_Uint32;
     when_some (sa_TimeAccess s) encodeSettime;
     when_some (sa_TimeModify s) encodeSettime
   }"

definition EncodeFattr :: "SettableAttrs \<Rightarrow> Bitmap \<times> bytes" where
  "EncodeFattr s = (BitmapFor (EncodeFattr_nums s), encoded (EncodeFattr_vals s))"

subsection \<open>File-system statistics\<close>

record Statvfs =
  sv_Present :: Bitmap
  sv_FSID :: "u64 \<times> u64"
  sv_FilesAvail :: u64
  sv_FilesFree :: u64
  sv_FilesTotal :: u64
  sv_MaxName :: u32
  sv_SpaceAvail :: u64
  sv_SpaceFree :: u64
  sv_SpaceTotal :: u64

definition Statvfs_zero :: Statvfs where
  "Statvfs_zero =
     \<lparr>sv_Present = [], sv_FSID = (0, 0), sv_FilesAvail = 0, sv_FilesFree = 0, sv_FilesTotal = 0,
      sv_MaxName = 0, sv_SpaceAvail = 0, sv_SpaceFree = 0, sv_SpaceTotal = 0\<rparr>"

definition DecodeStatvfs_attr :: "AttrNum \<Rightarrow> Statvfs \<Rightarrow> (decoder, Statvfs) state option" where
  "DecodeStatvfs_attr num s =
     (if num = AttrFSID then
        Some (do { v \<leftarrow> Decoder_Uint64; w \<leftarrow> Decoder_Uint64; State_Monad.return (s\<lparr>sv_FSID := (v, w)\<rparr>) })
      else if num = AttrFilesAvail then
        Some (do { v \<leftarrow> Decoder_Uint64; State_Monad.return (s\<lparr>sv_FilesAvail := v\<rparr>) })
      else if num = AttrFilesFree then
        Some (do { v \<leftarrow> Decoder_Uint64; State_Monad.return (s\<lparr>sv_FilesFree := v\<rparr>) })
      else if num = AttrFilesTotal then
        Some (do { v \<leftarrow> Decoder_Uint64; State_Monad.return (s\<lparr>sv_FilesTotal := v\<rparr>) })
      else if num = AttrMaxName then
        Some (do { v \<leftarrow> Decoder_Uint32; State_Monad.return (s\<lparr>sv_MaxName := v\<rparr>) })
      else if num = AttrSpaceAvail then
        Some (do { v \<leftarrow> Decoder_Uint64; State_Monad.return (s\<lparr>sv_SpaceAvail := v\<rparr>) })
      else if num = AttrSpaceFree then
        Some (do { v \<leftarrow> Decoder_Uint64; State_Monad.return (s\<lparr>sv_SpaceFree := v\<rparr>) })
      else if num = AttrSpaceTotal then
        Some (do { v \<leftarrow> Decoder_Uint64; State_Monad.return (s\<lparr>sv_SpaceTotal := v\<rparr>) })
      else None)"

fun DecodeStatvfs_loop :: "AttrNum list \<Rightarrow> Statvfs \<Rightarrow> (decoder, goerror + Statvfs) state" where
  "DecodeStatvfs_loop [] s = State_Monad.return (Inr s)"
| "DecodeStatvfs_loop (num # nums) s =
     (case DecodeStatvfs_attr num s of
        None \<Rightarrow> State_Monad.return
                  (Inl (ErrorF ''attr: cannot decode unsupported statvfs attribute %d'' [FInt (unat num)]))
      | Some m \<Rightarrow> do {
          s' \<leftarrow> m;
          err \<leftarrow> Decoder_Err;
          (case err of
             Some e \<Rightarrow> State_Monad.return
                        (Inl (WrapF ''attr: decoding statvfs attribute %d: %w'' [FInt (unat num)] e))
           | None \<Rightarrow> DecodeStatvfs_loop nums s')
        })"

definition DecodeStatvfs :: "Bitmap \<Rightarrow> bytes \<Rightarrow> goerror + Statvfs" where
  "DecodeStatvfs bm vals =
     fst (run_state (DecodeStatvfs_loop (Bitmap_SetAttrs bm) (Statvfs_zero\<lparr>sv_Present := bm\<rparr>))
            (bdec vals))"

subsection \<open>Bitmaps: lemmas\<close>

lemma bit_bit_of: "bit (bit_of n) m \<longleftrightarrow> m = n \<and> n < 32"
proof -
  have "bit (push_bit n (1 :: u32)) m \<longleftrightarrow> m = n \<and> n < 32"
    by (simp only: bit_push_bit_iff bit_1_iff possible_bit_word) auto
  then show ?thesis by (simp only: bit_of_def)
qed

lemma and_bit_of: "n < 32 \<Longrightarrow> w AND bit_of n \<noteq> 0 \<longleftrightarrow> bit w n"
  by (auto simp: bit_eq_iff [where ?'a = u32] bit_and_iff bit_bit_of)

lemma unat_div32 [simp]: "unat (a div 32 :: u32) = unat a div 32"
  by (simp add: unat_div)

lemma unat_mod32 [simp]: "unat (a mod 32 :: u32) = unat a mod 32"
  by (simp add: unat_mod)

lemma Bitmap_Has_bit:
  "Bitmap_Has b a \<longleftrightarrow> unat a div 32 < length b \<and> bit (b ! (unat a div 32)) (unat a mod 32)"
  by (auto simp: Bitmap_Has_def Let_def and_bit_of not_less)

lemma attr_div_mod_eq: "unat a div 32 = unat b div 32 \<Longrightarrow> unat a mod 32 = unat b mod 32 \<Longrightarrow> a = (b :: u32)"
  by (metis div_mult_mod_eq word_unat_eq_iff)

abbreviation (input) bitmap_add :: "Bitmap \<Rightarrow> AttrNum \<Rightarrow> Bitmap" where
  "bitmap_add bm a \<equiv> bm[unat a div 32 := bm ! (unat a div 32) OR bit_of (unat a mod 32)]"

lemma Bitmap_Has_add:
  "unat a div 32 < length bm \<Longrightarrow> Bitmap_Has (bitmap_add bm a) x \<longleftrightarrow> x = a \<or> Bitmap_Has bm x"
  by (auto simp: Bitmap_Has_bit nth_list_update bit_or_iff bit_bit_of dest: attr_div_mod_eq)

lemma length_bitmap_fold: "length (foldl (\<lambda>bm a. bitmap_add bm a) bm attrs) = length bm"
  by (induction attrs arbitrary: bm) simp_all

lemma Bitmap_Has_fold:
  "list_all (\<lambda>a. unat a div 32 < length bm) attrs \<Longrightarrow>
   Bitmap_Has (foldl (\<lambda>bm a. bitmap_add bm a) bm attrs) x \<longleftrightarrow> x \<in> set attrs \<or> Bitmap_Has bm x"
proof (induction attrs arbitrary: bm)
  case Nil
  then show ?case by simp
next
  case (Cons a attrs)
  then have "Bitmap_Has (foldl (\<lambda>bm a. bitmap_add bm a) (bitmap_add bm a) attrs) x
      \<longleftrightarrow> x \<in> set attrs \<or> Bitmap_Has (bitmap_add bm a) x"
    by (intro Cons.IH) simp
  with Cons.prems Bitmap_Has_add [of a bm x] show ?case by auto
qed

abbreviation (input) attr_max :: "AttrNum \<Rightarrow> AttrNum list \<Rightarrow> AttrNum" where
  "attr_max m attrs \<equiv> foldl (\<lambda>m a. if a > m then a else m) m attrs"

lemma attr_max_ge: "m \<le> attr_max m attrs \<and> (a \<in> set attrs \<longrightarrow> a \<le> attr_max m attrs)"
proof (induction attrs arbitrary: m)
  case Nil
  then show ?case by simp
next
  case (Cons b attrs)
  have "(if b > m then b else m) \<le> attr_max (if b > m then b else m) attrs"
    and "a \<in> set attrs \<longrightarrow> a \<le> attr_max (if b > m then b else m) attrs"
    using Cons.IH by blast+
  then show ?case by (auto simp: not_less split: if_splits)
qed

lemma length_BitmapFor: "length (BitmapFor attrs) \<le> 2 ^ 27"
  using unat_u32_less [of "attr_max 0 attrs"]
  by (simp add: BitmapFor_def Let_def length_bitmap_fold)

lemma Bitmap_Has_BitmapFor: "Bitmap_Has (BitmapFor attrs) a \<longleftrightarrow> a \<in> set attrs"
proof -
  let ?bm = "replicate (unat (attr_max 0 attrs div 32) + 1) (0 :: u32)"
  have "list_all (\<lambda>a. unat a div 32 < length ?bm) attrs"
    using attr_max_ge [of 0 attrs]
    by (auto simp: list_all_iff word_le_nat_alt less_Suc_eq_le intro: div_le_mono)
  then have "Bitmap_Has (foldl (\<lambda>bm a. bitmap_add bm a) ?bm attrs) a
      \<longleftrightarrow> a \<in> set attrs \<or> Bitmap_Has ?bm a"
    by (rule Bitmap_Has_fold)
  moreover have "\<not> Bitmap_Has ?bm a"
    by (simp add: Bitmap_Has_bit nth_replicate del: replicate.simps)
  ultimately show ?thesis by (simp add: BitmapFor_def Let_def)
qed

text \<open>\<open>SetAttrs\<close> walks words and bits; it is one filter over the attribute numbers.\<close>

lemma upt_32: "[0..<32 * n] = concat (map (\<lambda>w. map (\<lambda>i. w * 32 + i) [0..<32]) [0..<n])"
proof (induction n)
  case 0
  then show ?case by simp
next
  case (Suc n)
  have "[0..<32 * Suc n] = [0..<32 * n] @ [32 * n..<32 * n + 32]"
    using upt_add_eq_append [of 0 "32 * n" 32] by (simp add: add.commute)
  also have "[32 * n..<32 * n + 32] = map (\<lambda>i. n * 32 + i) [0..<32]"
    by (rule nth_equalityI) simp_all
  finally show ?case using Suc by simp
qed

lemma Bitmap_SetAttrs_filter:
  "Bitmap_SetAttrs b =
     map word_of_nat (filter (\<lambda>i. bit (b ! (i div 32)) (i mod 32)) [0..<32 * length b])"
proof -
  have f: "filter (\<lambda>i. bit (b ! (i div 32)) (i mod 32)) (map (\<lambda>i. w * 32 + i) [0..<32]) =
      map (\<lambda>i. w * 32 + i) (filter (\<lambda>i. b ! w AND bit_of i \<noteq> 0) [0..<32])" for w
  proof -
    have "bit (b ! ((w * 32 + i) div 32)) ((w * 32 + i) mod 32) \<longleftrightarrow> b ! w AND bit_of i \<noteq> 0"
      if "i \<in> set [0..<32]" for i
    proof -
      from that have "i < 32" unfolding set_upt by simp
      then show ?thesis by (simp add: and_bit_of)
    qed
    then show ?thesis
      unfolding filter_map comp_def by (intro arg_cong [where f = "map _"] filter_cong [OF refl])
  qed
  show ?thesis
    unfolding upt_32 filter_concat map_concat Bitmap_SetAttrs_def map_map comp_def f
    by (rule refl)
qed

lemma sorted_wrt_filter: "sorted_wrt R xs \<Longrightarrow> sorted_wrt R (filter P xs)"
  by (induction xs) auto

lemma Bitmap_SetAttrs_sorted:
  assumes "length b \<le> 2 ^ 27"
  shows "sorted_wrt (<) (Bitmap_SetAttrs b)"
proof -
  let ?xs = "filter (\<lambda>i. bit (b ! (i div 32)) (i mod 32)) [0..<32 * length b]"
  have "sorted_wrt (<) ?xs" by (rule sorted_wrt_filter) (rule sorted_wrt_upt)
  moreover have "(word_of_nat i :: u32) < word_of_nat j"
    if "i < j" "j \<in> set ?xs" for i j
    using that assms by (simp add: word_less_nat_alt unat_word_of_nat_u32)
  ultimately have "sorted_wrt (\<lambda>i j. (word_of_nat i :: u32) < word_of_nat j) ?xs"
    by (rule sorted_wrt_mono_rel [rotated])
  then show ?thesis unfolding Bitmap_SetAttrs_filter sorted_wrt_map .
qed

lemma set_Bitmap_SetAttrs:
  assumes "length b \<le> 2 ^ 27"
  shows "a \<in> set (Bitmap_SetAttrs b) \<longleftrightarrow> Bitmap_Has b a"
proof
  assume "a \<in> set (Bitmap_SetAttrs b)"
  then obtain i where i: "i < 32 * length b" "bit (b ! (i div 32)) (i mod 32)" "a = word_of_nat i"
    by (auto simp: Bitmap_SetAttrs_filter)
  with assms have "unat a = i" by (simp add: unat_word_of_nat_u32)
  moreover have "i div 32 < length b" using i(1) by (simp add: less_mult_imp_div_less mult.commute)
  ultimately show "Bitmap_Has b a" using i by (simp add: Bitmap_Has_bit)
next
  assume h: "Bitmap_Has b a"
  then have "unat a < 32 * length b"
    by (metis Bitmap_Has_bit div_less_iff_less_mult mult.commute zero_less_numeral)
  with h have "unat a \<in> set (filter (\<lambda>i. bit (b ! (i div 32)) (i mod 32)) [0..<32 * length b])"
    by (simp add: Bitmap_Has_bit)
  moreover have "a = word_of_nat (unat a)" by simp
  ultimately show "a \<in> set (Bitmap_SetAttrs b)"
    unfolding Bitmap_SetAttrs_filter set_map by (rule rev_image_eqI)
qed


subsection \<open>Attribute values on the wire\<close>

text \<open>The values a server sends for the attributes \<open>A\<close>, one wire form per
  attribute number, and the part of \<open>A\<close> a set of attribute numbers selects.\<close>

definition wire_time :: "gotime \<Rightarrow> bytes" where
  "wire_time t = BigEndian_PutUint64 (word_of_int (fst t)) @ BigEndian_PutUint32 (word_of_int (snd t))"

definition time_ok :: "gotime \<Rightarrow> bool" where
  "time_ok t = (- (2 ^ 63) \<le> fst t \<and> fst t < 2 ^ 63 \<and> 0 \<le> snd t \<and> snd t < 1000000000)"

definition wire_attr :: "Attributes \<Rightarrow> AttrNum \<Rightarrow> bytes" where
  "wire_attr A num =
     (if num = AttrType then BigEndian_PutUint32 (at_Type A)
      else if num = AttrSize then BigEndian_PutUint64 (at_Size A)
      else if num = AttrFSID then
        BigEndian_PutUint64 (fst (at_FSID A)) @ BigEndian_PutUint64 (snd (at_FSID A))
      else if num = AttrFileID then BigEndian_PutUint64 (at_FileID A)
      else if num = AttrMode then BigEndian_PutUint32 (at_Mode A)
      else if num = AttrNumLinks then BigEndian_PutUint32 (at_NumLinks A)
      else if num = AttrOwner then wire_string (at_Owner A)
      else if num = AttrOwnerGroup then wire_string (at_OwnerGroup A)
      else if num = AttrRawDev then
        BigEndian_PutUint32 (fst (at_RawDev A)) @ BigEndian_PutUint32 (snd (at_RawDev A))
      else if num = AttrSpaceUsed then BigEndian_PutUint64 (at_SpaceUsed A)
      else if num = AttrTimeAccess then wire_time (at_TimeAccess A)
      else if num = AttrTimeMetadata then wire_time (at_TimeMeta A)
      else if num = AttrTimeModify then wire_time (at_TimeModify A)
      else [])"

definition attrs_ok :: "Attributes \<Rightarrow> bool" where
  "attrs_ok A = (string_ok (at_Owner A) \<and> string_ok (at_OwnerGroup A) \<and>
     time_ok (at_TimeAccess A) \<and> time_ok (at_TimeMeta A) \<and> time_ok (at_TimeModify A))"

definition supported_attrs :: "AttrNum list" where
  "supported_attrs =
     [AttrType, AttrSize, AttrFSID, AttrFileID, AttrMode, AttrNumLinks, AttrOwner, AttrOwnerGroup,
      AttrRawDev, AttrSpaceUsed, AttrTimeAccess, AttrTimeMetadata, AttrTimeModify]"

definition select_attrs :: "Bitmap \<Rightarrow> AttrNum set \<Rightarrow> Attributes \<Rightarrow> Attributes" where
  "select_attrs bm S A =
     \<lparr>at_Present = bm,
      at_Type = (if AttrType \<in> S then at_Type A else 0),
      at_Size = (if AttrSize \<in> S then at_Size A else 0),
      at_FSID = (if AttrFSID \<in> S then at_FSID A else (0, 0)),
      at_FileID = (if AttrFileID \<in> S then at_FileID A else 0),
      at_Mode = (if AttrMode \<in> S then at_Mode A else 0),
      at_NumLinks = (if AttrNumLinks \<in> S then at_NumLinks A else 0),
      at_Owner = (if AttrOwner \<in> S then at_Owner A else []),
      at_OwnerGroup = (if AttrOwnerGroup \<in> S then at_OwnerGroup A else []),
      at_RawDev = (if AttrRawDev \<in> S then at_RawDev A else (0, 0)),
      at_SpaceUsed = (if AttrSpaceUsed \<in> S then at_SpaceUsed A else 0),
      at_TimeAccess = (if AttrTimeAccess \<in> S then at_TimeAccess A else zero_time),
      at_TimeMeta = (if AttrTimeMetadata \<in> S then at_TimeMeta A else zero_time),
      at_TimeModify = (if AttrTimeModify \<in> S then at_TimeModify A else zero_time)\<rparr>"

lemma reads_decodeTime [wire_reads]:
  assumes "time_ok t"
  shows "reads decodeTime t (wire_time t)"
proof -
  have "reads Decoder_Int64 (fst t) (BigEndian_PutUint64 (word_of_int (fst t)))"
    using assms by (intro reads_Int64) (simp_all add: time_ok_def)
  moreover have "uint (word_of_int (snd t) :: u32) = snd t"
    using assms by (simp add: time_ok_def unsigned_of_int take_bit_int_eq_self)
  ultimately show ?thesis
    using assms
    by (simp add: reads_def decodeTime_def wire_time_def readsD [OF reads_Uint32] time_Unix_def
        time_ok_def wrap64_id)
qed

lemma Decode_attr_unsupported: "Decode_attr num a = None \<longleftrightarrow> num \<notin> set supported_attrs"
  by (simp add: Decode_attr_def supported_attrs_def)

lemma reads_bind_return: "reads m v bs \<Longrightarrow> reads (State_Monad.bind m (\<lambda>x. State_Monad.return (f x))) (f v) bs"
  by (simp add: reads_def)

lemma reads_bind2_return:
  "reads m v bs \<Longrightarrow> reads m' w bs' \<Longrightarrow>
   reads (State_Monad.bind m (\<lambda>x. State_Monad.bind m' (\<lambda>y. State_Monad.return (f x y)))) (f v w) (bs @ bs')"
  by (simp add: reads_def)

text \<open>Decoding one attribute adds it to the selection.\<close>

lemma reads_Decode_attr:
  assumes ok: "attrs_ok A" and num: "num \<in> set supported_attrs"
  shows "\<exists>m. Decode_attr num (select_attrs bm S A) = Some m \<and>
             reads m (select_attrs bm (insert num S) A) (wire_attr A num)"
proof -
  note rules = reads_bind_return [OF reads_Uint32] reads_bind_return [OF reads_Uint64]
    reads_bind2_return [OF reads_Uint32 reads_Uint32] reads_bind2_return [OF reads_Uint64 reads_Uint64]
    reads_bind_return [OF reads_String] reads_bind_return [OF reads_decodeTime]
  have sel: "x = y \<Longrightarrow> reads m x bs \<Longrightarrow> reads m y bs" for m :: "(decoder, Attributes) state" and x y bs
    by simp
  from num show ?thesis
    using ok unfolding supported_attrs_def attrs_ok_def
    by (elim set_ConsD [THEN disjE] disjE; simp add: Decode_attr_def wire_attr_def del: prod.collapse)
       (rule sel [OF _ rules(1)] sel [OF _ rules(2)] sel [OF _ rules(3)] sel [OF _ rules(4)]
         sel [OF _ rules(5)] sel [OF _ rules(6)]; simp add: select_attrs_def; fail)+
qed

lemma reads_Decode_loop:
  "attrs_ok A \<Longrightarrow> set nums \<subseteq> set supported_attrs \<Longrightarrow>
   run_state (Decode_loop nums (select_attrs bm S A)) (bdec (concat (map (wire_attr A) nums) @ rest))
     = (Inr (select_attrs bm (S \<union> set nums) A), bdec rest)"
proof (induction nums arbitrary: S)
  case Nil
  then show ?case by simp
next
  case (Cons num nums)
  then obtain m where m: "Decode_attr num (select_attrs bm S A) = Some m"
      "reads m (select_attrs bm (insert num S) A) (wire_attr A num)"
    using reads_Decode_attr [of A num bm S] by auto
  then show ?case using Cons by (simp add: readsD [OF m(2)])
qed

lemma select_attrs_empty: "Attributes_zero\<lparr>at_Present := bm\<rparr> = select_attrs bm {} A"
  by (simp add: Attributes_zero_def select_attrs_def)

lemma Decode_selects:
  assumes "attrs_ok A" "set (Bitmap_SetAttrs bm) \<subseteq> set supported_attrs"
  shows "Decode bm (concat (map (wire_attr A) (Bitmap_SetAttrs bm)) @ rest)
           = Inr (select_attrs bm (set (Bitmap_SetAttrs bm)) A)"
  using reads_Decode_loop [OF assms, of bm "{}" rest]
  by (simp add: Decode_def select_attrs_empty [of bm A])

lemma Decode_loop_unsupported:
  "\<not> set nums \<subseteq> set supported_attrs \<Longrightarrow> \<exists>e. fst (run_state (Decode_loop nums a) d) = Inl e"
proof (induction nums arbitrary: a d)
  case Nil
  then show ?case by simp
next
  case (Cons num nums)
  show ?case
  proof (cases "Decode_attr num a")
    case None
    then show ?thesis by simp
  next
    case (Some m)
    then have "num \<in> set supported_attrs" using Decode_attr_unsupported [of num a] by auto
    with Cons show ?thesis by (simp add: Some split: prod.splits option.splits)
  qed
qed

lemma SetAttrs_BitmapFor:
  assumes "sorted_wrt (<) attrs"
  shows "Bitmap_SetAttrs (BitmapFor attrs) = attrs"
proof (rule strict_sorted_equal)
  show "sorted_wrt (<) (Bitmap_SetAttrs (BitmapFor attrs))"
    using length_BitmapFor by (rule Bitmap_SetAttrs_sorted)
  show "set (Bitmap_SetAttrs (BitmapFor attrs)) = set attrs"
    using set_Bitmap_SetAttrs [OF length_BitmapFor] Bitmap_Has_BitmapFor by auto
  show "sorted_wrt (<) attrs" by (rule assms)
qed

text \<open>The settable values on the wire, and \<open>EncodeFattr\<close> against them.\<close>

definition wire_settime :: "gotime \<Rightarrow> bytes" where
  "wire_settime t = BigEndian_PutUint32 1 @ wire_time t"

definition wire_settable :: "SettableAttrs \<Rightarrow> AttrNum \<Rightarrow> bytes" where
  "wire_settable s num =
     (if num = AttrSize then case_option [] BigEndian_PutUint64 (sa_Size s)
      else if num = AttrMode then case_option [] BigEndian_PutUint32 (sa_Mode s)
      else if num = AttrTimeAccess then case_option [] wire_settime (sa_TimeAccess s)
      else if num = AttrTimeModify then case_option [] wire_settime (sa_TimeModify s)
      else [])"

lemma writes_when_some: "(\<And>x. writes (f x) (g x)) \<Longrightarrow> writes (when_some v f) (case_option [] g v)"
  by (cases v) (simp_all add: when_some_def writes_return)

lemma writes_encodeSettime: "writes (encodeSettime t) (wire_settime t)"
  unfolding encodeSettime_def wire_settime_def wire_time_def by (intro writes_bind wire_writes)

lemma EncodeFattr_nums_sorted: "sorted_wrt (<) (EncodeFattr_nums s)"
  by (simp add: EncodeFattr_nums_def)

lemma EncodeFattr_vals_wire:
  "encoded (EncodeFattr_vals s) = concat (map (wire_settable s) (EncodeFattr_nums s))"
proof -
  have "writes (EncodeFattr_vals s)
      (case_option [] BigEndian_PutUint64 (sa_Size s) @ case_option [] BigEndian_PutUint32 (sa_Mode s) @
       case_option [] wire_settime (sa_TimeAccess s) @ case_option [] wire_settime (sa_TimeModify s))"
    unfolding EncodeFattr_vals_def
    by (intro writes_bind writes_when_some wire_writes writes_encodeSettime)
  then show ?thesis
    by (simp add: encoded_writes EncodeFattr_nums_def wire_settable_def split: option.splits)
qed

subsection \<open>Properties\<close>

lemma bit_of_and_bit_of: "n \<noteq> m \<Longrightarrow> bit_of n AND bit_of m = 0"
  by (rule bit_word_eqI) (auto simp: bit_and_iff bit_bit_of)

lemma perm_and_bit_of: "9 \<le> n \<Longrightarrow> n < 32 \<Longrightarrow> (w AND 0x1FF) AND bit_of n = 0"
proof -
  have "(0x1FF :: u32) = mask 9" by (simp add: mask_eq_exp_minus_1)
  then show "9 \<le> n \<Longrightarrow> n < 32 \<Longrightarrow> (w AND 0x1FF) AND bit_of n = 0"
    unfolding \<open>0x1FF = mask 9\<close>
    by (intro bit_word_eqI) (auto simp: bit_and_iff bit_bit_of bit_mask_iff)
qed

lemma bit_of_nonzero: "n < 32 \<Longrightarrow> bit_of n \<noteq> 0"
  by (auto simp: bit_bit_of bit_eq_iff [where ?'a = u32])

text \<open>A bitmap built from attribute numbers has exactly these numbers set, and
  listing the set numbers of a bitmap (at most \<open>2 ^ 27\<close> words, all a 32-bit
  attribute number can address) gives them in strictly increasing order, so listing
  undoes building for every strictly increasing list.\<close>

theorem Bitmap_set_spec:
  "(\<forall>a. Bitmap_Has (BitmapFor attrs) a \<longleftrightarrow> a \<in> set attrs) \<and>
   Bitmap_SetAttrs (BitmapFor attrs) = sorted_list_of_set (set attrs) \<and>
   (length b \<le> 2 ^ 27 \<longrightarrow> sorted_wrt (<) (Bitmap_SetAttrs b) \<and>
     (\<forall>a. a \<in> set (Bitmap_SetAttrs b) \<longleftrightarrow> Bitmap_Has b a))"
proof -
  have "Bitmap_SetAttrs (BitmapFor attrs) = sorted_list_of_set (set (Bitmap_SetAttrs (BitmapFor attrs)))"
    using Bitmap_SetAttrs_sorted [OF length_BitmapFor, of attrs]
    by (simp add: sorted_list_of_set.idem_if_sorted_distinct strict_sorted_iff)
  also have "set (Bitmap_SetAttrs (BitmapFor attrs)) = set attrs"
    using set_Bitmap_SetAttrs [OF length_BitmapFor] Bitmap_Has_BitmapFor by auto
  finally show ?thesis
    using Bitmap_Has_BitmapFor Bitmap_SetAttrs_sorted set_Bitmap_SetAttrs by blast
qed

theorem Bitmap_set_spec_witness:
  "BitmapFor [33, 4] = [16, 2] \<and>
   (\<forall>a. a \<in> set (Bitmap_SetAttrs [16, 2]) \<longleftrightarrow> Bitmap_Has [16, 2] a) \<and>
   Bitmap_SetAttrs (BitmapFor [33, 4]) = sorted_list_of_set {33, 4}"
  using Bitmap_set_spec [where attrs = "[33, 4]" and b = "[16, 2]"]
  by (auto simp: BitmapFor_def bit_of_def)

text \<open>C25: Decoding the values a server sends for a mask of supported attributes
  gives each attribute of the mask its value and leaves every other at its zero
  value, whatever follows; a mask with an attribute outside the supported ones is
  refused with an error, whatever the values.\<close>

theorem Decode_correct:
  assumes "length bm \<le> 2 ^ 27"
  shows "(attrs_ok A \<and> (\<forall>a. Bitmap_Has bm a \<longrightarrow> a \<in> set supported_attrs) \<longrightarrow>
            Decode bm (concat (map (wire_attr A) (Bitmap_SetAttrs bm)) @ rest)
              = Inr (select_attrs bm {a. Bitmap_Has bm a} A)) \<and>
         (Bitmap_Has bm x \<and> x \<notin> set supported_attrs \<longrightarrow> (\<exists>e. Decode bm vals = Inl e))"
proof -
  have set: "set (Bitmap_SetAttrs bm) = {a. Bitmap_Has bm a}"
    using set_Bitmap_SetAttrs [OF assms] by auto
  have "Decode bm (concat (map (wire_attr A) (Bitmap_SetAttrs bm)) @ rest)
      = Inr (select_attrs bm {a. Bitmap_Has bm a} A)"
    if "attrs_ok A" "\<forall>a. Bitmap_Has bm a \<longrightarrow> a \<in> set supported_attrs"
    using that Decode_selects [of A bm rest] by (auto simp: set)
  moreover have "\<exists>e. Decode bm vals = Inl e" if "Bitmap_Has bm x" "x \<notin> set supported_attrs"
    using that set unfolding Decode_def by (intro Decode_loop_unsupported) auto
  ultimately show ?thesis by blast
qed

definition sample_attrs :: Attributes where
  "sample_attrs = Attributes_zero\<lparr>at_Type := FtypeReg, at_Size := 42, at_Mode := 0x1A4, at_Owner := ''root''\<rparr>"

theorem Decode_correct_witness:
  "Decode (BitmapFor [AttrType, AttrSize]) (concat (map (wire_attr sample_attrs)
       (Bitmap_SetAttrs (BitmapFor [AttrType, AttrSize]))))
     = Inr (Attributes_zero\<lparr>at_Present := BitmapFor [AttrType, AttrSize], at_Type := FtypeReg, at_Size := 42\<rparr>) \<and>
   (\<exists>e. Decode (BitmapFor [AttrMaxName]) [] = Inl e)"
proof
  have ok: "attrs_ok sample_attrs"
    by (simp add: attrs_ok_def sample_attrs_def Attributes_zero_def string_ok_def opaque_ok_def
        time_ok_def zero_time_def)
  have "\<forall>a. Bitmap_Has (BitmapFor [AttrType, AttrSize]) a \<longrightarrow> a \<in> set supported_attrs"
    by (simp add: Bitmap_Has_BitmapFor supported_attrs_def)
  with ok Decode_correct [OF length_BitmapFor, of sample_attrs "[AttrType, AttrSize]" "[]"]
  show "Decode (BitmapFor [AttrType, AttrSize]) (concat (map (wire_attr sample_attrs)
      (Bitmap_SetAttrs (BitmapFor [AttrType, AttrSize]))))
    = Inr (Attributes_zero\<lparr>at_Present := BitmapFor [AttrType, AttrSize], at_Type := FtypeReg, at_Size := 42\<rparr>)"
    by (simp add: Bitmap_Has_BitmapFor select_attrs_def sample_attrs_def Attributes_zero_def)
  show "\<exists>e. Decode (BitmapFor [AttrMaxName]) [] = Inl e"
    using Decode_correct [OF length_BitmapFor, of _ "[AttrMaxName]" _ AttrMaxName "[]"]
    by (simp add: Bitmap_Has_BitmapFor supported_attrs_def)
qed

text \<open>C26: \<open>EncodeFattr\<close> sets in its mask exactly the attributes that are given and
  lays their values out in the order of the mask, as the wire format demands; when no
  times are given, decoding the pair gives back size and mode.\<close>

theorem EncodeFattr_spec:
  "(\<forall>a. Bitmap_Has (fst (EncodeFattr s)) a \<longleftrightarrow>
      a = AttrSize \<and> sa_Size s \<noteq> None \<or> a = AttrMode \<and> sa_Mode s \<noteq> None \<or>
      a = AttrTimeAccess \<and> sa_TimeAccess s \<noteq> None \<or> a = AttrTimeModify \<and> sa_TimeModify s \<noteq> None) \<and>
   snd (EncodeFattr s) = concat (map (wire_settable s) (Bitmap_SetAttrs (fst (EncodeFattr s)))) \<and>
   (sa_TimeAccess s = None \<and> sa_TimeModify s = None \<longrightarrow>
      Decode (fst (EncodeFattr s)) (snd (EncodeFattr s)) =
        Inr (Attributes_zero\<lparr>at_Present := fst (EncodeFattr s),
               at_Size := case_option 0 id (sa_Size s), at_Mode := case_option 0 id (sa_Mode s)\<rparr>))"
proof (intro conjI impI)
  show "\<forall>a. Bitmap_Has (fst (EncodeFattr s)) a \<longleftrightarrow>
      a = AttrSize \<and> sa_Size s \<noteq> None \<or> a = AttrMode \<and> sa_Mode s \<noteq> None \<or>
      a = AttrTimeAccess \<and> sa_TimeAccess s \<noteq> None \<or> a = AttrTimeModify \<and> sa_TimeModify s \<noteq> None"
    by (auto simp: EncodeFattr_def Bitmap_Has_BitmapFor EncodeFattr_nums_def)
  show "snd (EncodeFattr s) = concat (map (wire_settable s) (Bitmap_SetAttrs (fst (EncodeFattr s))))"
    by (simp add: EncodeFattr_def EncodeFattr_vals_wire SetAttrs_BitmapFor EncodeFattr_nums_sorted)
next
  assume nt: "sa_TimeAccess s = None \<and> sa_TimeModify s = None"
  let ?A = "Attributes_zero\<lparr>at_Size := case_option 0 id (sa_Size s), at_Mode := case_option 0 id (sa_Mode s)\<rparr>"
  have ok: "attrs_ok ?A"
    by (simp add: attrs_ok_def Attributes_zero_def string_ok_def opaque_ok_def time_ok_def zero_time_def)
  have "snd (EncodeFattr s) = concat (map (wire_attr ?A) (EncodeFattr_nums s))"
    using nt by (simp add: EncodeFattr_def EncodeFattr_vals_wire EncodeFattr_nums_def wire_settable_def
        wire_attr_def split: option.splits)
  then show "Decode (fst (EncodeFattr s)) (snd (EncodeFattr s)) =
        Inr (Attributes_zero\<lparr>at_Present := fst (EncodeFattr s),
               at_Size := case_option 0 id (sa_Size s), at_Mode := case_option 0 id (sa_Mode s)\<rparr>)"
    using nt Decode_selects [OF ok, of "fst (EncodeFattr s)" "[]"]
    by (auto simp: EncodeFattr_def SetAttrs_BitmapFor EncodeFattr_nums_sorted EncodeFattr_nums_def
        supported_attrs_def select_attrs_def Attributes_zero_def split: option.splits)
qed

theorem EncodeFattr_spec_witness:
  "Decode (fst (EncodeFattr \<lparr>sa_Mode = Some 0x1A4, sa_Size = Some 7, sa_TimeAccess = None, sa_TimeModify = None\<rparr>))
     (snd (EncodeFattr \<lparr>sa_Mode = Some 0x1A4, sa_Size = Some 7, sa_TimeAccess = None, sa_TimeModify = None\<rparr>))
   = Inr (Attributes_zero\<lparr>at_Present := BitmapFor [AttrSize, AttrMode], at_Size := 7, at_Mode := 0x1A4\<rparr>)"
  using EncodeFattr_spec [of "\<lparr>sa_Mode = Some 0x1A4, sa_Size = Some 7, sa_TimeAccess = None, sa_TimeModify = None\<rparr>"]
  by (auto simp: EncodeFattr_def EncodeFattr_nums_def)

text \<open>A time goes out as a \<open>settime4\<close> under the number of the readable attribute, so
  the same number is read back as another time.\<close>

lemma EncodeFattr_time_misread:
  "Decode (fst (EncodeFattr \<lparr>sa_Mode = None, sa_Size = None, sa_TimeAccess = Some (5, 6), sa_TimeModify = None\<rparr>))
     (snd (EncodeFattr \<lparr>sa_Mode = None, sa_Size = None, sa_TimeAccess = Some (5, 6), sa_TimeModify = None\<rparr>))
   = Inr (Attributes_zero\<lparr>at_Present := BitmapFor [AttrTimeAccess], at_TimeAccess := (4294967296, 5)\<rparr>)"
  by code_simp

text \<open>The file mode derived from the attributes reports a directory exactly for
  the types directory and attribute directory, has the nine permission bits of the
  \<open>mode\<close> attribute, and carries set-user-id, set-group-id and sticky exactly when the
  attribute does; the file information of a name reports the same.\<close>

theorem FileMode_spec:
  "(fileInfo_IsDir (Attributes_FileInfo a name) \<longleftrightarrow> at_Type a = FtypeDir \<or> at_Type a = FtypeAttrDir) \<and>
   FileMode_Perm (Attributes_FileMode a) = at_Mode a AND 0x1FF \<and>
   (Attributes_FileMode a AND ModeSetuid \<noteq> 0 \<longleftrightarrow> at_Mode a AND 0x800 \<noteq> 0) \<and>
   (Attributes_FileMode a AND ModeSetgid \<noteq> 0 \<longleftrightarrow> at_Mode a AND 0x400 \<noteq> 0) \<and>
   (Attributes_FileMode a AND ModeSticky \<noteq> 0 \<longleftrightarrow> at_Mode a AND 0x200 \<noteq> 0)"
proof (intro conjI)
  have perm: "bit_of n AND 0x1FF = 0" if "9 \<le> n" "n < 32" for n
    using perm_and_bit_of [of n "-1"] that by (simp add: and.commute)
  note facts = Attributes_FileMode_def Let_def bit.conj_disj_distrib2 perm_and_bit_of bit_of_and_bit_of
    bit_of_nonzero perm
  show "fileInfo_IsDir (Attributes_FileInfo a name) \<longleftrightarrow> at_Type a = FtypeDir \<or> at_Type a = FtypeAttrDir"
    by (simp add: fileInfo_IsDir_def Attributes_FileInfo_def FileMode_IsDir_def facts)
  show "FileMode_Perm (Attributes_FileMode a) = at_Mode a AND 0x1FF"
    by (simp add: FileMode_Perm_def facts)
  show "Attributes_FileMode a AND ModeSetuid \<noteq> 0 \<longleftrightarrow> at_Mode a AND 0x800 \<noteq> 0"
    "Attributes_FileMode a AND ModeSetgid \<noteq> 0 \<longleftrightarrow> at_Mode a AND 0x400 \<noteq> 0"
    "Attributes_FileMode a AND ModeSticky \<noteq> 0 \<longleftrightarrow> at_Mode a AND 0x200 \<noteq> 0"
    by (simp_all add: facts)
qed

end
