(* ===== verification/Mem_Server.thy ===== *)
theory Mem_Server
  imports Conn_Refine Attr
begin

text \<open>
  An in-memory file server that keeps the contract of \<open>Server\<close>: files, directories and symbolic
  links under file handles. It is the instance on which the contracts between the layers are
  discharged, and it makes the statements about connections executable.
\<close>

subsection \<open>Files\<close>

datatype node = Reg bytes | Dir "(string \<times> bytes) list" | Lnk string

record mem =
  me_root :: bytes
  me_node :: "bytes \<Rightarrow> node option"
  me_next :: nat

definition mem_set :: "bytes \<Rightarrow> node \<Rightarrow> mem \<Rightarrow> mem" where
  "mem_set fh x m = m\<lparr>me_node := (me_node m)(fh := Some x)\<rparr>"

text \<open>A new node under the next free file handle.\<close>

definition mem_new :: "node \<Rightarrow> mem \<Rightarrow> bytes \<times> mem" where
  "mem_new x m =
     (let fh = BigEndian_PutUint64 (word_of_nat (me_next m))
      in (fh, mem_set fh x (m\<lparr>me_next := Suc (me_next m)\<rparr>)))"

definition mem_attrs :: "node \<Rightarrow> Attributes" where
  "mem_attrs x =
     (case x of
        Reg data \<Rightarrow> Attributes_zero\<lparr>at_Type := FtypeReg, at_Size := word_of_nat (length data), at_Mode := 0x1A4\<rparr>
      | Dir es \<Rightarrow> Attributes_zero\<lparr>at_Type := FtypeDir, at_Mode := 0x1ED\<rparr>
      | Lnk t \<Rightarrow> Attributes_zero\<lparr>at_Type := FtypeLnk, at_Mode := 0x1FF\<rparr>)"

text \<open>The attributes asked for that the server has, and their values.\<close>

definition mem_fattr :: "Bitmap \<Rightarrow> node \<Rightarrow> Bitmap \<times> bytes" where
  "mem_fattr bm x =
     (let nums = filter (\<lambda>a. a \<in> set supported_attrs) (Bitmap_SetAttrs bm)
      in (BitmapFor nums, concat (map (wire_attr (mem_attrs x)) nums)))"

text \<open>Bytes written over a file: a gap up to the offset is filled with zeros.\<close>

definition splice :: "nat \<Rightarrow> bytes \<Rightarrow> bytes \<Rightarrow> bytes" where
  "splice off data old =
     (if data = [] then old
      else take off (old @ zeros (off - length old)) @ data @ drop (off + length data) old)"

definition resize :: "nat \<Rightarrow> bytes \<Rightarrow> bytes" where
  "resize n old = take n old @ zeros (n - length old)"

subsection \<open>Operations\<close>

definition mem_lookup :: "bytes \<Rightarrow> string \<Rightarrow> mem \<Rightarrow> Status \<times> bytes" where
  "mem_lookup dir name m =
     (case me_node m dir of
        Some (Dir es) \<Rightarrow> (case map_of es name of Some fh \<Rightarrow> (NFS4_OK, fh) | None \<Rightarrow> (NFS4ERR_NOENT, []))
      | Some (Lnk t) \<Rightarrow> (NFS4ERR_SYMLINK, [])
      | Some (Reg data) \<Rightarrow> (NFS4ERR_NOTDIR, [])
      | None \<Rightarrow> (NFS4ERR_STALE, []))"

definition mem_getattr :: "bytes \<Rightarrow> Bitmap \<Rightarrow> mem \<Rightarrow> Status \<times> Bitmap \<times> bytes" where
  "mem_getattr fh bm m =
     (case me_node m fh of Some x \<Rightarrow> (NFS4_OK, mem_fattr bm x) | None \<Rightarrow> (NFS4ERR_STALE, [], []))"

definition mem_read :: "bytes \<Rightarrow> Stateid \<Rightarrow> u64 \<Rightarrow> u32 \<Rightarrow> mem \<Rightarrow> Status \<times> bytes \<times> bool" where
  "mem_read fh sid off count m =
     (case me_node m fh of
        Some (Reg data) \<Rightarrow>
          (NFS4_OK, take (unat count) (drop (unat off) data), length data \<le> unat off + unat count)
      | Some (Dir es) \<Rightarrow> (NFS4ERR_ISDIR, [], False)
      | Some (Lnk t) \<Rightarrow> (NFS4ERR_INVAL, [], False)
      | None \<Rightarrow> (NFS4ERR_STALE, [], False))"

text \<open>Directories are listed two entries at a time; the cookie of an entry is its position plus three.\<close>

definition mem_entries :: "Bitmap \<Rightarrow> mem \<Rightarrow> (string \<times> bytes) list \<Rightarrow> DirEntry list" where
  "mem_entries bm m es =
     map (\<lambda>(i, name, fh). case mem_getattr fh bm m of
            (st, bm', vals) \<Rightarrow> \<lparr>de_Cookie = word_of_nat (i + 3), de_Name = name, de_AttrMask = bm', de_AttrVals = vals\<rparr>)
       (enumerate 0 es)"

definition mem_readdir :: "bytes \<Rightarrow> u64 \<Rightarrow> bytes \<Rightarrow> u32 \<Rightarrow> u32 \<Rightarrow> Bitmap \<Rightarrow> mem \<Rightarrow>
    Status \<times> bytes \<times> DirEntry list \<times> bool" where
  "mem_readdir fh cookie verf dircount maxcount bm m =
     (case me_node m fh of
        Some (Dir es) \<Rightarrow>
          (let rest = drop (unat cookie - 2) (mem_entries bm m es)
           in (NFS4_OK, zeros 8, take 2 rest, length rest \<le> 2))
      | Some x \<Rightarrow> (NFS4ERR_NOTDIR, zeros 8, [], False)
      | None \<Rightarrow> (NFS4ERR_STALE, zeros 8, [], False))"

definition mem_readlink :: "bytes \<Rightarrow> mem \<Rightarrow> Status \<times> string" where
  "mem_readlink fh m =
     (case me_node m fh of Some (Lnk t) \<Rightarrow> (NFS4_OK, t) | Some x \<Rightarrow> (NFS4ERR_INVAL, []) | None \<Rightarrow> (NFS4ERR_STALE, []))"

definition mem_stateid :: "mem \<Rightarrow> Stateid" where
  "mem_stateid m = \<lparr>sid_Seqid = 1, sid_Other = zeros 12\<rparr>"

text \<open>A new entry of a directory.\<close>

definition mem_add :: "bytes \<Rightarrow> string \<Rightarrow> node \<Rightarrow> mem \<Rightarrow> (Status \<times> bytes) \<times> mem" where
  "mem_add dir name x m =
     (case me_node m dir of
        Some (Dir es) \<Rightarrow>
          if name \<in> fst ` set es then ((NFS4ERR_EXIST, []), m)
          else (case mem_new x m of (fh, m) \<Rightarrow> ((NFS4_OK, fh), mem_set dir (Dir (es @ [(name, fh)])) m))
      | Some y \<Rightarrow> ((NFS4ERR_NOTDIR, []), m)
      | None \<Rightarrow> ((NFS4ERR_STALE, []), m))"

definition mem_open :: "bytes \<Rightarrow> OpenArgs \<Rightarrow> mem \<Rightarrow> (Status \<times> bytes \<times> Stateid \<times> u32) \<times> mem" where
  "mem_open dir a m =
     (case mem_lookup dir (oa_Name a) m of
        (st, fh) \<Rightarrow>
          if st = NFS4_OK \<and> \<not> (oa_OpenType a = Open4Create \<and> oa_CreateMode a = CreateGuarded)
          then (case me_node m fh of
                  Some (Reg data) \<Rightarrow> ((NFS4_OK, fh, mem_stateid m, 0), m)
                | Some (Dir es) \<Rightarrow> ((NFS4ERR_ISDIR, [], mem_stateid m, 0), m)
                | Some (Lnk t) \<Rightarrow> ((NFS4ERR_SYMLINK, [], mem_stateid m, 0), m)
                | None \<Rightarrow> ((NFS4ERR_STALE, [], mem_stateid m, 0), m))
          else if oa_OpenType a = Open4Create
          then (case mem_add dir (oa_Name a) (Reg []) m of
                  ((st, fh), m) \<Rightarrow> ((st, fh, mem_stateid m, 0), m))
          else ((st, [], mem_stateid m, 0), m))"

definition mem_write :: "bytes \<Rightarrow> Stateid \<Rightarrow> u64 \<Rightarrow> StableHow \<Rightarrow> bytes \<Rightarrow> mem \<Rightarrow> (Status \<times> u32 \<times> StableHow) \<times> mem" where
  "mem_write fh sid off how data m =
     (case me_node m fh of
        Some (Reg old) \<Rightarrow>
          (let data = take (2 ^ 32 - 1) data
           in ((NFS4_OK, word_of_nat (length data), FileSync4), mem_set fh (Reg (splice (unat off) data old)) m))
      | Some (Dir es) \<Rightarrow> ((NFS4ERR_ISDIR, 0, 0), m)
      | Some (Lnk t) \<Rightarrow> ((NFS4ERR_INVAL, 0, 0), m)
      | None \<Rightarrow> ((NFS4ERR_STALE, 0, 0), m))"

definition mem_create :: "bytes \<Rightarrow> CreateArgs \<Rightarrow> mem \<Rightarrow> (Status \<times> bytes) \<times> mem" where
  "mem_create dir a m =
     (if ca_Type a = FtypeDir then mem_add dir (ca_ObjName a) (Dir []) m
      else if ca_Type a = FtypeLnk then mem_add dir (ca_ObjName a) (Lnk (ca_LinkData a)) m
      else ((NFS4ERR_BADTYPE, []), m))"

definition mem_unlink :: "bytes \<Rightarrow> string \<Rightarrow> mem \<Rightarrow> Status \<times> mem" where
  "mem_unlink dir name m =
     (case me_node m dir of
        Some (Dir es) \<Rightarrow>
          if name \<in> fst ` set es then (NFS4_OK, mem_set dir (Dir (filter (\<lambda>e. fst e \<noteq> name) es)) m)
          else (NFS4ERR_NOENT, m)
      | Some x \<Rightarrow> (NFS4ERR_NOTDIR, m)
      | None \<Rightarrow> (NFS4ERR_STALE, m))"

definition mem_link :: "bytes \<Rightarrow> bytes \<Rightarrow> string \<Rightarrow> mem \<Rightarrow> Status \<times> mem" where
  "mem_link src dir name m =
     (case me_node m dir of
        Some (Dir es) \<Rightarrow>
          if name \<in> fst ` set es then (NFS4ERR_EXIST, m) else (NFS4_OK, mem_set dir (Dir (es @ [(name, src)])) m)
      | Some x \<Rightarrow> (NFS4ERR_NOTDIR, m)
      | None \<Rightarrow> (NFS4ERR_STALE, m))"

definition mem_rename :: "bytes \<Rightarrow> string \<Rightarrow> bytes \<Rightarrow> string \<Rightarrow> mem \<Rightarrow> Status \<times> mem" where
  "mem_rename src oldname dst newname m =
     (case mem_lookup src oldname m of
        (st, fh) \<Rightarrow>
          if st \<noteq> NFS4_OK then (st, m)
          else (case mem_link fh dst newname (snd (mem_unlink dst newname m)) of
                  (st, m') \<Rightarrow> if st \<noteq> NFS4_OK then (st, m) else (NFS4_OK, snd (mem_unlink src oldname m'))))"

text \<open>SETATTR of a size alone; other attributes are accepted and forgotten.\<close>

definition mem_setattr :: "bytes \<Rightarrow> Stateid \<Rightarrow> Bitmap \<Rightarrow> bytes \<Rightarrow> mem \<Rightarrow> Status \<times> mem" where
  "mem_setattr fh sid bm vals m =
     (case me_node m fh of
        None \<Rightarrow> (NFS4ERR_STALE, m)
      | Some (Reg data) \<Rightarrow>
          if bm = BitmapFor [AttrSize]
          then (NFS4_OK, mem_set fh (Reg (resize (unat (BigEndian_Uint64 vals)) data)) m)
          else (NFS4_OK, m)
      | Some x \<Rightarrow> (NFS4_OK, m))"

definition mem_server :: "mem server" where
  "mem_server =
     \<lparr>sv_root = me_root,
      sv_putfh = (\<lambda>fh m. if me_node m fh = None then NFS4ERR_STALE else NFS4_OK),
      sv_lookup = mem_lookup, sv_getattr = mem_getattr, sv_read = mem_read, sv_readdir = mem_readdir,
      sv_readlink = mem_readlink, sv_open = mem_open,
      sv_open_confirm = (\<lambda>fh sid seqid m. ((NFS4_OK, sid), m)), sv_write = mem_write,
      sv_commit = (\<lambda>fh off count m. (NFS4_OK, m)), sv_close = (\<lambda>fh seqid sid m. (NFS4_OK, m)),
      sv_create = mem_create, sv_remove = mem_unlink, sv_rename = mem_rename, sv_link = mem_link,
      sv_setattr = mem_setattr, sv_renew = (\<lambda>cid m. (if cid = 7 then NFS4_OK else NFS4ERR_STALE_CLIENTID, m)),
      sv_setclientid = (\<lambda>a m. ((NFS4_OK, 7, zeros 8), m)),
      sv_confirm = (\<lambda>cid verf m. (if cid = 7 then NFS4_OK else NFS4ERR_STALE_CLIENTID, m)),
      sv_exchange_id = (\<lambda>verf owner flags m. ((NFS4_OK, 7, 1), m)),
      sv_create_session = (\<lambda>a m. ((if cs_ClientID a = 7 then NFS4_OK else NFS4ERR_STALE_CLIENTID, zeros 16, 4), m)),
      sv_reclaim = (\<lambda>one m. (NFS4_OK, m)), sv_destroy_session = (\<lambda>sid m. (NFS4_OK, m)),
      sv_destroy_clientid = (\<lambda>cid m. (NFS4_OK, m))\<rparr>"

subsection \<open>The contract\<close>

lemma mem_statuses [simp]:
  "\<not> isRetriableStatus (fst (mem_lookup dir name m))"
  "\<not> isRetriableStatus (fst (mem_getattr fh bm m))"
  "\<not> isRetriableStatus (fst (mem_read fh sid off count m))"
  "\<not> isRetriableStatus (fst (mem_readdir fh cookie verf dircount maxcount bm m))"
  "\<not> isRetriableStatus (fst (mem_readlink fh m))"
  "\<not> isRetriableStatus (fst (fst (mem_add dir name x m)))"
  "\<not> isRetriableStatus (fst (fst (mem_write fh sid off how data m)))"
  "\<not> isRetriableStatus (fst (mem_unlink dir name m))"
  "\<not> isRetriableStatus (fst (mem_link fh dir name m))"
  "\<not> isRetriableStatus (fst (mem_setattr fh sid bm vals m))"
  by (auto simp: mem_lookup_def mem_getattr_def mem_read_def mem_readdir_def mem_readlink_def mem_add_def
      mem_write_def mem_unlink_def mem_link_def mem_setattr_def isRetriableStatus_def Let_def
      split: option.splits node.splits prod.splits)

lemma mem_statuses2 [simp]:
  "\<not> isRetriableStatus (fst (fst (mem_open dir a m)))"
  "\<not> isRetriableStatus (fst (fst (mem_create dir ca m)))"
  "\<not> isRetriableStatus (fst (mem_rename src oldname dst newname m))"
proof -
  obtain st fh where l: "mem_lookup dir (oa_Name a) m = (st, fh)" by (metis prod.exhaust)
  obtain st' fh' m' where x: "mem_add dir (oa_Name a) (Reg []) m = ((st', fh'), m')" by (metis prod.exhaust)
  have "\<not> isRetriableStatus st" "\<not> isRetriableStatus st'"
    using mem_statuses(1) [of dir "oa_Name a" m] mem_statuses(6) [of dir "oa_Name a" "Reg []" m] l x by simp_all
  then show "\<not> isRetriableStatus (fst (fst (mem_open dir a m)))"
    by (auto simp: mem_open_def l x isRetriableStatus_def split: option.splits node.splits)
  show "\<not> isRetriableStatus (fst (fst (mem_create dir ca m)))"
    by (auto simp: mem_create_def) (simp add: isRetriableStatus_def)
  show "\<not> isRetriableStatus (fst (mem_rename src oldname dst newname m))"
    using mem_statuses(1) [of src oldname m] mem_statuses(9)
    by (auto simp: mem_rename_def isRetriableStatus_def split: prod.splits) (metis fst_conv)+
qed

lemma isRetriableStatus_const [simp]:
  "\<not> isRetriableStatus 0"
  "isRetriableStatus (numeral n) \<longleftrightarrow> numeral n = (10008 :: Status) \<or> numeral n = (10013 :: Status)"
  by (simp_all add: isRetriableStatus_def)

lemma res_Status_reply_to [simp]: "res_Status (reply_to a st) = st"
  by (cases a) simp_all

lemma never_delays_mem: "never_delays mem_server"
proof -
  have op: "\<not> isRetriableStatus (res_Status (fst (op_at mem_server cur saved a m)))" for cur saved a m
    by (cases a; cases saved) (simp_all add: mem_server_def split_beta)
  have "\<not> isRetriableStatus (res_Status (fst (serve_op mem_server (cur, saved) a m)))" for cur saved a m
  proof (cases cur)
    case None
    then show ?thesis by (cases a) (simp_all add: mem_server_def Let_def)
  next
    case (Some fh)
    then show ?thesis
      using op [of fh saved a m] by (cases a; cases saved) (simp_all add: mem_server_def Let_def split_beta)
  qed
  then show ?thesis by (auto simp: never_delays_def mem_server_def)
qed

end
