(* ===== verification/Conn_Props.thy ===== *)
theory Conn_Props
  imports Mem_Server
begin

text \<open>
  What a connection promises its clients, stated against the server it talks to: mounting, the
  operations on file handles, paths, and closing.
\<close>

subsection \<open>A sample server and connection\<close>

definition sample_mem :: mem where
  "sample_mem =
     \<lparr>me_root = [1],
      me_node = [[1] \<mapsto> Dir [(''a'', [2]), (''d'', [3])], [2] \<mapsto> Reg [10, 11, 12], [3] \<mapsto> Dir [(''b'', [2])]],
      me_next = 4\<rparr>"

definition sample_store :: "mem wire store" where
  "sample_store = \<lparr>st_world = \<lparr>wi_fs = sample_mem, wi_sid = None, wi_slots = [], wi_rpc = idle_client\<rparr>, st_sessions = []\<rparr>"

definition sample_env :: "mem wire env" where
  "sample_env =
     \<lparr>ev_base = serve mem_server, ev_rand = (\<lambda>w. (Inr (zeros 8), w)), ev_hostname = Inr ''host'',
      ev_background = calm_ctx, ev_dial = (\<lambda>ctx address cred verf w. (None, w)), ev_close = (\<lambda>w. (None, w))\<rparr>"

definition sample_cfg :: "u32 \<Rightarrow> mem wire ConnConfig" where
  "sample_cfg mv =
     \<lparr>cc_ClientName = [], cc_MinorVersion = mv,
      cc_Retry = \<lparr>rc_Initial = 0, rc_Max = 0, rc_MaxAttempts = 0, rc_sleep = None\<rparr>\<rparr>"

definition sample_conn :: "mem wire Conn" where
  "sample_conn = (NewConn BaseCaller (sample_cfg 0))\<lparr>cn_rootFH := Some [1]\<rparr>"

lemma sample_simps [simp]:
  "wi_fs (st_world sample_store) = sample_mem" "sample_env\<lparr>ev_base := serve mem_server\<rparr> = sample_env"
  "ev_rand sample_env w = (Inr (zeros 8), w)"
  by (simp_all add: sample_store_def sample_env_def)

lemma sample_conn_on: "conn_on sample_conn sample_store"
  by (rule conn_onI40 [where cfg = "cc_Retry (sample_cfg 0)"])
    (simp_all add: sample_conn_def NewConn_def sample_cfg_def)

subsection \<open>Properties\<close>

definition mount_spec :: "'s server \<Rightarrow> 's wire env \<Rightarrow> 's wire Conn \<Rightarrow> bytes \<Rightarrow> 's \<Rightarrow> goerror option \<times> u64 \<times> 's" where
  "mount_spec sv env c verf s =
     (if MinorVersion c = MinorV40 then mount40_spec sv (setclientid_args env c verf) s
      else mount41_spec sv verf (bytes_of_string (clientName env c)) s)"

lemma Mount_new:
  assumes "cc_MinorVersion cfg = 0 \<or> cc_MinorVersion cfg = 1" and "never_delays sv"
    and "ev_rand env w = (Inr verf, w)"
    and "mount_spec sv env (NewConn BaseCaller cfg) verf (wi_fs (st_world w)) = (err, cid, s')"
  shows "\<exists>c' w'. Mount (env\<lparr>ev_base := serve sv\<rparr>) calm_ctx (NewConn BaseCaller cfg) w = Some (err, c', w') \<and>
     wi_fs (st_world w') = s' \<and>
     (err = None \<longrightarrow> conn_on c' w' \<and> ClientID c' = cid \<and> RootFH c' = Some (sv_root sv s'))"
proof -
  have caller: "cn_caller (NewConn BaseCaller cfg) = newRetryCaller BaseCaller (cc_Retry cfg)"
    by (simp add: NewConn_def)
  show ?thesis
  proof (cases "cc_MinorVersion cfg = 0")
    case True
    then have "cc_MinorVersion (cn_cfg (NewConn BaseCaller cfg)) = 0" by (simp add: NewConn_def)
    from Mount_v40 [OF this caller assms(2,3) refl] assms(4) this show ?thesis
      by (fastforce simp: mount_spec_def MinorVersion_def)
  next
    case False
    with assms(1) have "cc_MinorVersion (cn_cfg (NewConn BaseCaller cfg)) = 1" by (simp add: NewConn_def)
    from Mount_v41 [OF this caller assms(2,3) refl] assms(4) this show ?thesis
      by (fastforce simp: mount_spec_def MinorVersion_def)
  qed
qed

text \<open>C4: Mounting a new connection registers the client and fetches the root. With minor version
  0 it is SETCLIENTID, then SETCLIENTID_CONFIRM with the id and the verifier the server gave, then the
  root file handle; with minor version 1 it is EXCHANGE_ID, CREATE_SESSION with the id and sequence it
  gave, then, through the session, RECLAIM_COMPLETE (for which COMPLETE_ALREADY is fine) and the root.
  It stops with an error at the first refusal; otherwise the connection holds the server's client id
  and root, its session (if any) is in step with the server's, and its operations work.\<close>

theorem Mount_refines:
  assumes "cc_MinorVersion cfg = 0 \<or> cc_MinorVersion cfg = 1" and "never_delays sv"
    and "ev_rand env w = (Inr verf, w)"
    and "mount_spec sv env (NewConn BaseCaller cfg) verf (wi_fs (st_world w)) = (err, cid, s')"
  shows "\<exists>c' w'. Mount (env\<lparr>ev_base := serve sv\<rparr>) calm_ctx (NewConn BaseCaller cfg) w = Some (err, c', w') \<and>
     wi_fs (st_world w') = s' \<and>
     (err = None \<longrightarrow> conn_on c' w' \<and> ClientID c' = cid \<and> RootFH c' = Some (sv_root sv s'))"
  using assms by (rule Mount_new)

theorem Mount_refines_witness:
  "\<exists>c' w'. Mount sample_env calm_ctx (NewConn BaseCaller (sample_cfg 1)) sample_store = Some (None, c', w') \<and>
     conn_on c' w' \<and> ClientID c' = 7 \<and> RootFH c' = Some [1]"
proof -
  have "mount_spec mem_server sample_env (NewConn BaseCaller (sample_cfg 1)) (zeros 8) (wi_fs (st_world sample_store)) =
      (None, 7, sample_mem)"
    by (simp add: mount_spec_def MinorVersion_def NewConn_def sample_cfg_def mount41_spec_def mem_server_def session_args_def)
  moreover have "cc_MinorVersion (sample_cfg 1) = 0 \<or> cc_MinorVersion (sample_cfg 1) = 1"
    "sv_root mem_server sample_mem = [1]"
    by (simp_all add: sample_cfg_def mem_server_def sample_mem_def)
  ultimately show ?thesis
    using Mount_refines [OF _ never_delays_mem, of "sample_cfg 1" sample_env sample_store "zeros 8" None 7 sample_mem]
    by auto
qed

text \<open>C5: The reading operations of a connection are the server's: looking up a name, reading
  attributes, data, a page of a directory and the target of a link, and renewing the lease perform that
  operation on the given file handle, leave the server's files as they were, and return its result, or
  the status of the file handle or of the operation as an error.\<close>

theorem conn_reads_refine:
  assumes "conn_on c w" and "never_delays sv" and "s = wi_fs (st_world w)" and "E = env\<lparr>ev_base := serve sv\<rparr>"
  shows "performs c (Lookup E calm_ctx c fh name w)
           (at_fh sv fh s (case sv_lookup sv (nilb fh) name s of (st, fh') \<Rightarrow> ((st, Some fh'), s))) \<and>
         performs c (GetAttr E calm_ctx c fh bm w) (at_fh sv fh s (sv_getattr sv (nilb fh) bm s, s)) \<and>
         performs c (Read E calm_ctx c fh off count w) (at_fh sv fh s (sv_read sv (nilb fh) AnonStateid off count s, s)) \<and>
         performs c (Readdir E calm_ctx c fh cookie verf bm w)
           (at_fh sv fh s (case sv_readdir sv (nilb fh) cookie verf 8192 65536 bm s of
              (st, verf', entries, eof) \<Rightarrow> ((st, ReaddirRes 0 verf' entries eof), s))) \<and>
         performs c (Readlink E calm_ctx c fh w) (at_fh sv fh s (sv_readlink sv (nilb fh) s, s)) \<and>
         performs c (Renew E calm_ctx c w) (case sv_renew sv (ClientID c) s of (st, s') \<Rightarrow> (Status_Err st, s'))"
  unfolding assms(4) ClientID_def
  by (intro conjI Lookup_refines GetAttr_refines Read_refines Readdir_refines Readlink_refines Renew_refines assms(1-3))

theorem conn_reads_refine_witness:
  "\<exists>w'. Read sample_env calm_ctx sample_conn (Some [2]) 1 5 sample_store = Some (Inr ([11, 12], True), w') \<and>
     wi_fs (st_world w') = sample_mem"
proof -
  have "at_fh mem_server (Some [2]) sample_mem (sv_read mem_server (nilb (Some [2])) AnonStateid 1 5 sample_mem, sample_mem) =
      (Inr ([11, 12], True), sample_mem)"
    by (simp add: at_fh_def mem_server_def sample_mem_def mem_read_def nilb_def)
  moreover have "performs sample_conn (Read (sample_env\<lparr>ev_base := serve mem_server\<rparr>) calm_ctx sample_conn (Some [2]) 1 5 sample_store)
      (at_fh mem_server (Some [2]) (wi_fs (st_world sample_store))
        (sv_read mem_server (nilb (Some [2])) AnonStateid 1 5 (wi_fs (st_world sample_store)), wi_fs (st_world sample_store)))"
    using conn_reads_refine [OF sample_conn_on never_delays_mem refl refl] by blast
  ultimately show ?thesis by (auto simp: performs_def)
qed

text \<open>C6: The writing operations of a connection are the server's: writing and committing data,
  creating directories and symbolic links, removing, renaming (from the first directory to the
  second), linking and setting attributes perform exactly that operation on the given file handles and
  return its result, or the status of the first file handle or operation that failed as an error.\<close>

theorem conn_writes_refine:
  assumes "conn_on c w" and "never_delays sv" and "s = wi_fs (st_world w)" and "E = env\<lparr>ev_base := serve sv\<rparr>"
  shows "performs c (Write E calm_ctx c fh sid off data how w) (at_fh sv fh s (sv_write sv (nilb fh) sid off how data s)) \<and>
         performs c (Commit E calm_ctx c fh off count w) (at_fh_err sv fh s (sv_commit sv (nilb fh) off count s)) \<and>
         performs c (Mkdir E calm_ctx c fh name bm vals w)
           (at_fh sv fh s (case sv_create sv (nilb fh) \<lparr>ca_Type = 2, ca_LinkData = [], ca_ObjName = name,
                ca_AttrMask = bm, ca_AttrVals = vals\<rparr> s of ((st, fh'), s') \<Rightarrow> ((st, Some fh'), s'))) \<and>
         performs c (Symlink E calm_ctx c fh name target bm vals w)
           (at_fh sv fh s (case sv_create sv (nilb fh) \<lparr>ca_Type = 5, ca_LinkData = target, ca_ObjName = name,
                ca_AttrMask = bm, ca_AttrVals = vals\<rparr> s of ((st, fh'), s') \<Rightarrow> ((st, Some fh'), s'))) \<and>
         performs c (Remove E calm_ctx c fh name w) (at_fh_err sv fh s (sv_remove sv (nilb fh) name s)) \<and>
         performs c (Rename E calm_ctx c src oldname dst newname w)
           (if sv_putfh sv (nilb src) s \<noteq> NFS4_OK then (Some (StatusError (sv_putfh sv (nilb src) s)), s)
            else at_fh_err sv dst s (sv_rename sv (nilb src) oldname (nilb dst) newname s)) \<and>
         performs c (Link E calm_ctx c src dst newname w)
           (if sv_putfh sv (nilb src) s \<noteq> NFS4_OK then (Some (StatusError (sv_putfh sv (nilb src) s)), s)
            else at_fh_err sv dst s (sv_link sv (nilb src) (nilb dst) newname s)) \<and>
         performs c (SetAttr E calm_ctx c fh sid bm vals w) (at_fh_err sv fh s (sv_setattr sv (nilb fh) sid bm vals s))"
  unfolding assms(4) Mkdir_def Symlink_def
  by (intro conjI Write_refines Commit_refines create_refines Remove_refines Rename_refines Link_refines
      SetAttr_refines assms(1-3))

theorem conn_writes_refine_witness:
  "\<exists>w'. Rename sample_env calm_ctx sample_conn (Some [1]) ''a'' (Some [3]) ''c'' sample_store = Some (None, w') \<and>
     me_node (wi_fs (st_world w')) [1] = Some (Dir [(''d'', [3])]) \<and>
     me_node (wi_fs (st_world w')) [3] = Some (Dir [(''b'', [2]), (''c'', [2])])"
proof -
  let ?spec = "if sv_putfh mem_server (nilb (Some [1])) sample_mem \<noteq> NFS4_OK
      then (Some (StatusError (sv_putfh mem_server (nilb (Some [1])) sample_mem)), sample_mem)
      else at_fh_err mem_server (Some [3]) sample_mem
             (sv_rename mem_server (nilb (Some [1])) ''a'' (nilb (Some [3])) ''c'' sample_mem)"
  have "fst ?spec = None \<and> me_node (snd ?spec) [1] = Some (Dir [(''d'', [3])]) \<and>
      me_node (snd ?spec) [3] = Some (Dir [(''b'', [2]), (''c'', [2])])"
    by (simp add: at_fh_err_def mem_server_def sample_mem_def mem_rename_def mem_lookup_def mem_link_def
        mem_unlink_def mem_set_def nilb_def)
  moreover have "performs sample_conn (Rename (sample_env\<lparr>ev_base := serve mem_server\<rparr>) calm_ctx sample_conn (Some [1]) ''a''
      (Some [3]) ''c'' sample_store) ?spec"
    using conn_writes_refine [OF sample_conn_on never_delays_mem sample_simps(1) [symmetric] refl] by blast
  ultimately show ?thesis by (auto simp: performs_def simp del: fun_upd_apply)
qed

text \<open>C7: Opening a file takes the next open-owner sequence id for OPEN and, when the server asks
  for a confirmation, the one after it for OPEN_CONFIRM on the opened file, whose stateid is then the
  one returned; closing takes the next one. The OPEN carries the client id, the owner derived from it,
  the share mode, and creation attributes with GUARDED or UNCHECKED exactly when creation is asked
  for.\<close>

theorem conn_open_refine:
  assumes "conn_on c w" and "never_delays sv" and "s = wi_fs (st_world w)" and "E = env\<lparr>ev_base := serve sv\<rparr>"
    and "n = cn_openSeqid c + 1"
  shows "performs_seq c (Open E calm_ctx c dir name share bm vals doCreate excl w)
           (open_spec sv dir
              \<lparr>oa_Seqid = n, oa_ShareAccess = share, oa_ShareDeny = 0, oa_ClientID = ClientID c, oa_Owner = ownerID c,
               oa_OpenType = of_bool doCreate, oa_CreateMode = of_bool (doCreate \<and> excl),
               oa_CreateAttrMask = (if doCreate then bm else []), oa_CreateAttrVals = (if doCreate then vals else []),
               oa_CreateVerf = zeros 8, oa_Name = name\<rparr> n s) \<and>
         performs_seq c (CloseFile E calm_ctx c fh sid w)
           (case at_fh_err sv fh s (sv_close sv (nilb fh) n sid s) of (err, s') \<Rightarrow> (err, n, s'))"
proof -
  have "Open_args c n name share bm vals doCreate excl =
      \<lparr>oa_Seqid = n, oa_ShareAccess = share, oa_ShareDeny = 0, oa_ClientID = ClientID c, oa_Owner = ownerID c,
       oa_OpenType = of_bool doCreate, oa_CreateMode = of_bool (doCreate \<and> excl),
       oa_CreateAttrMask = (if doCreate then bm else []), oa_CreateAttrVals = (if doCreate then vals else []),
       oa_CreateVerf = zeros 8, oa_Name = name\<rparr>"
    by (simp add: Open_args_def Let_def)
  with Open_refines [OF assms(1-3,5), of env dir name share bm vals doCreate excl]
    CloseFile_refines [OF assms(1-3), of env fh sid]
  show ?thesis unfolding assms(4,5) by simp
qed

theorem conn_open_refine_witness:
  "\<exists>w'. Open sample_env calm_ctx sample_conn (Some [3]) ''b'' 3 [] [] False False sample_store =
     Some (Inr \<lparr>or_FH = Some [2], or_Stateid = mem_stateid sample_mem\<rparr>, sample_conn\<lparr>cn_openSeqid := 1\<rparr>, w') \<and>
   wi_fs (st_world w') = sample_mem"
proof -
  have n: "(1 :: u32) = cn_openSeqid sample_conn + 1" by (simp add: sample_conn_def NewConn_def)
  have "open_spec mem_server (Some [3])
      \<lparr>oa_Seqid = 1, oa_ShareAccess = 3, oa_ShareDeny = 0, oa_ClientID = ClientID sample_conn, oa_Owner = ownerID sample_conn,
       oa_OpenType = of_bool False, oa_CreateMode = of_bool (False \<and> False), oa_CreateAttrMask = (if False then [] else []),
       oa_CreateAttrVals = (if False then [] else []), oa_CreateVerf = zeros 8, oa_Name = ''b''\<rparr> 1 sample_mem =
      (Inr \<lparr>or_FH = Some [2], or_Stateid = mem_stateid sample_mem\<rparr>, 1, sample_mem)"
    by (simp add: open_spec_def at_fh_def mem_server_def sample_mem_def mem_open_def mem_lookup_def nilb_def mem_stateid_def)
  moreover note conn_open_refine [OF sample_conn_on never_delays_mem sample_simps(1) [symmetric] refl n, of sample_env
      "Some [3]" "''b''" 3 "[]" "[]" False False]
  ultimately have "performs_seq sample_conn (Open sample_env calm_ctx sample_conn (Some [3]) ''b'' 3 [] [] False False sample_store)
      (Inr \<lparr>or_FH = Some [2], or_Stateid = mem_stateid sample_mem\<rparr>, 1, sample_mem)"
    by (simp only: sample_simps simp_thms)
  then show ?thesis by (auto simp: performs_seq_def)
qed

lemma LookupPath_refines:
  assumes "conn_on c w" and "never_delays sv" and "s = wi_fs (st_world w)"
  shows "performs c (LookupPath (env\<lparr>ev_base := serve sv\<rparr>) calm_ctx c components w)
    (if RootFH c = None then Inl (ErrorF ''nfs4: not mounted (no root filehandle)'' [])
     else walk sv s (RootFH c) (filter (\<lambda>n. n \<noteq> [] \<and> n \<noteq> ''.'') components), s)"
proof (cases "RootFH c = None")
  case True
  then show ?thesis using assms by (simp add: LookupPath_def performs_def)
next
  case False
  then show ?thesis
    using LookupPath_loop_walks [OF assms(2,1,3), of env "RootFH c" components] by (auto simp: LookupPath_def)
qed

text \<open>Resolving a path looks its components up one after the other from the root, passes over
  empty components and dots, and returns the last handle or the first error; a connection without a
  root returns an error and asks the server nothing.\<close>

theorem LookupPath_walks:
  assumes "conn_on c w" and "never_delays sv" and "s = wi_fs (st_world w)"
  shows "performs c (LookupPath (env\<lparr>ev_base := serve sv\<rparr>) calm_ctx c components w)
    (if RootFH c = None then Inl (ErrorF ''nfs4: not mounted (no root filehandle)'' [])
     else walk sv s (RootFH c) (filter (\<lambda>n. n \<noteq> [] \<and> n \<noteq> ''.'') components), s)"
  using assms by (rule LookupPath_refines)

theorem LookupPath_walks_witness:
  "\<exists>w'. LookupPath sample_env calm_ctx sample_conn [[], ''d'', ''.'', ''b''] sample_store = Some (Inr (Some [2]), w') \<and>
     wi_fs (st_world w') = sample_mem"
proof -
  have "RootFH sample_conn = Some [1]" by (simp add: RootFH_def sample_conn_def)
  moreover have "walk mem_server sample_mem (Some [1]) (filter (\<lambda>n. n \<noteq> [] \<and> n \<noteq> ''.'') [[], ''d'', ''.'', ''b'']) =
      Inr (Some [2])"
    by (simp add: at_fh_def mem_server_def sample_mem_def mem_lookup_def nilb_def)
  ultimately show ?thesis
    using LookupPath_walks [OF sample_conn_on never_delays_mem sample_simps(1) [symmetric], of sample_env
      "[[], ''d'', ''.'', ''b'']"]
    by (auto simp: performs_def)
qed

text \<open>C36: Closing a connection that has a session destroys the session and then the client id with
  compounds that carry no SEQUENCE, whatever the server answers, and then closes the transport, whose
  error is the only one returned.\<close>

theorem Close_destroys_session:
  assumes "MinorVersion c = 1" and "cn_caller c = newRetryCaller (newSessionCaller BaseCaller i) cfg"
    and "cn_session c = Some i" and "sid = se_id (get_session i w)"
    and "sv_destroy_session sv sid (wi_fs (st_world w)) = (st1, s1)"
    and "sv_destroy_clientid sv (ClientID c) s1 = (st2, s2)"
  shows "Close (env\<lparr>ev_base := serve sv\<rparr>) c w =
    (let w' = w\<lparr>st_world := wire_tick (wire_tick
           ((st_world w)\<lparr>wi_fs := s2, wi_sid := (if st1 = NFS4_OK then None else wi_sid (st_world w))\<rparr>))\<rparr>
     in Some (if cn_rpc c then ev_close env w' else (None, w')))"
proof -
  have "unwrap_session (unwrap_retry (cn_caller c)) = BaseCaller"
    by (simp add: assms(2) newRetryCaller_def newSessionCaller_def)
  then have "teardownSession (env\<lparr>ev_base := serve sv\<rparr>) c w =
      Some (w\<lparr>st_world := wire_tick (wire_tick
        ((st_world w)\<lparr>wi_fs := s2, wi_sid := (if st1 = NFS4_OK then None else wi_sid (st_world w))\<rparr>))\<rparr>)"
    using assms
    by (simp add: teardownSession_def Let_def serve_def Conn_compound_def NewCompound_def Compound_Add_def
        MinorVersion_def ClientID_def get_session_def wire_tick_def)
  then show ?thesis by (simp add: Close_def Let_def)
qed

theorem Close_destroys_session_witness:
  "\<exists>w'. Close sample_env (sample_conn\<lparr>cn_cfg := sample_cfg 1, cn_session := Some 0,
       cn_caller := newRetryCaller (newSessionCaller BaseCaller 0) (cc_Retry (sample_cfg 1))\<rparr>)
     (sample_store\<lparr>st_world := \<lparr>wi_fs = sample_mem, wi_sid = Some (zeros 16), wi_slots = [0], wi_rpc = idle_client\<rparr>,
        st_sessions := [NewSession (zeros 16) 1]\<rparr>) = Some (None, w') \<and> wi_sid (st_world w') = None"
proof -
  let ?c = "sample_conn\<lparr>cn_cfg := sample_cfg 1, cn_session := Some 0,
      cn_caller := newRetryCaller (newSessionCaller BaseCaller 0) (cc_Retry (sample_cfg 1))\<rparr>"
  let ?w = "sample_store\<lparr>st_world := \<lparr>wi_fs = sample_mem, wi_sid = Some (zeros 16), wi_slots = [0], wi_rpc = idle_client\<rparr>,
        st_sessions := [NewSession (zeros 16) 1]\<rparr>"
  have d: "sv_destroy_session mem_server = (\<lambda>sid m. (0, m))" "sv_destroy_clientid mem_server = (\<lambda>cid m. (0, m))"
    by (simp_all add: mem_server_def)
  have "MinorVersion ?c = 1" by (simp add: MinorVersion_def sample_cfg_def)
  from Close_destroys_session [OF this, of 0 "cc_Retry (sample_cfg 1)" _ ?w mem_server 0 sample_mem 0 sample_mem sample_env]
  show ?thesis
    by (simp add: d sample_conn_def NewConn_def)
qed

end
