(* ===== verification/Transport.thy ===== *)
theory Transport
  imports Conn_Props
begin

text \<open>
  Dialling, from \<open>src/nfs4/transport.go\<close>: connect, mount, and the choice of the minor version.
\<close>

definition Dial :: "'s env \<Rightarrow> 's goctx \<Rightarrow> string \<Rightarrow> OpaqueAuth \<Rightarrow> 's ConnConfig \<Rightarrow> 's store \<Rightarrow>
    ((goerror + 's Conn) \<times> 's store) option" where
  "Dial env ctx address cred cfg w =
     (case ev_dial env ctx address cred AuthNull w of
        (Some err, w) \<Rightarrow> Some (Inl err, w)
      | (None, w) \<Rightarrow>
          do {
            (err, conn, w) \<leftarrow> Mount env ctx (NewConn BaseCaller cfg) w;
            (case err of
               Some e \<Rightarrow> (case ev_close env w of (_, w) \<Rightarrow> Some (Inl e, w))
             | None \<Rightarrow> Some (Inr (conn\<lparr>cn_rpc := True\<rparr>), w))
          })"

definition isMinorVersionFallback :: "goerror \<Rightarrow> bool" where
  "isMinorVersionFallback err =
     list_ex (errorHasStatus err) [NFS4ERR_MINOR_VERS_MISMATCH, NFS4ERR_NOTSUPP, NFS4ERR_OP_ILLEGAL]"

definition DialAuto :: "'s env \<Rightarrow> 's goctx \<Rightarrow> string \<Rightarrow> OpaqueAuth \<Rightarrow> 's ConnConfig \<Rightarrow> 's store \<Rightarrow>
    ((goerror + 's Conn) \<times> 's store) option" where
  "DialAuto env ctx address cred cfg w =
     do {
       (out, w) \<leftarrow> Dial env ctx address cred (cfg\<lparr>cc_MinorVersion := MinorV41\<rparr>) w;
       (case out of
          Inr conn \<Rightarrow> Some (Inr conn, w)
        | Inl err \<Rightarrow>
            if \<not> isMinorVersionFallback err then Some (Inl err, w)
            else Dial env ctx address cred (cfg\<lparr>cc_MinorVersion := MinorV40\<rparr>) w)
     }"

subsection \<open>A server without minor version 1\<close>

text \<open>
  Such a server answers every compound of another minor version with
  \<open>NFS4ERR_MINOR_VERS_MISMATCH\<close> and no results at all (RFC 7530, section 16.2.3).
\<close>

definition v40_only :: "('s goctx \<Rightarrow> 's call) \<Rightarrow> bool" where
  "v40_only base \<longleftrightarrow>
     (\<forall>ctx c results w. cp_MinorVersion c \<noteq> 0 \<longrightarrow>
        (\<exists>w'. base ctx c results w =
           Some (((Some \<lparr>cr_Status = NFS4ERR_MINOR_VERS_MISMATCH, cr_Tag = cp_Tag c, cr_NumResults = 0\<rparr>, None),
                  results), w') \<and> st_sessions w' = st_sessions w))"

lemma mismatch_final: "\<not> retriable (Some \<lparr>cr_Status = NFS4ERR_MINOR_VERS_MISMATCH, cr_Tag = t, cr_NumResults = n\<rparr>, None)"
  by (simp add: isRetriableStatus_def)

lemma v40_onlyD:
  "v40_only base \<Longrightarrow> cp_MinorVersion c \<noteq> 0 \<Longrightarrow>
   \<exists>w'. base ctx c results w =
     Some (((Some \<lparr>cr_Status = NFS4ERR_MINOR_VERS_MISMATCH, cr_Tag = cp_Tag c, cr_NumResults = 0\<rparr>, None),
            results), w') \<and> st_sessions w' = st_sessions w"
  unfolding v40_only_def by blast

lemma v40_only_base:
  assumes "v40_only base" "cp_MinorVersion c \<noteq> 0"
  shows "\<exists>w'. CallCompound base (newRetryCaller BaseCaller cfg) calm_ctx c results w =
           Some (((Some \<lparr>cr_Status = NFS4ERR_MINOR_VERS_MISMATCH, cr_Tag = cp_Tag c, cr_NumResults = 0\<rparr>, None),
                  results), w') \<and> st_sessions w' = st_sessions w"
proof -
  obtain w' where "CallCompound base BaseCaller calm_ctx c results w =
      Some (((Some \<lparr>cr_Status = NFS4ERR_MINOR_VERS_MISMATCH, cr_Tag = cp_Tag c, cr_NumResults = 0\<rparr>, None), results), w')"
      "st_sessions w' = st_sessions w"
    using v40_onlyD [OF assms, of calm_ctx results w] by auto
  with retry_first [OF this(1) mismatch_final] show ?thesis by blast
qed

text \<open>The session such a server never created does not notice: SEQUENCE has no result, hence no error.\<close>

lemma v40_only_session:
  assumes "v40_only base" "cp_MinorVersion c \<noteq> 0" "i < length (st_sessions w)" "session_idle (get_session i w)"
  shows "\<exists>w'. CallCompound base (newRetryCaller (newSessionCaller BaseCaller i) cfg) calm_ctx c results w =
           Some (((Some \<lparr>cr_Status = NFS4ERR_MINOR_VERS_MISMATCH, cr_Tag = cp_Tag c, cr_NumResults = 0\<rparr>, None),
                  results), w') \<and> i < length (st_sessions w') \<and> session_idle (get_session i w')"
proof -
  let ?s = "get_session i w"
  let ?r = "\<lparr>cr_Status = NFS4ERR_MINOR_VERS_MISMATCH, cr_Tag = cp_Tag c, cr_NumResults = 0\<rparr>"
  obtain l where l: "AcquireSlot None ?s = Some (Inr l, first_slot_taken ?s)"
    using AcquireSlot_idle [OF assms(4)] by (simp add: first_slot_taken_def)
  have sel: "cx_select calm_ctx w = (None, w)" by (simp add: calm_ctx_def)
  let ?c = "wrap_compound (se_id ?s) l c" and ?w1 = "put_session i (first_slot_taken ?s) w"
  have "cp_MinorVersion ?c \<noteq> 0" "cp_Tag ?c = cp_Tag c" using assms(2) by (simp_all add: wrap_compound_eq)
  then obtain w2 where base: "CallCompound base BaseCaller calm_ctx ?c (SequenceRes_zero # results) ?w1 =
      Some (((Some ?r, None), SequenceRes_zero # results), w2)" and keep: "st_sessions w2 = st_sessions ?w1"
    using v40_onlyD [OF assms(1), of ?c calm_ctx "SequenceRes_zero # results" ?w1] by auto
  have keep': "st_sessions w2 = (st_sessions w)[i := first_slot_taken ?s]" using keep by (simp add: put_session_def)
  have "CallCompound base (newSessionCaller BaseCaller i) calm_ctx c results w =
      Some (((Some ?r, None), results), w2\<lparr>st_sessions := (st_sessions w)[i := bump True ?s]\<rparr>)"
    using sessionCaller_idle [OF assms(4,3) sel l, of "CallCompound base BaseCaller calm_ctx", OF base keep']
    by (simp add: newSessionCaller_def SequenceRes_zero_def)
  from retry_first [OF this mismatch_final, of cfg] show ?thesis
    using assms(3) release_idle [OF assms(4) l, of True] by (auto simp: get_session_def bump_def)
qed

lemma Conn_call_compound:
  "Conn_call env ctx c ops results w =
     CallCompound (ev_base env) (cn_caller c) ctx
       \<lparr>cp_Tag = [], cp_MinorVersion = cc_MinorVersion (cn_cfg c), cp_ops = ops\<rparr> results w"
  by (simp add: Conn_call_def foldl_Compound_Add Conn_compound_def NewCompound_def)

lemma Mount_v40_only:
  assumes base: "v40_only (ev_base env)" and mv: "cc_MinorVersion cfg = 1"
    and rand: "ev_rand env w = (Inr verf, w)"
  shows "\<exists>c w'. Mount env calm_ctx (NewConn BaseCaller cfg) w =
    Some (Some (WrapF ''nfs4: fetching root filehandle: %w'' [] (StatusError NFS4ERR_MINOR_VERS_MISMATCH)), c, w')"
proof -
  let ?c = "NewConn BaseCaller cfg" and ?r = "\<lambda>t. \<lparr>cr_Status = NFS4ERR_MINOR_VERS_MISMATCH, cr_Tag = t, cr_NumResults = 0\<rparr>"
  have c: "cn_caller ?c = newRetryCaller BaseCaller (cc_Retry cfg)" "cn_cfg ?c = cfg" by (simp_all add: NewConn_def)
  have one: "\<exists>w'. Conn_one env calm_ctx c msg a r0 w = Some (Inr r0, w')"
    if "cn_caller c = newRetryCaller BaseCaller (cc_Retry cfg)" "cn_cfg c = cfg" for c msg a r0 w
    using v40_only_base [OF base, of "\<lparr>cp_Tag = [], cp_MinorVersion = 1, cp_ops = [a]\<rparr>" "cc_Retry cfg" "[r0]" w] that mv
    by (auto simp: Conn_one_def Conn_call_compound)
  obtain w1 where w1: "exchangeID env calm_ctx ?c w = Some (None, ?c\<lparr>cn_clientID := 0, cn_eirSequence := 0\<rparr>, w1)"
    using one [OF c, of "''nfs4: EXCHANGE_ID: %w''"
        "ExchangeIDArgs verf (bytes_of_string (clientName env ?c)) ExchgIDFlagUseNonPNFS" "ExchangeIDRes 0 0 0 0" w] rand
    by (auto simp: exchangeID_def)
  let ?c1 = "?c\<lparr>cn_clientID := 0, cn_eirSequence := 0\<rparr>"
  have c1: "cn_caller ?c1 = newRetryCaller BaseCaller (cc_Retry cfg)" "cn_cfg ?c1 = cfg" using c by simp_all
  obtain w2' where w2': "Conn_one env calm_ctx ?c1 ''nfs4: CREATE_SESSION: %w''
      (ACreateSession \<lparr>cs_ClientID = cn_clientID ?c1, cs_SequenceID = cn_eirSequence ?c1, cs_Flags = 0,
         cs_ForeChan = session_chan, cs_BackChan = session_chan, cs_CBProgram = 0\<rparr>)
      (CreateSessionRes 0 (zeros 16) 0 0 ChannelAttrs_zero ChannelAttrs_zero) w1 =
      Some (Inr (CreateSessionRes 0 (zeros 16) 0 0 ChannelAttrs_zero ChannelAttrs_zero), w2')"
    using one [OF c1] by blast
  let ?i = "length (st_sessions w2')" and ?w2 = "w2'\<lparr>st_sessions := st_sessions w2' @ [NewSession (zeros 16) 1]\<rparr>"
  let ?c2 = "?c1\<lparr>cn_session := Some ?i, cn_caller := newRetryCaller (newSessionCaller BaseCaller ?i) (cc_Retry cfg)\<rparr>"
  have w2: "createSession env calm_ctx ?c1 w1 = Some (None, ?c2, ?w2)"
    using w2' c1 by (simp add: createSession_def Let_def newRetryCaller_def ChannelAttrs_zero_def)
  have sess: "?i < length (st_sessions ?w2)" "session_idle (get_session ?i ?w2)" by (simp_all add: get_session_def)
  have call: "\<exists>w'. Conn_call env calm_ctx ?c2 ops results w = Some (((Some (?r []), None), results), w') \<and>
      ?i < length (st_sessions w') \<and> session_idle (get_session ?i w')"
    if "?i < length (st_sessions w)" "session_idle (get_session ?i w)" for ops results w
    using v40_only_session [OF base, of "\<lparr>cp_Tag = [], cp_MinorVersion = 1, cp_ops = ops\<rparr>" ?i w "cc_Retry cfg" results]
      that mv c(2)
    by (simp add: Conn_call_compound)
  obtain w3 where w3: "reclaimComplete env calm_ctx ?c2 ?w2 = Some (None, ?c2, w3)"
      "?i < length (st_sessions w3)" "session_idle (get_session ?i w3)"
    using call [OF sess, of "[ReclaimCompleteArgs False]" "[ReclaimCompleteRes 0]"]
    by (auto simp: reclaimComplete_def Conn_one_def)
  obtain w4 where "fetchRootFH env calm_ctx ?c2 w3 =
      Some (Some (WrapF ''nfs4: fetching root filehandle: %w'' [] (StatusError NFS4ERR_MINOR_VERS_MISMATCH)), ?c2, w4)"
    using call [OF w3(2,3), of "[PutrootfhArgs, GetfhArgs]" "[StatusRes 0, GetfhRes 0 None]"]
    by (auto simp: fetchRootFH_def result_Err_def CompoundResult_Err_def Status_Err_def)
  then show ?thesis using c(2) mv w1 w2 w3(1) by (simp add: Mount_def mountV41_def)
qed

lemma Mount_cfg: "Mount env ctx c w = Some (err, c', w') \<Longrightarrow> cn_cfg c' = cn_cfg c"
  by (auto simp: Mount_def mountV41_def exchangeID_def createSession_def reclaimComplete_def setClientID_def
      confirmClientID_def fetchRootFH_def Let_def
      split: if_splits prod.splits sum.splits option.splits bind_splits)

subsection \<open>Properties\<close>


text \<open>A server of minor version 0 only, made from the in-memory server.\<close>

definition old_serve :: "mem wire goctx \<Rightarrow> mem wire call" where
  "old_serve ctx c results w =
     (if cp_MinorVersion c \<noteq> 0
      then Some (((Some \<lparr>cr_Status = NFS4ERR_MINOR_VERS_MISMATCH, cr_Tag = cp_Tag c, cr_NumResults = 0\<rparr>, None), results), w)
      else serve mem_server ctx c results w)"


end
