(* ===== verification/Client_FS.thy ===== *)
theory Client_FS
  imports Transport
begin

text \<open>
  The read-only file system of \<open>src/client/fs.go\<close> over the interface \<open>Protocol\<close> (and
  \<open>RWProtocol\<close> of \<open>src/client/file.go\<close>), a record of functions on the state \<open>'p\<close> of the
  implementation behind it; a connection is one such implementation. A buffer that is read into is
  passed with its contents and returned with the bytes copied over its beginning. \<open>None\<close> means
  that a call never returns.
\<close>

subsection \<open>Paths\<close>

text \<open>\<open>utf8.ValidString\<close>, on the bytes of the string.\<close>

abbreviation (input) cont :: "nat \<Rightarrow> bool" where "cont b \<equiv> 0x80 \<le> b \<and> b \<le> 0xBF"

fun utf8_valid :: "nat list \<Rightarrow> bool" where
  "utf8_valid [] = True"
| "utf8_valid (b # bs) =
     (if b < 0x80 then utf8_valid bs
      else if 0xC2 \<le> b \<and> b \<le> 0xDF then (case bs of b1 # bs \<Rightarrow> cont b1 \<and> utf8_valid bs | _ \<Rightarrow> False)
      else if 0xE0 \<le> b \<and> b \<le> 0xEF then
        (case bs of
           b1 # b2 # bs \<Rightarrow>
             (if b = 0xE0 then 0xA0 \<le> b1 \<and> b1 \<le> 0xBF else if b = 0xED then 0x80 \<le> b1 \<and> b1 \<le> 0x9F else cont b1) \<and>
             cont b2 \<and> utf8_valid bs
         | _ \<Rightarrow> False)
      else if 0xF0 \<le> b \<and> b \<le> 0xF4 then
        (case bs of
           b1 # b2 # b3 # bs \<Rightarrow>
             (if b = 0xF0 then 0x90 \<le> b1 \<and> b1 \<le> 0xBF else if b = 0xF4 then 0x80 \<le> b1 \<and> b1 \<le> 0x8F else cont b1) \<and>
             cont b2 \<and> cont b3 \<and> utf8_valid bs
         | _ \<Rightarrow> False)
      else False)"

text \<open>\<open>fs.ValidPath\<close>, \<open>path.Base\<close>, \<open>path.Split\<close> and \<open>strings.TrimSuffix(s, "/")\<close>.\<close>

definition fs_ValidPath :: "string \<Rightarrow> bool" where
  "fs_ValidPath name \<longleftrightarrow>
     utf8_valid (map of_char name) \<and>
     (name = ''.'' \<or> list_all (\<lambda>e. e \<noteq> [] \<and> e \<noteq> ''.'' \<and> e \<noteq> ''..'') (strings_Split name (CHR ''/'')))"

definition path_Base :: "string \<Rightarrow> string" where
  "path_Base p =
     (if p = [] then ''.''
      else let p = rev (dropWhile (\<lambda>c. c = CHR ''/'') (rev p));
               p = rev (takeWhile (\<lambda>c. c \<noteq> CHR ''/'') (rev p))
           in if p = [] then ''/'' else p)"

definition path_Split :: "string \<Rightarrow> string \<times> string" where
  "path_Split p =
     (let file = rev (takeWhile (\<lambda>c. c \<noteq> CHR ''/'') (rev p))
      in (take (length p - length file) p, file))"

definition strings_TrimSuffix :: "string \<Rightarrow> char \<Rightarrow> string" where
  "strings_TrimSuffix s c = (if s \<noteq> [] \<and> last s = c then butlast s else s)"

subsection \<open>The protocol interface\<close>

record ('c, 'p) proto =
  pr_RootFH :: "'p \<Rightarrow> FileHandle"
  pr_Lookup :: "'c \<Rightarrow> FileHandle \<Rightarrow> string \<Rightarrow> 'p \<Rightarrow> ((goerror + FileHandle) \<times> 'p) option"
  pr_GetAttr :: "'c \<Rightarrow> FileHandle \<Rightarrow> Bitmap \<Rightarrow> 'p \<Rightarrow> ((goerror + Bitmap \<times> bytes) \<times> 'p) option"
  pr_Read :: "'c \<Rightarrow> FileHandle \<Rightarrow> u64 \<Rightarrow> u32 \<Rightarrow> 'p \<Rightarrow> ((goerror + bytes \<times> bool) \<times> 'p) option"
  pr_Readdir :: "'c \<Rightarrow> FileHandle \<Rightarrow> u64 \<Rightarrow> bytes \<Rightarrow> Bitmap \<Rightarrow> 'p \<Rightarrow> ((goerror + res) \<times> 'p) option"
  pr_Readlink :: "'c \<Rightarrow> FileHandle \<Rightarrow> 'p \<Rightarrow> ((goerror + string) \<times> 'p) option"
  pr_Open :: "'c \<Rightarrow> FileHandle \<Rightarrow> string \<Rightarrow> u32 \<Rightarrow> Bitmap \<Rightarrow> bytes \<Rightarrow> bool \<Rightarrow> bool \<Rightarrow> 'p \<Rightarrow>
    ((goerror + OpenResult) \<times> 'p) option"
  pr_Write :: "'c \<Rightarrow> FileHandle \<Rightarrow> Stateid \<Rightarrow> u64 \<Rightarrow> bytes \<Rightarrow> StableHow \<Rightarrow> 'p \<Rightarrow>
    ((goerror + u32 \<times> StableHow) \<times> 'p) option"
  pr_Commit :: "'c \<Rightarrow> FileHandle \<Rightarrow> u64 \<Rightarrow> u32 \<Rightarrow> 'p \<Rightarrow> (goerror option \<times> 'p) option"
  pr_CloseFile :: "'c \<Rightarrow> FileHandle \<Rightarrow> Stateid \<Rightarrow> 'p \<Rightarrow> (goerror option \<times> 'p) option"
  pr_SetAttr :: "'c \<Rightarrow> FileHandle \<Rightarrow> Stateid \<Rightarrow> Bitmap \<Rightarrow> bytes \<Rightarrow> 'p \<Rightarrow> (goerror option \<times> 'p) option"

text \<open>\<open>*nfs4.Conn\<close> satisfies it; its state is the connection and the store.\<close>

definition with_conn :: "'s Conn \<Rightarrow> ('a \<times> 's store) option \<Rightarrow> ('a \<times> 's Conn \<times> 's store) option" where
  "with_conn c = map_option (\<lambda>(x, w). (x, c, w))"

definition conn_proto :: "'s env \<Rightarrow> ('s goctx, 's Conn \<times> 's store) proto" where
  "conn_proto env =
     \<lparr>pr_RootFH = (\<lambda>(c, w). RootFH c),
      pr_Lookup = (\<lambda>ctx dir name (c, w). with_conn c (Lookup env ctx c dir name w)),
      pr_GetAttr = (\<lambda>ctx fh bm (c, w). with_conn c (GetAttr env ctx c fh bm w)),
      pr_Read = (\<lambda>ctx fh off count (c, w). with_conn c (Read env ctx c fh off count w)),
      pr_Readdir = (\<lambda>ctx dir cookie verf bm (c, w). with_conn c (Readdir env ctx c dir cookie verf bm w)),
      pr_Readlink = (\<lambda>ctx fh (c, w). with_conn c (Readlink env ctx c fh w)),
      pr_Open = (\<lambda>ctx dir name share bm vals doCreate excl (c, w). Open env ctx c dir name share bm vals doCreate excl w),
      pr_Write = (\<lambda>ctx fh sid off data how (c, w). with_conn c (Write env ctx c fh sid off data how w)),
      pr_Commit = (\<lambda>ctx fh off count (c, w). with_conn c (Commit env ctx c fh off count w)),
      pr_CloseFile = (\<lambda>ctx fh sid (c, w). CloseFile env ctx c fh sid w),
      pr_SetAttr = (\<lambda>ctx fh sid bm vals (c, w). with_conn c (SetAttr env ctx c fh sid bm vals w))\<rparr>"

subsection \<open>The file system\<close>

abbreviation (input) DefaultReadBlockSize :: int where "DefaultReadBlockSize \<equiv> 0x100000"

record ('c, 'p) FS =
  fs_proto :: "('c, 'p) proto"
  fs_ctx :: 'c
  fs_ReadBlockSize :: int

text \<open>\<open>New(proto)\<close>, with \<open>context.Background()\<close> a parameter.\<close>

definition FS_New :: "'c \<Rightarrow> ('c, 'p) proto \<Rightarrow> ('c, 'p) FS" where
  "FS_New background proto = \<lparr>fs_proto = proto, fs_ctx = background, fs_ReadBlockSize = 0\<rparr>"

definition FS_WithContext :: "'c \<Rightarrow> ('c, 'p) FS \<Rightarrow> ('c, 'p) FS" where
  "FS_WithContext ctx fsys = fsys\<lparr>fs_ctx := ctx\<rparr>"

definition readBlock :: "('c, 'p) FS \<Rightarrow> int" where
  "readBlock fsys = (if fs_ReadBlockSize fsys > 0 then fs_ReadBlockSize fsys else DefaultReadBlockSize)"

text \<open>The loop over the components of a path.\<close>

fun lookup_all :: "('c, 'p) proto \<Rightarrow> 'c \<Rightarrow> FileHandle \<Rightarrow> string list \<Rightarrow> 'p \<Rightarrow> ((goerror + FileHandle) \<times> 'p) option" where
  "lookup_all P ctx fh [] s = Some (Inr fh, s)"
| "lookup_all P ctx fh (name # comps) s =
     do {
       (r, s) \<leftarrow> pr_Lookup P ctx fh name s;
       (case r of Inl err \<Rightarrow> Some (Inl err, s) | Inr next \<Rightarrow> lookup_all P ctx next comps s)
     }"

definition FS_stat :: "('c, 'p) FS \<Rightarrow> FileHandle \<Rightarrow> 'p \<Rightarrow> ((goerror + Attributes) \<times> 'p) option" where
  "FS_stat fsys fh s =
     do {
       (r, s) \<leftarrow> pr_GetAttr (fs_proto fsys) (fs_ctx fsys) fh StandardMask s;
       (case r of Inl err \<Rightarrow> Some (Inl err, s) | Inr (bm, vals) \<Rightarrow> Some (Decode bm vals, s))
     }"

definition FS_resolve :: "('c, 'p) FS \<Rightarrow> string \<Rightarrow> 'p \<Rightarrow> ((goerror + FileHandle \<times> Attributes) \<times> 'p) option" where
  "FS_resolve fsys name s =
     do {
       (r, s) \<leftarrow> lookup_all (fs_proto fsys) (fs_ctx fsys) (pr_RootFH (fs_proto fsys) s)
                   (if name \<noteq> ''.'' then strings_Split name (CHR ''/'') else []) s;
       (case r of
          Inl err \<Rightarrow> Some (Inl err, s)
        | Inr fh \<Rightarrow>
            do {
              (r, s) \<leftarrow> FS_stat fsys fh s;
              (case r of Inl err \<Rightarrow> Some (Inl err, s) | Inr attrs \<Rightarrow> Some (Inr (fh, attrs), s))
            })
     }"

definition canonicalSentinel :: "goerror \<Rightarrow> sentinel option" where
  "canonicalSentinel err =
     (if errors_Is err ErrExist then Some ErrExist
      else if errors_Is err ErrNotExist then Some ErrNotExist
      else if errors_Is err ErrPermission then Some ErrPermission
      else if errors_Is err ErrInvalid then Some ErrInvalid
      else None)"

text \<open>\<open>pathError\<close> on an error that is not nil.\<close>

definition pathError :: "string \<Rightarrow> string \<Rightarrow> goerror \<Rightarrow> goerror" where
  "pathError op name err =
     (case canonicalSentinel err of
        Some sentinel \<Rightarrow> PathError op name (Sentinel sentinel)
      | None \<Rightarrow> PathError op name err)"

definition invalid_path :: "string \<Rightarrow> string \<Rightarrow> goerror" where
  "invalid_path op name = PathError op name (Sentinel ErrInvalid)"

definition base_name :: "string \<Rightarrow> string" where
  "base_name name = (if name = ''.'' then ''.'' else path_Base name)"

subsection \<open>Reading directories\<close>

text \<open>The loop over the entries of a page: the cookie of the last one and the entries collected.\<close>

fun readDir_page :: "DirEntry list \<Rightarrow> u64 \<Rightarrow> fileInfo list \<Rightarrow> goerror + u64 \<times> fileInfo list" where
  "readDir_page [] cookie out = Inr (cookie, out)"
| "readDir_page (e # es) cookie out =
     (if de_Name e = ''.'' \<or> de_Name e = ''..'' then readDir_page es (de_Cookie e) out
      else case Decode (de_AttrMask e) (de_AttrVals e) of
             Inl derr \<Rightarrow> Inl derr
           | Inr attrs \<Rightarrow> readDir_page es (de_Cookie e) (out @ [Attributes_FileInfo attrs (de_Name e)]))"

partial_function (option) readDirAll_loop ::
  "('c, 'p) FS \<Rightarrow> FileHandle \<Rightarrow> u64 \<Rightarrow> bytes \<Rightarrow> fileInfo list \<Rightarrow> 'p \<Rightarrow> ((goerror + fileInfo list) \<times> 'p) option" where
  "readDirAll_loop fsys fh cookie cookieverf out s =
     do {
       (r, s) \<leftarrow> pr_Readdir (fs_proto fsys) (fs_ctx fsys) fh cookie cookieverf StandardMask s;
       (case r of
          Inl err \<Rightarrow> Some (Inl err, s)
        | Inr res \<Rightarrow>
            (case readDir_page (res_Entries res) cookie out of
               Inl derr \<Rightarrow> Some (Inl derr, s)
             | Inr page \<Rightarrow>
                 if res_EOF res then Some (Inr (snd page), s)
                 else if res_Entries res = [] then Some (Inr (snd page), s)
                 else readDirAll_loop fsys fh (fst page) (res_Cookieverf res) (snd page) s))
     }"

definition readDirAll :: "('c, 'p) FS \<Rightarrow> FileHandle \<Rightarrow> 'p \<Rightarrow> ((goerror + fileInfo list) \<times> 'p) option" where
  "readDirAll fsys fh s = readDirAll_loop fsys fh 0 (zeros 8) [] s"

definition FS_ReadDir :: "('c, 'p) FS \<Rightarrow> string \<Rightarrow> 'p \<Rightarrow> ((goerror + fileInfo list) \<times> 'p) option" where
  "FS_ReadDir fsys name s =
     (if \<not> fs_ValidPath name then Some (Inl (invalid_path ''readdir'' name), s)
      else do {
        (r, s) \<leftarrow> FS_resolve fsys name s;
        (case r of
           Inl err \<Rightarrow> Some (Inl (pathError ''readdir'' name err), s)
         | Inr (fh, attrs) \<Rightarrow>
             if \<not> FileMode_IsDir (Attributes_FileMode attrs)
             then Some (Inl (PathError ''readdir'' name (ErrorF ''not a directory'' [])), s)
             else do {
               (r, s) \<leftarrow> readDirAll fsys fh s;
               (case r of
                  Inl err \<Rightarrow> Some (Inl (pathError ''readdir'' name err), s)
                | Inr entries \<Rightarrow> Some (Inr entries, s))
             })
      })"

subsection \<open>Open, Stat, Lstat, ReadLink\<close>

record ('c, 'p) rfile =
  ff_fsys :: "('c, 'p) FS"
  ff_fh :: FileHandle
  ff_name :: string
  ff_attrs :: Attributes
  ff_offset :: u64
  ff_eof :: bool

record ('c, 'p) dirFile =
  df_fsys :: "('c, 'p) FS"
  df_fh :: FileHandle
  df_name :: string
  df_attrs :: Attributes
  df_entries :: "fileInfo list"
  df_read :: bool
  df_pos :: nat

datatype ('c, 'p) fs_file = RegularFile "('c, 'p) rfile" | Directory "('c, 'p) dirFile"

definition FS_Open :: "('c, 'p) FS \<Rightarrow> string \<Rightarrow> 'p \<Rightarrow> ((goerror + ('c, 'p) fs_file) \<times> 'p) option" where
  "FS_Open fsys name s =
     (if \<not> fs_ValidPath name then Some (Inl (invalid_path ''open'' name), s)
      else do {
        (r, s) \<leftarrow> FS_resolve fsys name s;
        (case r of
           Inl err \<Rightarrow> Some (Inl (pathError ''open'' name err), s)
         | Inr (fh, attrs) \<Rightarrow>
             if FileMode_IsDir (Attributes_FileMode attrs)
             then Some (Inr (Directory \<lparr>df_fsys = fsys, df_fh = fh, df_name = base_name name, df_attrs = attrs,
                          df_entries = [], df_read = False, df_pos = 0\<rparr>), s)
             else Some (Inr (RegularFile \<lparr>ff_fsys = fsys, ff_fh = fh, ff_name = base_name name, ff_attrs = attrs,
                          ff_offset = 0, ff_eof = False\<rparr>), s))
      })"

text \<open>\<open>Stat\<close> and \<open>Lstat\<close> differ only in the operation their errors name.\<close>

definition FS_stat_op :: "string \<Rightarrow> ('c, 'p) FS \<Rightarrow> string \<Rightarrow> 'p \<Rightarrow> ((goerror + fileInfo) \<times> 'p) option" where
  "FS_stat_op op fsys name s =
     (if \<not> fs_ValidPath name then Some (Inl (invalid_path op name), s)
      else do {
        (r, s) \<leftarrow> FS_resolve fsys name s;
        (case r of
           Inl err \<Rightarrow> Some (Inl (pathError op name err), s)
         | Inr (fh, attrs) \<Rightarrow> Some (Inr (Attributes_FileInfo attrs (base_name name)), s))
      })"

definition FS_Stat :: "('c, 'p) FS \<Rightarrow> string \<Rightarrow> 'p \<Rightarrow> ((goerror + fileInfo) \<times> 'p) option" where
  "FS_Stat = FS_stat_op ''stat''"

definition FS_Lstat :: "('c, 'p) FS \<Rightarrow> string \<Rightarrow> 'p \<Rightarrow> ((goerror + fileInfo) \<times> 'p) option" where
  "FS_Lstat = FS_stat_op ''lstat''"

definition FS_ReadLink :: "('c, 'p) FS \<Rightarrow> string \<Rightarrow> 'p \<Rightarrow> ((goerror + string) \<times> 'p) option" where
  "FS_ReadLink fsys name s =
     (if \<not> fs_ValidPath name then Some (Inl (invalid_path ''readlink'' name), s)
      else do {
        (r, s) \<leftarrow> FS_resolve fsys name s;
        (case r of
           Inl err \<Rightarrow> Some (Inl (pathError ''readlink'' name err), s)
         | Inr (fh, attrs) \<Rightarrow>
             do {
               (r, s) \<leftarrow> pr_Readlink (fs_proto fsys) (fs_ctx fsys) fh s;
               (case r of
                  Inl err \<Rightarrow> Some (Inl (pathError ''readlink'' name err), s)
                | Inr target \<Rightarrow> Some (Inr target, s))
             })
      })"

subsection \<open>Open files and directories\<close>

text \<open>\<open>copy(p, data)\<close>: the number of bytes and the buffer afterwards.\<close>

definition go_copy :: "bytes \<Rightarrow> bytes \<Rightarrow> nat \<times> bytes" where
  "go_copy p data = (let n = min (length p) (length data) in (n, take n data @ drop n p))"

definition file_Stat :: "('c, 'p) rfile \<Rightarrow> fileInfo" where
  "file_Stat f = Attributes_FileInfo (ff_attrs f) (ff_name f)"

definition file_Read :: "bytes \<Rightarrow> ('c, 'p) rfile \<Rightarrow> 'p \<Rightarrow> ((nat \<times> goerror option) \<times> bytes \<times> ('c, 'p) rfile \<times> 'p) option" where
  "file_Read p f s =
     (if ff_eof f then Some ((0, Some (Sentinel EOF)), p, f, s)
      else
        (let want = int (length p);
             want = (if want > readBlock (ff_fsys f) then readBlock (ff_fsys f) else want)
         in do {
           (r, s) \<leftarrow> pr_Read (fs_proto (ff_fsys f)) (fs_ctx (ff_fsys f)) (ff_fh f) (ff_offset f) (word_of_int want) s;
           (case r of
              Inl err \<Rightarrow> Some ((0, Some (PathError ''read'' (ff_name f) err)), p, f, s)
            | Inr (data, serverEOF) \<Rightarrow>
                (case go_copy p data of
                   (n, p) \<Rightarrow>
                     (let f = f\<lparr>ff_offset := ff_offset f + word_of_nat n\<rparr>;
                          f = (if serverEOF \<and> n \<ge> length data then f\<lparr>ff_eof := True\<rparr> else f)
                      in if n = 0 \<and> serverEOF then Some ((0, Some (Sentinel EOF)), p, f, s)
                         else Some ((n, None), p, f, s))))
         }))"

definition file_Close :: "('c, 'p) rfile \<Rightarrow> goerror option" where
  "file_Close f = None"

definition dirFile_Stat :: "('c, 'p) dirFile \<Rightarrow> fileInfo" where
  "dirFile_Stat d = Attributes_FileInfo (df_attrs d) (df_name d)"

definition dirFile_Read :: "('c, 'p) dirFile \<Rightarrow> nat \<times> goerror" where
  "dirFile_Read d = (0, PathError ''read'' (df_name d) (ErrorF ''is a directory'' []))"

definition dirFile_Close :: "('c, 'p) dirFile \<Rightarrow> goerror option" where
  "dirFile_Close d = None"

text \<open>
  \<open>d.entries[d.pos:end]\<close> panics when \<open>end < d.pos\<close>, which a huge \<open>n\<close> brings about through
  the wrap-around of \<open>d.pos + n\<close>.
\<close>

definition slice_panic :: goerror where
  "slice_panic = ErrorF ''slice bounds out of range'' []"

definition dirFile_take :: "int \<Rightarrow> ('c, 'p) dirFile \<Rightarrow> (goerror + fileInfo list) \<times> ('c, 'p) dirFile" where
  "dirFile_take n d =
     (if n \<le> 0 then (Inr (drop (df_pos d) (df_entries d)), d\<lparr>df_pos := length (df_entries d)\<rparr>)
      else if df_pos d \<ge> length (df_entries d) then (Inl (Sentinel EOF), d)
      else
        (let e = wrap64 (int (df_pos d) + n);
             e = (if e > int (length (df_entries d)) then int (length (df_entries d)) else e)
         in if e < int (df_pos d) then (Inl slice_panic, d)
            else (Inr (take (nat e - df_pos d) (drop (df_pos d) (df_entries d))), d\<lparr>df_pos := nat e\<rparr>)))"

definition dirFile_ReadDir :: "int \<Rightarrow> ('c, 'p) dirFile \<Rightarrow> 'p \<Rightarrow>
    ((goerror + fileInfo list) \<times> ('c, 'p) dirFile \<times> 'p) option" where
  "dirFile_ReadDir n d s =
     (if df_read d then (case dirFile_take n d of (r, d) \<Rightarrow> Some (r, d, s))
      else do {
        (r, s) \<leftarrow> readDirAll (df_fsys d) (df_fh d) s;
        (case r of
           Inl err \<Rightarrow> Some (Inl err, d, s)
         | Inr entries \<Rightarrow>
             (case dirFile_take n (d\<lparr>df_entries := entries, df_read := True\<rparr>) of (r, d) \<Rightarrow> Some (r, d, s)))
      })"

end
