(* ===== verification/Client_File.thy ===== *)
theory Client_File
  imports Client_FS
begin

text \<open>
  The read-write file system and its open files, \<open>src/client/file.go\<close>. An open \<open>File\<close> is a
  record whose offset and closed flag its methods update; byte offsets of the API are \<open>int64\<close>
  values, integers wrapped to 64 bits where the source adds to them. The flags are those of
  package \<open>os\<close> on Linux.
\<close>

subsection \<open>Opening\<close>

abbreviation (input) O_WRONLY :: int where "O_WRONLY \<equiv> 0x1"
abbreviation (input) O_RDWR :: int where "O_RDWR \<equiv> 0x2"
abbreviation (input) O_CREATE :: int where "O_CREATE \<equiv> 0x40"
abbreviation (input) O_EXCL :: int where "O_EXCL \<equiv> 0x80"
abbreviation (input) O_TRUNC :: int where "O_TRUNC \<equiv> 0x200"
abbreviation (input) O_APPEND :: int where "O_APPEND \<equiv> 0x400"

record ('c, 'p) RWFS =
  rw_FS :: "('c, 'p) FS"
  rw_proto :: "('c, 'p) proto"

definition NewRW :: "'c \<Rightarrow> ('c, 'p) proto \<Rightarrow> ('c, 'p) RWFS" where
  "NewRW background proto = \<lparr>rw_FS = FS_New background proto, rw_proto = proto\<rparr>"

definition RWFS_WithContext :: "'c \<Rightarrow> ('c, 'p) RWFS \<Rightarrow> ('c, 'p) RWFS" where
  "RWFS_WithContext ctx fsys = \<lparr>rw_FS = FS_WithContext ctx (rw_FS fsys), rw_proto = rw_proto fsys\<rparr>"

definition resolveParent :: "('c, 'p) RWFS \<Rightarrow> 'c \<Rightarrow> string \<Rightarrow> 'p \<Rightarrow> ((goerror + FileHandle \<times> string) \<times> 'p) option" where
  "resolveParent fsys ctx name s =
     (case path_Split name of
        (dir, base) \<Rightarrow>
          (let dir = strings_TrimSuffix dir (CHR ''/'');
               dir = (if dir = [] then ''.'' else dir)
           in do {
             (r, s) \<leftarrow> lookup_all (rw_proto fsys) ctx (pr_RootFH (rw_proto fsys) s)
                         (if dir \<noteq> ''.'' then strings_Split dir (CHR ''/'') else []) s;
             (case r of
                Inl lerr \<Rightarrow> Some (Inl lerr, s)
              | Inr parent \<Rightarrow> Some (Inr (parent, base), s))
           }))"

definition shareFor :: "int \<Rightarrow> u32" where
  "shareFor flag =
     (if flag AND O_WRONLY \<noteq> 0 then OpenShareAccessWrite
      else if flag AND O_RDWR \<noteq> 0 then OpenShareAccessBoth
      else OpenShareAccessRead)"

record ('c, 'p) File =
  f_fsys :: "('c, 'p) RWFS"
  f_ctx :: 'c
  f_name :: string
  f_fh :: FileHandle
  f_stateid :: Stateid
  f_flag :: int
  f_share :: u32
  f_offset :: int
  f_closed :: bool

abbreviation (input) f_proto :: "('c, 'p) File \<Rightarrow> ('c, 'p) proto" where
  "f_proto f \<equiv> rw_proto (f_fsys f)"

definition errClosed :: "('c, 'p) File \<Rightarrow> string \<Rightarrow> goerror" where
  "errClosed f op = PathError op (f_name f) (Sentinel ErrClosed)"

definition File_Name :: "('c, 'p) File \<Rightarrow> string" where
  "File_Name f = f_name f"

definition size_attrs :: "u64 \<Rightarrow> SettableAttrs" where
  "size_attrs sz = \<lparr>sa_Mode = None, sa_Size = Some sz, sa_TimeAccess = None, sa_TimeModify = None\<rparr>"

definition mode_attrs :: "u32 \<Rightarrow> SettableAttrs" where
  "mode_attrs m = \<lparr>sa_Mode = Some m, sa_Size = None, sa_TimeAccess = None, sa_TimeModify = None\<rparr>"

definition File_Truncate :: "int \<Rightarrow> ('c, 'p) File \<Rightarrow> 'p \<Rightarrow> (goerror option \<times> 'p) option" where
  "File_Truncate sz f s =
     (if f_closed f then Some (Some (errClosed f ''truncate''), s)
      else if sz < 0 then Some (Some (PathError ''truncate'' (f_name f) (Sentinel ErrInvalid)), s)
      else (case EncodeFattr (size_attrs (word_of_int sz)) of
              (bm, vals) \<Rightarrow>
                do {
                  (err, s) \<leftarrow> pr_SetAttr (f_proto f) (f_ctx f) (f_fh f) (f_stateid f) bm vals s;
                  (case err of
                     Some err \<Rightarrow> Some (Some (pathError ''truncate'' (f_name f) err), s)
                   | None \<Rightarrow> Some (None, s))
                }))"

definition File_Close :: "('c, 'p) File \<Rightarrow> 'p \<Rightarrow> (goerror option \<times> ('c, 'p) File \<times> 'p) option" where
  "File_Close f s =
     (if f_closed f then Some (Some (errClosed f ''close''), f, s)
      else
        (let f = f\<lparr>f_closed := True\<rparr>
         in do {
           (err, s) \<leftarrow> pr_CloseFile (f_proto f) (f_ctx f) (f_fh f) (f_stateid f) s;
           (case err of
              Some err \<Rightarrow> Some (Some (pathError ''close'' (f_name f) err), f, s)
            | None \<Rightarrow> Some (None, f, s))
         }))"

definition OpenFile :: "('c, 'p) RWFS \<Rightarrow> 'c \<Rightarrow> string \<Rightarrow> int \<Rightarrow> u32 \<Rightarrow> 'p \<Rightarrow> ((goerror + ('c, 'p) File) \<times> 'p) option" where
  "OpenFile fsys ctx name flag perm s =
     (if \<not> fs_ValidPath name then Some (Inl (invalid_path ''open'' name), s)
      else do {
        (r, s) \<leftarrow> resolveParent fsys ctx name s;
        (case r of
           Inl err \<Rightarrow> Some (Inl (pathError ''open'' name err), s)
         | Inr (parent, base) \<Rightarrow>
             (let share = shareFor flag;
                  doCreate = (flag AND O_CREATE \<noteq> 0);
                  excl = (flag AND O_EXCL \<noteq> 0);
                  attrs = (if doCreate then EncodeFattr (mode_attrs (FileMode_Perm perm)) else ([], []))
              in do {
                (r, s) \<leftarrow> pr_Open (rw_proto fsys) ctx parent base share (fst attrs) (snd attrs) doCreate excl s;
                (case r of
                   Inl err \<Rightarrow> Some (Inl (pathError ''open'' name err), s)
                 | Inr res \<Rightarrow>
                     (let f = \<lparr>f_fsys = fsys, f_ctx = ctx, f_name = name, f_fh = or_FH res, f_stateid = or_Stateid res,
                               f_flag = flag, f_share = share, f_offset = 0, f_closed = False\<rparr>
                      in if flag AND O_TRUNC \<noteq> 0 \<and> share \<noteq> OpenShareAccessRead
                         then do {
                           (err, s) \<leftarrow> File_Truncate 0 f s;
                           (case err of
                              None \<Rightarrow> Some (Inr f, s)
                            | Some err \<Rightarrow>
                                do {
                                  (_, _, s) \<leftarrow> File_Close f s;
                                  Some (Inl (pathError ''open'' name err), s)
                                })
                         }
                         else Some (Inr f, s)))
              }))
      })"

subsection \<open>Attributes\<close>

definition File_attrs :: "('c, 'p) File \<Rightarrow> 'p \<Rightarrow> ((goerror + Attributes) \<times> 'p) option" where
  "File_attrs f s =
     do {
       (r, s) \<leftarrow> pr_GetAttr (f_proto f) (f_ctx f) (f_fh f) StandardMask s;
       (case r of Inl err \<Rightarrow> Some (Inl err, s) | Inr (bm, vals) \<Rightarrow> Some (Decode bm vals, s))
     }"

definition File_Stat :: "('c, 'p) File \<Rightarrow> 'p \<Rightarrow> ((goerror + fileInfo) \<times> 'p) option" where
  "File_Stat f s =
     (if f_closed f then Some (Inl (errClosed f ''stat''), s)
      else do {
        (r, s) \<leftarrow> File_attrs f s;
        (case r of
           Inl err \<Rightarrow> Some (Inl (pathError ''stat'' (f_name f) err), s)
         | Inr attrs \<Rightarrow> Some (Inr (Attributes_FileInfo attrs (path_Base (f_name f))), s))
      })"

text \<open>\<open>int64(attrs.Size)\<close>.\<close>

definition File_size :: "('c, 'p) File \<Rightarrow> 'p \<Rightarrow> ((goerror + int) \<times> 'p) option" where
  "File_size f s =
     do {
       (r, s) \<leftarrow> File_attrs f s;
       (case r of Inl err \<Rightarrow> Some (Inl err, s) | Inr attrs \<Rightarrow> Some (Inr (sint (at_Size attrs)), s))
     }"

subsection \<open>Reading\<close>

text \<open>
  The loop of \<open>ReadAt\<close>. Each round that goes on has copied at least one byte, so the loop ends
  whatever the server answers.
\<close>

function ReadAt_loop :: "('c, 'p) File \<Rightarrow> int \<Rightarrow> nat \<Rightarrow> bytes \<Rightarrow> 'p \<Rightarrow> ((nat \<times> goerror option) \<times> bytes \<times> 'p) option" where
  "ReadAt_loop f off tot p s =
     (if tot \<ge> length p then Some ((tot, None), p, s)
      else case pr_Read (f_proto f) (f_ctx f) (f_fh f) (word_of_int off + word_of_nat tot)
                  (word_of_nat (length p - tot)) s of
             None \<Rightarrow> None
           | Some (Inl err, s) \<Rightarrow> Some ((tot, Some (pathError ''read'' (f_name f) err)), p, s)
           | Some (Inr (data, eof), s) \<Rightarrow>
               (case go_copy (drop tot p) data of
                  (n, rest) \<Rightarrow>
                    if eof \<or> data = [] then Some ((tot + n, Some (Sentinel EOF)), take tot p @ rest, s)
                    else ReadAt_loop f off (tot + n) (take tot p @ rest) s))"
  by pat_completeness auto
termination
  by (relation "measure (\<lambda>(f, off, tot, p, s). length p - tot)") (auto simp: go_copy_def Let_def intro!: diff_less_mono2)

declare ReadAt_loop.simps [simp del]

definition File_ReadAt :: "bytes \<Rightarrow> int \<Rightarrow> ('c, 'p) File \<Rightarrow> 'p \<Rightarrow> ((nat \<times> goerror option) \<times> bytes \<times> 'p) option" where
  "File_ReadAt p off f s =
     (if f_closed f then Some ((0, Some (errClosed f ''read'')), p, s)
      else if off < 0 then Some ((0, Some (PathError ''read'' (f_name f) (Sentinel ErrInvalid))), p, s)
      else ReadAt_loop f off 0 p s)"

definition File_Read :: "bytes \<Rightarrow> ('c, 'p) File \<Rightarrow> 'p \<Rightarrow>
    ((nat \<times> goerror option) \<times> bytes \<times> ('c, 'p) File \<times> 'p) option" where
  "File_Read p f s =
     (if f_closed f then Some ((0, Some (errClosed f ''read'')), p, f, s)
      else if p = [] then Some ((0, None), p, f, s)
      else do {
        (r, s) \<leftarrow> pr_Read (f_proto f) (f_ctx f) (f_fh f) (word_of_int (f_offset f)) (word_of_nat (length p)) s;
        (case r of
           Inl err \<Rightarrow> Some ((0, Some (pathError ''read'' (f_name f) err)), p, f, s)
         | Inr (data, eof) \<Rightarrow>
             (case go_copy p data of
                (n, p) \<Rightarrow>
                  (let f = f\<lparr>f_offset := wrap64 (f_offset f + int n)\<rparr>
                   in if n = 0 then Some ((0, Some (Sentinel EOF)), p, f, s)
                      else Some ((n, None), p, f, s))))
      })"

subsection \<open>Writing\<close>

function writeAt :: "('c, 'p) File \<Rightarrow> bytes \<Rightarrow> int \<Rightarrow> nat \<Rightarrow> 'p \<Rightarrow> ((nat \<times> goerror option) \<times> 'p) option" where
  "writeAt f p off tot s =
     (if tot \<ge> length p then Some ((tot, None), s)
      else case pr_Write (f_proto f) (f_ctx f) (f_fh f) (f_stateid f) (word_of_int off + word_of_nat tot)
                  (drop tot p) FileSync4 s of
             None \<Rightarrow> None
           | Some (Inl err, s) \<Rightarrow> Some ((tot, Some (pathError ''write'' (f_name f) err)), s)
           | Some (Inr (n, _), s) \<Rightarrow>
               if n = 0 then Some ((tot, Some (Sentinel ErrShortWrite)), s)
               else writeAt f p off (tot + unat n) s)"
  by pat_completeness auto
termination
  by (relation "measure (\<lambda>(f, p, off, tot, s). length p - tot)") (auto simp: unat_gt_0 word_neq_0_conv intro!: diff_less_mono2)

declare writeAt.simps [simp del]

definition File_WriteAt :: "bytes \<Rightarrow> int \<Rightarrow> ('c, 'p) File \<Rightarrow> 'p \<Rightarrow> ((nat \<times> goerror option) \<times> 'p) option" where
  "File_WriteAt p off f s =
     (if f_closed f then Some ((0, Some (errClosed f ''write'')), s)
      else if off < 0 then Some ((0, Some (PathError ''write'' (f_name f) (Sentinel ErrInvalid))), s)
      else writeAt f p off 0 s)"

definition File_Write :: "bytes \<Rightarrow> ('c, 'p) File \<Rightarrow> 'p \<Rightarrow> ((nat \<times> goerror option) \<times> ('c, 'p) File \<times> 'p) option" where
  "File_Write p f s =
     (if f_closed f then Some ((0, Some (errClosed f ''write'')), f, s)
      else do {
        (r, s) \<leftarrow> (if f_flag f AND O_APPEND \<noteq> 0 then File_size f s else Some (Inr (f_offset f), s));
        (case r of
           Inl err \<Rightarrow> Some ((0, Some (pathError ''write'' (f_name f) err)), f, s)
         | Inr off \<Rightarrow>
             do {
               ((n, err), s) \<leftarrow> writeAt f p off 0 s;
               Some ((n, err), f\<lparr>f_offset := wrap64 (off + int n)\<rparr>, s)
             })
      })"

subsection \<open>Seek and Sync\<close>

abbreviation (input) SeekStart :: int where "SeekStart \<equiv> 0"
abbreviation (input) SeekCurrent :: int where "SeekCurrent \<equiv> 1"
abbreviation (input) SeekEnd :: int where "SeekEnd \<equiv> 2"

definition File_Seek :: "int \<Rightarrow> int \<Rightarrow> ('c, 'p) File \<Rightarrow> 'p \<Rightarrow>
    ((int \<times> goerror option) \<times> ('c, 'p) File \<times> 'p) option" where
  "File_Seek offset whence f s =
     (let invalid = PathError ''seek'' (f_name f) (Sentinel ErrInvalid)
      in if f_closed f then Some ((0, Some (errClosed f ''seek'')), f, s)
         else if whence \<noteq> SeekStart \<and> whence \<noteq> SeekCurrent \<and> whence \<noteq> SeekEnd
         then Some ((0, Some invalid), f, s)
         else do {
           (r, s) \<leftarrow> (if whence = SeekStart then Some (Inr 0, s)
                      else if whence = SeekCurrent then Some (Inr (f_offset f), s)
                      else File_size f s);
           (case r of
              Inl err \<Rightarrow> Some ((0, Some (pathError ''seek'' (f_name f) err)), f, s)
            | Inr base \<Rightarrow>
                (let pos = wrap64 (base + offset)
                 in if pos < 0 then Some ((0, Some invalid), f, s)
                    else Some ((pos, None), f\<lparr>f_offset := pos\<rparr>, s)))
         })"

definition File_Sync :: "('c, 'p) File \<Rightarrow> 'p \<Rightarrow> (goerror option \<times> 'p) option" where
  "File_Sync f s =
     (if f_closed f then Some (Some (errClosed f ''sync''), s)
      else do {
        (err, s) \<leftarrow> pr_Commit (f_proto f) (f_ctx f) (f_fh f) 0 0 s;
        (case err of
           Some err \<Rightarrow> Some (Some (pathError ''sync'' (f_name f) err), s)
         | None \<Rightarrow> Some (None, s))
      })"

subsection \<open>Statistics\<close>

record StatvfsInfo =
  si_BlockSize :: u32
  si_Blocks :: u64
  si_BlocksFree :: u64
  si_BlocksAvail :: u64
  si_Files :: u64
  si_FilesFree :: u64
  si_FilesAvail :: u64
  si_MaxName :: u32

abbreviation (input) statvfsBlockSize :: u64 where "statvfsBlockSize \<equiv> 4096"

definition RWFS_Statvfs :: "('c, 'p) RWFS \<Rightarrow> 'c \<Rightarrow> string \<Rightarrow> 'p \<Rightarrow> ((goerror + StatvfsInfo) \<times> 'p) option" where
  "RWFS_Statvfs fsys ctx name s =
     (if \<not> fs_ValidPath name then Some (Inl (invalid_path ''statvfs'' name), s)
      else do {
        (r, s) \<leftarrow> lookup_all (rw_proto fsys) ctx (pr_RootFH (rw_proto fsys) s)
                    (if name \<noteq> ''.'' then strings_Split name (CHR ''/'') else []) s;
        (case r of
           Inl err \<Rightarrow> Some (Inl (pathError ''statvfs'' name err), s)
         | Inr fh \<Rightarrow>
             do {
               (r, s) \<leftarrow> pr_GetAttr (rw_proto fsys) ctx fh StatvfsMask s;
               (case r of
                  Inl err \<Rightarrow> Some (Inl (pathError ''statvfs'' name err), s)
                | Inr (bm, vals) \<Rightarrow>
                    (case DecodeStatvfs bm vals of
                       Inl err \<Rightarrow> Some (Inl (pathError ''statvfs'' name err), s)
                     | Inr sv \<Rightarrow>
                         Some (Inr \<lparr>si_BlockSize = 4096, si_Blocks = sv_SpaceTotal sv div statvfsBlockSize,
                                     si_BlocksFree = sv_SpaceFree sv div statvfsBlockSize,
                                     si_BlocksAvail = sv_SpaceAvail sv div statvfsBlockSize,
                                     si_Files = sv_FilesTotal sv, si_FilesFree = sv_FilesFree sv,
                                     si_FilesAvail = sv_FilesAvail sv, si_MaxName = sv_MaxName sv\<rparr>, s)))
             })
      })"

definition errIsExist :: "goerror \<Rightarrow> bool" where
  "errIsExist err = errors_Is err ErrExist"

end
