(* ===== verification/File_Laws.thy ===== *)
theory File_Laws
  imports Client_File
begin

text \<open>
  What reading and writing an open file does to its bytes. The contract \<open>file_store\<close> is what an
  NFS server promises of READ, WRITE, GETATTR and SETATTR on a regular file (RFC 7530, sections
  16.23, 16.36, 16.7, 16.32): a READ may return fewer bytes than asked for but not none before the end
  of the file, and says so when it reached the end; a WRITE may take fewer bytes than given but not
  none. From it follow the contracts of \<open>io.ReaderAt\<close>, \<open>io.WriterAt\<close>, \<open>io.Reader\<close> and
  \<open>io.Writer\<close> for \<open>File\<close>.
\<close>

subsection \<open>Bytes at an offset\<close>

definition chunk :: "nat \<Rightarrow> nat \<Rightarrow> bytes \<Rightarrow> bytes" where
  "chunk off n bs = take n (drop off bs)"

lemma length_chunk [simp]: "length (chunk off n bs) = min n (length bs - off)"
  by (simp add: chunk_def min.commute)

lemma chunk_0 [simp]: "chunk off 0 bs = []"
  by (simp add: chunk_def)

lemma chunk_add: "chunk off (m + n) bs = chunk off m bs @ chunk (off + m) n bs"
  by (simp add: chunk_def take_add add.commute)

lemma chunk_beyond: "length bs \<le> off \<Longrightarrow> chunk off n bs = []"
  by (simp add: chunk_def)

lemma chunk_short: "length bs \<le> off + m \<Longrightarrow> m \<le> n \<Longrightarrow> chunk off n bs = chunk off m bs"
  by (simp add: chunk_def)

lemma splice_Nil [simp]: "splice off [] bs = bs"
  by (simp add: splice_def)

lemma length_splice: "length (splice off data bs) = (if data = [] then length bs else max (length bs) (off + length data))"
  by (auto simp: splice_def zeros_def)

lemma nth_splice:
  "i < length (splice off data bs) \<Longrightarrow>
   splice off data bs ! i =
     (if off \<le> i \<and> i < off + length data then data ! (i - off)
      else if i < length bs then bs ! i else 0)"
  by (auto simp: splice_def zeros_def nth_append min_def split: if_splits)

lemma splice_add:
  "splice (off + length xs) ys (splice off xs bs) = splice off (xs @ ys) bs"
proof (cases "xs = [] \<or> ys = []")
  case True
  then show ?thesis by auto
next
  case False
  show ?thesis
  proof (rule nth_equalityI)
    show "length (splice (off + length xs) ys (splice off xs bs)) = length (splice off (xs @ ys) bs)"
      using False by (auto simp: length_splice)
    fix i assume i: "i < length (splice (off + length xs) ys (splice off xs bs))"
    then show "splice (off + length xs) ys (splice off xs bs) ! i = splice off (xs @ ys) bs ! i"
      using False by (auto simp: nth_splice length_splice nth_append)
  qed
qed

lemma chunk_splice: "chunk off (length data) (splice off data bs) = data"
proof (rule nth_equalityI)
  show "length (chunk off (length data) (splice off data bs)) = length data"
    by (auto simp: length_splice)
  fix i assume "i < length (chunk off (length data) (splice off data bs))"
  then show "chunk off (length data) (splice off data bs) ! i = data ! i"
    by (auto simp: chunk_def nth_splice length_splice)
qed

lemma go_copy_fits: "length data \<le> length p \<Longrightarrow> go_copy p data = (length data, data @ drop (length data) p)"
  by (simp add: go_copy_def Let_def)

lemma ReadAt_loop_step:
  assumes "tot < length p"
    and "pr_Read (f_proto f) (f_ctx f) (f_fh f) (word_of_int off + word_of_nat tot) (word_of_nat (length p - tot)) s =
           Some (Inr (data, eof), s1)"
    and "length data \<le> length p - tot"
  shows "ReadAt_loop f off tot p s =
    (let p' = take tot p @ data @ drop (tot + length data) p
     in if eof \<or> data = [] then Some ((tot + length data, Some (Sentinel EOF)), p', s1)
        else ReadAt_loop f off (tot + length data) p' s1)"
  using assms by (subst ReadAt_loop.simps) (simp add: go_copy_fits Let_def add.commute)

text \<open>A WRITE of which the server takes all bytes is the only one.\<close>

lemma File_WriteAt_whole:
  assumes "pr_Write (f_proto f) (f_ctx f) (f_fh f) (f_stateid f) (word_of_int off) p FileSync4 s = Some (Inr (n, how), s1)"
    and "unat n = length p" and "p \<noteq> []" and "\<not> f_closed f" and "0 \<le> off"
  shows "File_WriteAt p off f s = Some ((length p, None), s1)"
proof -
  have "n \<noteq> 0" using assms(2,3) by auto
  then have "writeAt f p off 0 s = writeAt f p off (length p) s1"
    using assms(1-3) by (subst writeAt.simps) simp
  also have "\<dots> = Some ((length p, None), s1)" by (simp add: writeAt.simps)
  finally show ?thesis using assms(4,5) by (simp add: File_WriteAt_def)
qed

subsection \<open>The contract\<close>

locale file_store =
  fixes P :: "('c, 'p) proto" and ctx :: 'c and I :: "'p \<Rightarrow> bool" and content :: "'p \<Rightarrow> bytes \<Rightarrow> bytes option"
  assumes rd: "I s \<Longrightarrow> content s (nilb fh) = Some bs \<Longrightarrow>
      \<exists>k eof s'. pr_Read P ctx fh off n s = Some (Inr (chunk (unat off) k bs, eof), s') \<and> I s' \<and> content s' = content s \<and>
        k \<le> unat n \<and> (0 < unat n \<longrightarrow> 0 < k) \<and> (eof \<longrightarrow> length bs \<le> unat off + k)"
    and wr: "I s \<Longrightarrow> content s (nilb fh) = Some bs \<Longrightarrow> data \<noteq> [] \<Longrightarrow>
      \<exists>n how' s'. pr_Write P ctx fh sid off data how s = Some (Inr (n, how'), s') \<and> I s' \<and>
        0 < unat n \<and> unat n \<le> length data \<and>
        content s' = (content s)(nilb fh \<mapsto> splice (unat off) (take (unat n) data) bs)"
    and att: "I s \<Longrightarrow> content s (nilb fh) = Some bs \<Longrightarrow>
      \<exists>bm vals a s'. pr_GetAttr P ctx fh StandardMask s = Some (Inr (bm, vals), s') \<and> I s' \<and> content s' = content s \<and>
        Decode bm vals = Inr a \<and> at_Size a = word_of_nat (length bs)"
    and setsz: "I s \<Longrightarrow> content s (nilb fh) = Some bs \<Longrightarrow> EncodeFattr (size_attrs sz) = (bm, vals) \<Longrightarrow>
      \<exists>s'. pr_SetAttr P ctx fh sid bm vals s = Some (None, s') \<and> I s' \<and>
        content s' = (content s)(nilb fh \<mapsto> resize (unat sz) bs)"
begin

lemma word_offset:
  "0 \<le> off \<Longrightarrow> nat off + n < 2 ^ 63 \<Longrightarrow> unat (word_of_int off + word_of_nat n :: u64) = nat off + n"
proof -
  assume off: "0 \<le> off" "nat off + n < 2 ^ 63"
  then have "(word_of_int off :: u64) + word_of_nat n = word_of_nat (nat off + n)" by simp
  also have "unat \<dots> = nat off + n"
    using off by (intro unat_word_of_nat_u64) simp
  finally show ?thesis .
qed

text \<open>What one READ for the rest of a buffer of \<open>L\<close> bytes gives.\<close>

lemma read_chunk:
  assumes s: "I s" "content s (nilb fh) = Some bs" and off: "0 \<le> off" "nat off + L < 2 ^ 63" and L: "L < 2 ^ 32" "tot < L"
  shows "\<exists>d eof s1. pr_Read P ctx fh (word_of_int off + word_of_nat tot) (word_of_nat (L - tot)) s = Some (Inr (d, eof), s1) \<and>
    I s1 \<and> content s1 = content s \<and> tot + length d \<le> L \<and>
    chunk (nat off) (tot + length d) bs = chunk (nat off) tot bs @ d \<and>
    (eof \<or> d = [] \<longrightarrow> chunk (nat off) L bs = chunk (nat off) tot bs @ d \<and> length bs \<le> nat off + L) \<and>
    (d \<noteq> [] \<longrightarrow> nat off + tot + length d \<le> length bs)"
proof -
  have o: "unat (word_of_int off + word_of_nat tot :: u64) = nat off + tot"
    using off L by (intro word_offset) auto
  have n: "unat (word_of_nat (L - tot) :: u32) = L - tot" using L by (intro unat_word_of_nat_u32) simp
  from rd [OF s, of "word_of_int off + word_of_nat tot" "word_of_nat (L - tot)"] o n L(2)
  obtain k eof s1 where r: "pr_Read P ctx fh (word_of_int off + word_of_nat tot) (word_of_nat (L - tot)) s =
      Some (Inr (chunk (nat off + tot) k bs, eof), s1)" "I s1" "content s1 = content s"
    "k \<le> L - tot" "0 < k" "eof \<longrightarrow> length bs \<le> nat off + tot + k"
    by auto
  define d where "d = chunk (nat off + tot) k bs"
  have dl: "length d = min k (length bs - (nat off + tot))" by (simp add: d_def)
  have d: "chunk (nat off) (tot + length d) bs = chunk (nat off) tot bs @ d"
    unfolding chunk_add by (simp add: d_def chunk_def min_def)
  have e: "chunk (nat off) L bs = chunk (nat off) (tot + length d) bs" "length bs \<le> nat off + L" if "eof \<or> d = []"
    using that r(4-6) L(2) dl by (auto intro!: chunk_short simp: d_def chunk_def)
  have "nat off + tot + length d \<le> length bs" if "d \<noteq> []" using that dl by (cases "nat off + tot \<le> length bs") auto
  moreover have "tot + length d \<le> L" using dl r(4) L(2) by simp
  ultimately show ?thesis using r(1-3) d e [unfolded d]
    unfolding d_def [symmetric] by blast
qed

text \<open>Reading at an offset fills the buffer with the bytes of the file.\<close>

lemma ReadAt_loop_reads:
  assumes f: "rw_proto (f_fsys f) = P" "f_ctx f = ctx" and off: "0 \<le> off" "nat off + L < 2 ^ 63"
    and L: "L < 2 ^ 32" "length p0 = L"
  shows "I s \<Longrightarrow> content s (nilb (f_fh f)) = Some bs \<Longrightarrow> tot \<le> L \<Longrightarrow> length (chunk (nat off) tot bs) = tot \<Longrightarrow>
    \<exists>err s'. ReadAt_loop f off tot (chunk (nat off) tot bs @ drop tot p0) s =
      Some ((length (chunk (nat off) L bs), err),
            chunk (nat off) L bs @ drop (length (chunk (nat off) L bs)) p0, s') \<and>
      I s' \<and> content s' = content s \<and> (err = None \<or> err = Some (Sentinel EOF)) \<and>
      (nat off + L < length bs \<longrightarrow> err = None) \<and> (tot < L \<and> length bs < nat off + L \<longrightarrow> err = Some (Sentinel EOF))"
proof (induction "L - tot" arbitrary: tot s rule: less_induct)
  case less
  define p where "p = chunk (nat off) tot bs @ drop tot p0"
  have len: "length p = L" and tk: "take tot p = chunk (nat off) tot bs" and dr: "\<And>n. drop (tot + n) p = drop (tot + n) p0"
    using less.prems(3,4) L(2) by (simp_all add: p_def add.commute)
  show ?case
  proof (cases "tot = L")
    case True
    then show ?thesis using less.prems len L(2) unfolding p_def [symmetric]
      by (subst ReadAt_loop.simps) (simp add: p_def)
  next
    case False
    with less.prems have lt: "tot < L" by simp
    from read_chunk [OF less.prems(1,2) off L(1) lt] obtain d eof s1 where
      r: "pr_Read P ctx (f_fh f) (word_of_int off + word_of_nat tot) (word_of_nat (L - tot)) s = Some (Inr (d, eof), s1)"
        "I s1" "content s1 = content s" "tot + length d \<le> L"
      and d: "chunk (nat off) (tot + length d) bs = chunk (nat off) tot bs @ d"
        "eof \<or> d = [] \<Longrightarrow> chunk (nat off) L bs = chunk (nat off) tot bs @ d \<and> length bs \<le> nat off + L"
        "d \<noteq> [] \<Longrightarrow> nat off + tot + length d \<le> length bs"
      by blast
    have step: "ReadAt_loop f off tot p s =
        (if eof \<or> d = [] then Some ((tot + length d, Some (Sentinel EOF)), (chunk (nat off) tot bs @ d) @ drop (tot + length d) p0, s1)
         else ReadAt_loop f off (tot + length d) (chunk (nat off) (tot + length d) bs @ drop (tot + length d) p0) s1)"
      using ReadAt_loop_step [of tot p f off s d eof s1] lt r(1,4) f by (simp add: len tk dr d(1) Let_def)
    show ?thesis
    proof (cases "eof \<or> d = []")
      case True
      with d(2) have all: "chunk (nat off) L bs = chunk (nat off) tot bs @ d" and "length bs \<le> nat off + L" by simp_all
      moreover have "length (chunk (nat off) L bs) = tot + length d" unfolding all using less.prems(4) by simp
      ultimately show ?thesis
        using True step r(2,3) unfolding p_def [symmetric] by (intro exI [of _ "Some (Sentinel EOF)"] exI [of _ s1]) simp
    next
      case False
      have "L - (tot + length d) < L - tot" using False lt r(4) by (simp add: diff_less_mono2)
      moreover have "content s1 (nilb (f_fh f)) = Some bs" using r(3) less.prems(2) by simp
      moreover have "length (chunk (nat off) (tot + length d) bs) = tot + length d" unfolding d(1) using less.prems(4) by simp
      ultimately obtain err s' where rest:
        "ReadAt_loop f off (tot + length d) (chunk (nat off) (tot + length d) bs @ drop (tot + length d) p0) s1 =
          Some ((length (chunk (nat off) L bs), err), chunk (nat off) L bs @ drop (length (chunk (nat off) L bs)) p0, s')"
        "I s'" "content s' = content s1" "err = None \<or> err = Some (Sentinel EOF)"
        "nat off + L < length bs \<longrightarrow> err = None"
        "tot + length d < L \<and> length bs < nat off + L \<longrightarrow> err = Some (Sentinel EOF)"
        using less.hyps [of "tot + length d" s1] r(2,4) by blast
      have "tot < L \<and> length bs < nat off + L \<longrightarrow> err = Some (Sentinel EOF)" using rest(6) d(3) False by auto
      then show ?thesis
        using step False r(3) rest(1-5) unfolding p_def [symmetric] by (intro exI [of _ err] exI [of _ s']) simp
    qed
  qed
qed

lemma File_ReadAt_reads:
  assumes f: "rw_proto (f_fsys f) = P" "f_ctx f = ctx" "\<not> f_closed f" and s: "I s" "content s (nilb (f_fh f)) = Some bs"
    and off: "0 \<le> off" "nat off + length p < 2 ^ 63" and L: "length p < 2 ^ 32"
  shows "\<exists>err s'. File_ReadAt p off f s =
      Some ((length (chunk (nat off) (length p) bs), err),
            chunk (nat off) (length p) bs @ drop (length (chunk (nat off) (length p) bs)) p, s') \<and>
      I s' \<and> content s' = content s \<and> (err = None \<or> err = Some (Sentinel EOF)) \<and>
      (nat off + length p < length bs \<longrightarrow> err = None) \<and> (p \<noteq> [] \<and> length bs < nat off + length p \<longrightarrow> err = Some (Sentinel EOF))"
  using ReadAt_loop_reads [OF f(1,2) off L refl s, of 0] f(3) off(1) by (simp add: File_ReadAt_def)

lemma File_Read_reads:
  assumes f: "rw_proto (f_fsys f) = P" "f_ctx f = ctx" "\<not> f_closed f" and s: "I s" "content s (nilb (f_fh f)) = Some bs"
    and off: "f_offset f = int pos" "pos + length p < 2 ^ 63" and L: "length p < 2 ^ 32" "p \<noteq> []"
  shows "\<exists>n s'. File_Read p f s =
      Some ((n, if n = 0 then Some (Sentinel EOF) else None), chunk pos n bs @ drop n p, f\<lparr>f_offset := int (pos + n)\<rparr>, s') \<and>
      I s' \<and> content s' = content s \<and> n \<le> length p \<and> n \<le> length bs - pos \<and> (n = 0 \<longleftrightarrow> length bs \<le> pos)"
proof -
  from L(2) have l: "0 < length p" by simp
  from read_chunk [OF s, of "int pos" "length p" 0] off(2) L(1) l obtain d eof s1 where
    r: "pr_Read P ctx (f_fh f) (word_of_int (int pos)) (word_of_nat (length p)) s = Some (Inr (d, eof), s1)"
      "I s1" "content s1 = content s" "length d \<le> length p" "chunk pos (length d) bs = d"
      "d = [] \<Longrightarrow> chunk pos (length p) bs = []" "d \<noteq> [] \<Longrightarrow> pos + length d \<le> length bs"
    by auto
  have "wrap64 (int pos + int (length d)) = int (pos + length d)" "wrap64 (int pos) = int pos"
    using off(2) r(4) by simp_all
  then have "File_Read p f s = Some ((length d, if length d = 0 then Some (Sentinel EOF) else None),
      chunk pos (length d) bs @ drop (length d) p, f\<lparr>f_offset := int (pos + length d)\<rparr>, s1)"
    using r(1,4,5) f L(2) off(1) by (simp add: File_Read_def go_copy_fits Let_def)
  moreover have "length d = 0 \<longleftrightarrow> length bs \<le> pos"
    using r(5-7) l by (auto simp: chunk_def)
  moreover have "length d \<le> length bs - pos" using r(5) by (metis length_chunk min.cobounded2)
  ultimately show ?thesis using r(2-4) by blast
qed

text \<open>Writing goes on until all bytes are taken.\<close>

lemma writeAt_writes:
  assumes f: "rw_proto (f_fsys f) = P" "f_ctx f = ctx" and off: "0 \<le> off" "nat off + length p < 2 ^ 63"
  shows "I s \<Longrightarrow> content s (nilb (f_fh f)) = Some (splice (nat off) (take tot p) bs) \<Longrightarrow> tot \<le> length p \<Longrightarrow>
    \<exists>s'. writeAt f p off tot s = Some ((length p, None), s') \<and> I s' \<and>
      content s' = (content s)(nilb (f_fh f) \<mapsto> splice (nat off) p bs)"
proof (induction "length p - tot" arbitrary: tot s rule: less_induct)
  case less
  show ?case
  proof (cases "tot = length p")
    case True
    then show ?thesis using less.prems by (subst writeAt.simps) (auto simp: fun_upd_idem_iff)
  next
    case False
    with less.prems have lt: "tot < length p" and ne: "drop tot p \<noteq> []" by simp_all
    have o: "unat (word_of_int off + word_of_nat tot :: u64) = nat off + tot"
      using off lt by (intro word_offset) auto
    from wr [OF less.prems(1,2) ne, of "f_stateid f" "word_of_int off + word_of_nat tot" FileSync4, unfolded o] obtain n how' s1 where
      r: "pr_Write P ctx (f_fh f) (f_stateid f) (word_of_int off + word_of_nat tot) (drop tot p) FileSync4 s = Some (Inr (n, how'), s1)"
        "I s1" "0 < unat n" "unat n \<le> length (drop tot p)"
        "content s1 = (content s)(nilb (f_fh f) \<mapsto> splice (nat off + tot) (take (unat n) (drop tot p)) (splice (nat off) (take tot p) bs))"
      by blast
    have c1: "content s1 (nilb (f_fh f)) = Some (splice (nat off) (take (tot + unat n) p) bs)"
      using r(5) lt splice_add [of "nat off" "take tot p" "take (unat n) (drop tot p)" bs] by (simp add: take_add)
    have "n \<noteq> 0" using r(3) by auto
    then have step: "writeAt f p off tot s = writeAt f p off (tot + unat n) s1"
      using lt f r(1) by (subst writeAt.simps) simp
    have "length p - (tot + unat n) < length p - tot" "tot + unat n \<le> length p" using r(3,4) lt by auto
    from less.hyps [OF this(1) r(2) c1 this(2)] show ?thesis
      unfolding step r(5) by simp
  qed
qed

lemma File_WriteAt_writes:
  assumes f: "rw_proto (f_fsys f) = P" "f_ctx f = ctx" "\<not> f_closed f" and s: "I s" "content s (nilb (f_fh f)) = Some bs"
    and off: "0 \<le> off" "nat off + length p < 2 ^ 63"
  shows "\<exists>s'. File_WriteAt p off f s = Some ((length p, None), s') \<and> I s' \<and>
      content s' = (content s)(nilb (f_fh f) \<mapsto> splice (nat off) p bs)"
  using writeAt_writes [OF f(1,2) off s(1), of 0 bs] s(2) f(3) off(1) by (simp add: File_WriteAt_def)

lemma File_size_length:
  assumes f: "rw_proto (f_fsys f) = P" "f_ctx f = ctx" and s: "I s" "content s (nilb (f_fh f)) = Some bs"
    and len: "length bs < 2 ^ 63"
  shows "\<exists>s'. File_size f s = Some (Inr (int (length bs)), s') \<and> I s' \<and> content s' = content s"
proof -
  have "uint (word_of_nat (length bs) :: u64) = int (unat (word_of_nat (length bs) :: u64))" by simp
  also have "\<dots> = int (length bs)" using len by (subst unat_word_of_nat_u64) auto
  finally have "sint (word_of_nat (length bs) :: u64) = int (length bs)"
    using len by (simp add: sint_uint signed_take_bit_int_eq_self)
  then show ?thesis
    using att [OF s] f by (auto simp: File_size_def File_attrs_def)
qed

lemma File_Write_writes:
  assumes f: "rw_proto (f_fsys f) = P" "f_ctx f = ctx" "\<not> f_closed f" and s: "I s" "content s (nilb (f_fh f)) = Some bs"
    and pos: "pos = (if f_flag f AND O_APPEND \<noteq> 0 then length bs else nat (f_offset f))" "0 \<le> f_offset f" "pos + length p < 2 ^ 63"
  shows "\<exists>s'. File_Write p f s = Some ((length p, None), f\<lparr>f_offset := int (pos + length p)\<rparr>, s') \<and> I s' \<and>
      content s' = (content s)(nilb (f_fh f) \<mapsto> splice pos p bs)"
proof -
  have "\<exists>s1. (if f_flag f AND O_APPEND \<noteq> 0 then File_size f s else Some (Inr (f_offset f), s)) = Some (Inr (int pos), s1) \<and>
      I s1 \<and> content s1 = content s"
    using File_size_length [OF f(1,2) s] pos s(1) by auto
  then obtain s1 where s1: "(if f_flag f AND O_APPEND \<noteq> 0 then File_size f s else Some (Inr (f_offset f), s)) = Some (Inr (int pos), s1)"
    "I s1" "content s1 = content s" by blast
  have "nat (int pos) + length p < 2 ^ 63" using pos(3) by simp
  from writeAt_writes [OF f(1,2) _ this s1(2), of 0 bs] s(2) s1(3) obtain s' where
    w: "writeAt f p (int pos) 0 s1 = Some ((length p, None), s')" "I s'"
      "content s' = (content s)(nilb (f_fh f) \<mapsto> splice pos p bs)"
    by auto
  have "wrap64 (int pos + int (length p)) = int (pos + length p)" using pos(3) by simp
  with w s1(1) f(3) show ?thesis by (simp add: File_Write_def)
qed

lemma File_Truncate_resizes:
  assumes f: "rw_proto (f_fsys f) = P" "f_ctx f = ctx" "\<not> f_closed f" and s: "I s" "content s (nilb (f_fh f)) = Some bs"
    and sz: "0 \<le> sz" "sz < 2 ^ 63"
  shows "\<exists>s'. File_Truncate sz f s = Some (None, s') \<and> I s' \<and>
      content s' = (content s)(nilb (f_fh f) \<mapsto> resize (nat sz) bs)"
proof -
  obtain bm vals where e: "EncodeFattr (size_attrs (word_of_int sz)) = (bm, vals)" by (metis prod.exhaust)
  have "unat (word_of_int sz :: u64) = nat sz" using word_offset [of sz 0] sz by simp
  with setsz [OF s e, of "f_stateid f"] show ?thesis using f sz(1) e by (auto simp: File_Truncate_def)
qed

lemma File_Seek_moves:
  assumes f: "rw_proto (f_fsys f) = P" "f_ctx f = ctx" "\<not> f_closed f" and s: "I s" "content s (nilb (f_fh f)) = Some bs"
    and len: "length bs < 2 ^ 63" "0 \<le> f_offset f" "f_offset f < 2 ^ 63"
    and wh: "whence = SeekStart \<or> whence = SeekCurrent \<or> whence = SeekEnd"
    and pos: "pos = (if whence = SeekStart then 0 else if whence = SeekCurrent then f_offset f else int (length bs)) + d"
      "- (2 ^ 63) \<le> d" "pos < 2 ^ 63"
  shows "\<exists>s'. File_Seek d whence f s =
      (if pos < 0 then Some ((0, Some (PathError ''seek'' (f_name f) (Sentinel ErrInvalid))), f, s')
       else Some ((pos, None), f\<lparr>f_offset := pos\<rparr>, s')) \<and> I s' \<and> content s' = content s"
proof -
  define base where "base = (if whence = SeekStart then 0 else if whence = SeekCurrent then f_offset f else int (length bs))"
  have "\<exists>s'. (if whence = SeekStart then Some (Inr 0, s) else if whence = SeekCurrent then Some (Inr (f_offset f), s)
      else File_size f s) = Some (Inr base, s') \<and> I s' \<and> content s' = content s"
    using s(1) File_size_length [OF f(1,2) s len(1)] by (simp add: base_def)
  then obtain s' where s': "(if whence = SeekStart then Some (Inr 0, s) else if whence = SeekCurrent then Some (Inr (f_offset f), s)
      else File_size f s) = Some (Inr base, s')" "I s'" "content s' = content s" by blast
  have "0 \<le> base" using len(2) by (simp add: base_def)
  then have "wrap64 (base + d) = pos" using pos by (simp add: base_def [symmetric])
  moreover have "\<not> (whence \<noteq> SeekStart \<and> whence \<noteq> SeekCurrent \<and> whence \<noteq> SeekEnd)" using wh by blast
  ultimately have "File_Seek d whence f s =
      (if pos < 0 then Some ((0, Some (PathError ''seek'' (f_name f) (Sentinel ErrInvalid))), f, s')
       else Some ((pos, None), f\<lparr>f_offset := pos\<rparr>, s'))"
    using f(3) unfolding File_Seek_def s'(1) by (auto simp: Let_def)
  with s'(2,3) show ?thesis by blast
qed

end

end
