(* ===== verification/File_Props.thy ===== *)
theory File_Props
  imports File_Laws
begin

text \<open>
  Open files over a connection. \<open>file_server\<close> is what a server promises of the bytes of its regular
  files; it gives the contract \<open>file_store\<close> to every connection in use with the server, so the laws of
  \<open>File_Laws\<close> hold of files opened over it. The in-memory server keeps the promise.
\<close>

subsection \<open>From the server to the protocol\<close>

locale file_server =
  fixes sv :: "'s server" and env :: "'s wire env" and content :: "'s \<Rightarrow> bytes \<Rightarrow> bytes option"
  assumes prompt: "never_delays sv"
    and put: "content s fh = Some bs \<Longrightarrow> sv_putfh sv fh s = NFS4_OK"
    and sv_rd: "content s fh = Some bs \<Longrightarrow>
      \<exists>k eof. sv_read sv fh AnonStateid off n s = (NFS4_OK, chunk (unat off) k bs, eof) \<and>
        k \<le> unat n \<and> (0 < unat n \<longrightarrow> 0 < k) \<and> (eof \<longrightarrow> length bs \<le> unat off + k)"
    and sv_wr: "content s fh = Some bs \<Longrightarrow> data \<noteq> [] \<Longrightarrow>
      \<exists>n how' s'. sv_write sv fh sid off how data s = ((NFS4_OK, n, how'), s') \<and> 0 < unat n \<and> unat n \<le> length data \<and>
        content s' = (content s)(fh \<mapsto> splice (unat off) (take (unat n) data) bs)"
    and sv_att: "content s fh = Some bs \<Longrightarrow>
      \<exists>bm vals a. sv_getattr sv fh StandardMask s = (NFS4_OK, bm, vals) \<and>
        Decode bm vals = Inr a \<and> at_Size a = word_of_nat (length bs)"
    and sv_setsz: "content s fh = Some bs \<Longrightarrow> EncodeFattr (size_attrs sz) = (bm, vals) \<Longrightarrow>
      \<exists>s'. sv_setattr sv fh sid bm vals s = (NFS4_OK, s') \<and> content s' = (content s)(fh \<mapsto> resize (unat sz) bs)"

definition over_conn :: "('s \<Rightarrow> 'a) \<Rightarrow> 's wire Conn \<times> 's wire store \<Rightarrow> 'a" where
  "over_conn content = (\<lambda>(c, w). content (wi_fs (st_world w)))"

definition in_use :: "'s wire Conn \<times> 's wire store \<Rightarrow> bool" where
  "in_use = (\<lambda>(c, w). conn_on c w)"

lemma with_conn_performs:
  "performs c m (x, s') \<Longrightarrow> \<exists>w'. with_conn c m = Some (x, c, w') \<and> wi_fs (st_world w') = s' \<and> conn_on c w'"
  by (auto simp: performs_def with_conn_def)

sublocale file_server \<subseteq> conn_files: file_store "conn_proto (env\<lparr>ev_base := serve sv\<rparr>)" calm_ctx in_use "over_conn content"
proof (unfold_locales, goal_cases)
  case (1 s fh bs off n)
  obtain c w where s: "s = (c, w)" by (metis prod.exhaust)
  with 1 have on: "conn_on c w" and bs: "content (wi_fs (st_world w)) (nilb fh) = Some bs"
    by (simp_all add: in_use_def over_conn_def)
  from sv_rd [OF bs, of off n] obtain k eof where
    r: "sv_read sv (nilb fh) AnonStateid off n (wi_fs (st_world w)) = (NFS4_OK, chunk (unat off) k bs, eof)"
      "k \<le> unat n" "0 < unat n \<longrightarrow> 0 < k" "eof \<longrightarrow> length bs \<le> unat off + k" by (elim exE conjE) (rule that)
  from Read_refines [OF on prompt refl, of env fh off n]
  have "performs c (Read (env\<lparr>ev_base := serve sv\<rparr>) calm_ctx c fh off n w) (Inr (chunk (unat off) k bs, eof), wi_fs (st_world w))"
    by (simp add: at_fh_def put [OF bs] r(1))
  from with_conn_performs [OF this] r(2-4) show ?case
    by (intro exI [of _ k] exI [of _ eof]) (auto simp: s conn_proto_def in_use_def over_conn_def)
next
  case (2 s fh bs data sid off how)
  obtain c w where s: "s = (c, w)" by (metis prod.exhaust)
  with 2 have on: "conn_on c w" and bs: "content (wi_fs (st_world w)) (nilb fh) = Some bs"
    by (simp_all add: in_use_def over_conn_def)
  from sv_wr [OF bs 2(3), of sid off how] obtain n how' s' where
    r: "sv_write sv (nilb fh) sid off how data (wi_fs (st_world w)) = ((NFS4_OK, n, how'), s')" "0 < unat n" "unat n \<le> length data"
      "content s' = (content (wi_fs (st_world w)))(nilb fh \<mapsto> splice (unat off) (take (unat n) data) bs)" by blast
  from Write_refines [OF on prompt refl, of env fh sid off data how]
  have "performs c (Write (env\<lparr>ev_base := serve sv\<rparr>) calm_ctx c fh sid off data how w) (Inr (n, how'), s')"
    by (simp add: at_fh_def put [OF bs] r(1))
  from with_conn_performs [OF this] r(2-4) show ?case
    by (auto simp: s conn_proto_def in_use_def over_conn_def)
next
  case (3 s fh bs)
  obtain c w where s: "s = (c, w)" by (metis prod.exhaust)
  with 3 have on: "conn_on c w" and bs: "content (wi_fs (st_world w)) (nilb fh) = Some bs"
    by (simp_all add: in_use_def over_conn_def)
  from sv_att [OF bs] obtain bm vals a where
    r: "sv_getattr sv (nilb fh) StandardMask (wi_fs (st_world w)) = (NFS4_OK, bm, vals)"
      "Decode bm vals = Inr a" "at_Size a = word_of_nat (length bs)" by blast
  from GetAttr_refines [OF on prompt refl, of env fh StandardMask]
  have "performs c (GetAttr (env\<lparr>ev_base := serve sv\<rparr>) calm_ctx c fh StandardMask w) (Inr (bm, vals), wi_fs (st_world w))"
    by (simp add: at_fh_def put [OF bs] r(1))
  from with_conn_performs [OF this] r(2,3) show ?case
    by (auto simp: s conn_proto_def in_use_def over_conn_def)
next
  case (4 s fh bs sz bm vals sid)
  obtain c w where s: "s = (c, w)" by (metis prod.exhaust)
  with 4 have on: "conn_on c w" and bs: "content (wi_fs (st_world w)) (nilb fh) = Some bs"
    by (simp_all add: in_use_def over_conn_def)
  from sv_setsz [OF bs 4(3), of sid] obtain s' where
    r: "sv_setattr sv (nilb fh) sid bm vals (wi_fs (st_world w)) = (NFS4_OK, s')"
      "content s' = (content (wi_fs (st_world w)))(nilb fh \<mapsto> resize (unat sz) bs)" by blast
  from SetAttr_refines [OF on prompt refl, of env fh sid bm vals]
  have "performs c (SetAttr (env\<lparr>ev_base := serve sv\<rparr>) calm_ctx c fh sid bm vals w) (None, s')"
    by (simp add: at_fh_err_def put [OF bs] r(1) Status_Err_def)
  from with_conn_performs [OF this] r(2) show ?case
    by (auto simp: s conn_proto_def in_use_def over_conn_def)
qed

context file_server
begin

lemma conn_file_store: "file_store (conn_proto (env\<lparr>ev_base := serve sv\<rparr>)) calm_ctx in_use (over_conn content)"
  by (rule conn_files.file_store_axioms)

end

subsection \<open>The in-memory server\<close>

definition mem_content :: "mem \<Rightarrow> bytes \<Rightarrow> bytes option" where
  "mem_content m fh = (case me_node m fh of Some (Reg bs) \<Rightarrow> Some bs | _ \<Rightarrow> None)"

lemma mem_content_Reg: "mem_content m fh = Some bs \<longleftrightarrow> me_node m fh = Some (Reg bs)"
  by (auto simp: mem_content_def split: option.splits node.splits)

lemma mem_content_set: "mem_content (mem_set fh (Reg bs) m) = (mem_content m)(fh \<mapsto> bs)"
  by (auto simp: mem_content_def mem_set_def fun_eq_iff)

lemma Decode_mem_fattr:
  assumes "length bm \<le> 2 ^ 27"
  shows "\<exists>S. Decode (fst (mem_fattr bm x)) (snd (mem_fattr bm x)) = Inr (select_attrs (fst (mem_fattr bm x)) S (mem_attrs x)) \<and>
     (\<forall>a \<in> set supported_attrs. Bitmap_Has bm a \<longrightarrow> a \<in> S)"
proof -
  let ?nums = "filter (\<lambda>a. a \<in> set supported_attrs) (Bitmap_SetAttrs bm)"
  have nums: "Bitmap_SetAttrs (BitmapFor ?nums) = ?nums"
    by (intro SetAttrs_BitmapFor sorted_wrt_filter Bitmap_SetAttrs_sorted assms)
  have "attrs_ok (mem_attrs x)"
    by (cases x) (simp_all add: mem_attrs_def attrs_ok_def Attributes_zero_def string_ok_def opaque_ok_def time_ok_def zero_time_def)
  then have "Decode (BitmapFor ?nums) (concat (map (wire_attr (mem_attrs x)) (Bitmap_SetAttrs (BitmapFor ?nums))) @ []) =
      Inr (select_attrs (BitmapFor ?nums) (set (Bitmap_SetAttrs (BitmapFor ?nums))) (mem_attrs x))"
    by (rule Decode_selects) (auto simp: nums)
  then show ?thesis
    using set_Bitmap_SetAttrs [OF assms] by (intro exI [of _ "set ?nums"]) (auto simp: mem_fattr_def nums Let_def)
qed


lemma EncodeFattr_size: "EncodeFattr (size_attrs sz) = (BitmapFor [AttrSize], BigEndian_PutUint64 sz)"
  by (simp add: EncodeFattr_def EncodeFattr_vals_wire EncodeFattr_nums_def wire_settable_def size_attrs_def)

interpretation mem_files: file_server mem_server env mem_content for env
proof (unfold_locales, goal_cases)
  case 1
  show ?case by (rule never_delays_mem)
next
  case (2 s fh bs)
  then show ?case by (simp add: mem_content_Reg mem_server_def)
next
  case (3 s fh bs off n)
  then show ?case
    by (intro exI [of _ "unat n"] exI [of _ "length bs \<le> unat off + unat n"])
      (simp add: mem_content_Reg mem_server_def mem_read_def chunk_def)
next
  case (4 s fh bs data sid off how)
  have "unat (word_of_nat (min (length data) (2 ^ 32 - 1)) :: u32) = min (length data) (2 ^ 32 - 1)"
    by (rule unat_word_of_nat_u32) auto
  with 4 show ?case
    by (simp add: mem_content_Reg mem_server_def mem_write_def Let_def mem_content_set min_def)
next
  case (5 s fh bs)
  obtain S where S: "Decode (fst (mem_fattr StandardMask (Reg bs))) (snd (mem_fattr StandardMask (Reg bs))) =
      Inr (select_attrs (fst (mem_fattr StandardMask (Reg bs))) S (mem_attrs (Reg bs)))"
    "\<forall>a \<in> set supported_attrs. Bitmap_Has StandardMask a \<longrightarrow> a \<in> S"
    using Decode_mem_fattr [of StandardMask "Reg bs"] length_BitmapFor by (auto simp: StandardMask_def)
  then have "AttrSize \<in> S" by (simp add: StandardMask_def Bitmap_Has_BitmapFor supported_attrs_def)
  with S(1) 5 show ?case
    by (cases "mem_fattr StandardMask (Reg bs)")
      (simp add: mem_content_Reg mem_server_def mem_getattr_def select_attrs_def mem_attrs_def)
next
  case (6 s fh bs sz bm vals sid)
  then show ?case by (auto simp: mem_content_Reg mem_server_def mem_setattr_def EncodeFattr_size mem_content_set)
qed

subsection \<open>Properties\<close>

text \<open>An open file over the sample connection.\<close>

definition sample_rw :: "(mem wire goctx, mem wire Conn \<times> mem wire store) RWFS" where
  "sample_rw = NewRW calm_ctx (conn_proto sample_env)"

definition sample_file :: "(mem wire goctx, mem wire Conn \<times> mem wire store) File" where
  "sample_file =
     \<lparr>f_fsys = sample_rw, f_ctx = calm_ctx, f_name = ''a'', f_fh = Some [2], f_stateid = mem_stateid sample_mem,
      f_flag = O_RDWR, f_share = 3, f_offset = 1, f_closed = False\<rparr>"

lemma sample_file_simps [simp]:
  "rw_proto (f_fsys sample_file) = conn_proto (sample_env\<lparr>ev_base := serve mem_server\<rparr>)" "f_ctx sample_file = calm_ctx"
  "\<not> f_closed sample_file" "nilb (f_fh sample_file) = [2]" "f_offset sample_file = 1" "f_flag sample_file = O_RDWR"
  "f_name sample_file = ''a''"
  by (simp_all add: sample_file_def sample_rw_def NewRW_def nilb_def)

lemma sample_content [simp]:
  "over_conn mem_content (sample_conn, sample_store) [2] = Some [10, 11, 12]" "mem_content sample_mem [2] = Some [10, 11, 12]"
  "in_use (sample_conn, sample_store)"
  using sample_conn_on by (simp_all add: over_conn_def mem_content_def sample_mem_def in_use_def)

lemma sample_splice: "splice (nat 5) [7, 8] [10, 11, 12] = [10, 11, 12, 0, 0, 7, 8 :: u8]"
  by (simp add: splice_def zeros_def numeral_2_eq_2)

lemma sample_write:
  "sv_write mem_server [2] sid (word_of_int 5) FileSync4 [7, 8] sample_mem =
     ((NFS4_OK, 2, FileSync4), mem_set [2] (Reg [10, 11, 12, 0, 0, 7, 8]) sample_mem)"
proof -
  have "me_node sample_mem [2] = Some (Reg [10, 11, 12])" using sample_content(2) unfolding mem_content_Reg .
  with sample_splice show ?thesis by (simp add: mem_server_def mem_write_def)
qed

text \<open>C28: \<open>ReadAt\<close> on an open file of a server that reads files as the protocol says fills the buffer
  with the bytes of the file from the offset on, however few bytes the server sends at a time. It returns
  the number of bytes the file has there, leaves the rest of the buffer alone, and returns the error
  \<open>io.EOF\<close> whenever it returns fewer bytes than asked for; before the end of the file it returns no
  error.\<close>

theorem File_ReadAt_contract:
  assumes "file_store (rw_proto (f_fsys f)) (f_ctx f) I content" and "\<not> f_closed f"
    and "I s" and "content s (nilb (f_fh f)) = Some bs"
    and "0 \<le> off" and "nat off + length p < 2 ^ 63" and "length p < 2 ^ 32"
    and "n = min (length p) (length bs - nat off)"
  shows "\<exists>err s'. File_ReadAt p off f s = Some ((n, err), take n (drop (nat off) bs) @ drop n p, s') \<and>
    I s' \<and> content s' = content s \<and> (err = None \<or> err = Some (Sentinel EOF)) \<and>
    (n < length p \<longrightarrow> err = Some (Sentinel EOF)) \<and> (nat off + length p < length bs \<longrightarrow> err = None)"
proof -
  have c: "chunk (nat off) (length p) bs = take n (drop (nat off) bs)" "length (chunk (nat off) (length p) bs) = n"
    using assms(8) by (auto simp: chunk_def min_def)
  from file_store.File_ReadAt_reads [OF assms(1) refl refl assms(2-7), unfolded c(2), unfolded c(1)] obtain err s' where
    "File_ReadAt p off f s = Some ((n, err), take n (drop (nat off) bs) @ drop n p, s')" "I s'" "content s' = content s"
    "err = None \<or> err = Some (Sentinel EOF)" "nat off + length p < length bs \<longrightarrow> err = None"
    "p \<noteq> [] \<and> length bs < nat off + length p \<longrightarrow> err = Some (Sentinel EOF)"
    by blast
  moreover have "p \<noteq> [] \<and> length bs < nat off + length p" if "n < length p"
    using that assms(8) by auto
  ultimately show ?thesis by blast
qed

theorem File_ReadAt_contract_witness:
  "\<exists>s'. File_ReadAt [0, 0, 0, 0] 1 sample_file (sample_conn, sample_store) =
     Some ((2, Some (Sentinel EOF)), [11, 12, 0, 0], s')"
proof -
  have "file_store (rw_proto (f_fsys sample_file)) (f_ctx sample_file) in_use (over_conn mem_content)"
    unfolding sample_file_simps by (rule mem_files.conn_file_store)
  moreover have "over_conn mem_content (sample_conn, sample_store) (nilb (f_fh sample_file)) = Some [10, 11, 12]"
    "nat 1 + length [0, 0, 0, 0 :: u8] < 2 ^ 63" "length [0, 0, 0, 0 :: u8] < 2 ^ 32"
    "2 = min (length [0, 0, 0, 0 :: u8]) (length [10, 11, 12 :: u8] - nat 1)" "(0 :: int) \<le> 1" by simp_all
  ultimately have "\<exists>err s'. File_ReadAt [0, 0, 0, 0] 1 sample_file (sample_conn, sample_store) =
      Some ((2, err), take 2 (drop (nat 1) [10, 11, 12]) @ drop 2 [0, 0, 0, 0], s') \<and>
      (2 < length [0, 0, 0, 0 :: u8] \<longrightarrow> err = Some (Sentinel EOF))"
    using File_ReadAt_contract [of sample_file in_use "over_conn mem_content" "(sample_conn, sample_store)"] sample_file_simps(3)
      sample_content(3) by blast
  then show ?thesis by simp
qed

text \<open>
  However few bytes the server takes or sends at a time, what \<open>WriteAt\<close> writes is what \<open>ReadAt\<close> reads back. (A
  WRITE that is cut short is followed by another one for the rest, and not reported.)
\<close>

lemma File_write_read_parts:
  assumes "file_server sv content" and "conn_on c w" and "content (wi_fs (st_world w)) (nilb (f_fh f)) = Some bs"
    and "rw_proto (f_fsys f) = conn_proto (env\<lparr>ev_base := serve sv\<rparr>)" "f_ctx f = calm_ctx" "\<not> f_closed f"
    and "0 \<le> off" and "nat off + length p < 2 ^ 63" and "length p < 2 ^ 32" and "length q = length p"
  shows "\<exists>s1 err s2. File_WriteAt p off f (c, w) = Some ((length p, None), s1) \<and>
    over_conn content s1 = (content (wi_fs (st_world w)))(nilb (f_fh f) \<mapsto> splice (nat off) p bs) \<and>
    File_ReadAt q off f s1 = Some ((length p, err), p, s2) \<and> over_conn content s2 = over_conn content s1 \<and>
    (err = None \<or> err = Some (Sentinel EOF))"
proof -
  have fs: "file_store (conn_proto (env\<lparr>ev_base := serve sv\<rparr>)) calm_ctx in_use (over_conn content)"
    using assms(1) by (rule file_server.conn_file_store)
  have "in_use (c, w)" "over_conn content (c, w) (nilb (f_fh f)) = Some bs"
    using assms(2,3) by (simp_all add: in_use_def over_conn_def)
  from file_store.File_WriteAt_writes [OF fs assms(4-6) this assms(7,8)] obtain s1 where
    w: "File_WriteAt p off f (c, w) = Some ((length p, None), s1)" "in_use s1"
      "over_conn content s1 = (over_conn content (c, w))(nilb (f_fh f) \<mapsto> splice (nat off) p bs)" by blast
  then have "over_conn content s1 (nilb (f_fh f)) = Some (splice (nat off) p bs)" by simp
  from file_store.File_ReadAt_reads [OF fs assms(4-6) w(2) this assms(7), of q, unfolded assms(10) chunk_splice]
  obtain err s2 where
    r: "File_ReadAt q off f s1 = Some ((length p, err), p @ drop (length p) q, s2)" "over_conn content s2 = over_conn content s1"
      "err = None \<or> err = Some (Sentinel EOF)"
    using assms(8,9) by blast
  have "over_conn content (c, w) = content (wi_fs (st_world w))" "p @ drop (length p) q = p"
    using assms(10) by (simp_all add: over_conn_def)
  with w(1,3) r show ?thesis by metis
qed

text \<open>C1: What is written at an offset of an open file over a connection to a server that keeps
  files as the protocol says is what a read there returns. When the server takes all bytes of a WRITE of them
  with FILE_SYNC stability at that offset, \<open>WriteAt\<close> leaves the server as that WRITE does and returns
  their number without an error; no other byte and no other file has changed, a gap is filled with zeros, and
  \<open>ReadAt\<close> of as many bytes gives them back, however few of them the server sends at a time.\<close>

theorem File_write_read:
  assumes "file_server sv content" and "conn_on c w" and "s = wi_fs (st_world w)" and "h = nilb (f_fh f)"
    and "content s h = Some bs"
    and "rw_proto (f_fsys f) = conn_proto (env\<lparr>ev_base := serve sv\<rparr>)" "f_ctx f = calm_ctx" "\<not> f_closed f"
    and "0 \<le> off" and "nat off + length p < 2 ^ 63" and "length p < 2 ^ 32" and "length q = length p" and "p \<noteq> []"
    and "sv_write sv h (f_stateid f) (word_of_int off) FileSync4 p s = ((NFS4_OK, n, how), s')" and "unat n = length p"
  shows "\<exists>w1 err s2. File_WriteAt p off f (c, w) = Some ((length p, None), c, w1) \<and> wi_fs (st_world w1) = s' \<and>
    content s' = (content s)(h \<mapsto> splice (nat off) p bs) \<and>
    File_ReadAt q off f (c, w1) = Some ((length p, err), p, s2) \<and> over_conn content s2 = content s' \<and>
    (err = None \<or> err = Some (Sentinel EOF))"
proof -
  have "content (wi_fs (st_world w)) (nilb (f_fh f)) = Some bs" using assms(3-5) by simp
  from File_write_read_parts [OF assms(1,2) this assms(6-12)] obtain s1 err s2 where
    parts: "File_WriteAt p off f (c, w) = Some ((length p, None), s1)" "over_conn content s1 = (content s)(h \<mapsto> splice (nat off) p bs)"
      "File_ReadAt q off f s1 = Some ((length p, err), p, s2)" "over_conn content s2 = over_conn content s1"
      "err = None \<or> err = Some (Sentinel EOF)"
    unfolding assms(3,4) by blast
  have "performs c (Write (env\<lparr>ev_base := serve sv\<rparr>) calm_ctx c (f_fh f) (f_stateid f) (word_of_int off) p FileSync4 w) (Inr (n, how), s')"
    using Write_refines [OF assms(2) file_server.prompt [OF assms(1)] assms(3), of env "f_fh f" "f_stateid f" "word_of_int off" p FileSync4]
      assms(14) file_server.put [OF assms(1,5)]
    by (simp add: at_fh_def assms(4) [symmetric])
  from with_conn_performs [OF this] obtain w1 where
    w1: "with_conn c (Write (env\<lparr>ev_base := serve sv\<rparr>) calm_ctx c (f_fh f) (f_stateid f) (word_of_int off) p FileSync4 w) =
        Some (Inr (n, how), c, w1)" "wi_fs (st_world w1) = s'" by blast
  then have "pr_Write (f_proto f) (f_ctx f) (f_fh f) (f_stateid f) (word_of_int off) p FileSync4 (c, w) = Some (Inr (n, how), c, w1)"
    by (simp add: assms(6,7) conn_proto_def)
  from File_WriteAt_whole [OF this assms(15,13,8,9)] parts(1) have s1: "s1 = (c, w1)" by simp
  have "over_conn content (c, w1) = content s'" using w1(2) by (simp add: over_conn_def)
  with parts(2-5) have "content s' = (content s)(h \<mapsto> splice (nat off) p bs)" "File_ReadAt q off f (c, w1) = Some ((length p, err), p, s2)"
    "over_conn content s2 = content s'" "err = None \<or> err = Some (Sentinel EOF)" unfolding s1 by simp_all
  with parts(1) w1(2) s1 show ?thesis by blast
qed

theorem File_write_read_witness:
  "\<exists>w1 err s2. File_WriteAt [7, 8] 5 sample_file (sample_conn, sample_store) = Some ((2, None), sample_conn, w1) \<and>
    mem_content (wi_fs (st_world w1)) [2] = Some [10, 11, 12, 0, 0, 7, 8] \<and>
    File_ReadAt [0, 0] 5 sample_file (sample_conn, w1) = Some ((2, err), [7, 8], s2)"
proof -
  let ?s' = "mem_set [2] (Reg [10, 11, 12, 0, 0, 7, 8]) sample_mem"
  have h: "nilb (f_fh sample_file) = [2]" by simp
  from File_write_read [OF mem_files.file_server_axioms sample_conn_on sample_simps(1) [symmetric] h [symmetric] sample_content(2)
      sample_file_simps(1-3), of 5 "[7, 8]" "[0, 0]", OF _ _ _ _ _ sample_write]
  obtain w1 err s2 where "File_WriteAt [7, 8] 5 sample_file (sample_conn, sample_store) = Some ((2, None), sample_conn, w1)"
      "wi_fs (st_world w1) = ?s'" "mem_content ?s' = (mem_content sample_mem)([2] \<mapsto> splice (nat 5) [7, 8] [10, 11, 12])"
      "File_ReadAt [0, 0] 5 sample_file (sample_conn, w1) = Some ((2, err), [7, 8], s2)"
    by auto
  with sample_splice show ?thesis by auto
qed

text \<open>C29: The position of an open file: \<open>Read\<close> returns bytes of the file from the position on and
  advances it by their number, and says \<open>io.EOF\<close> exactly when the position is at or past the end;
  \<open>Write\<close> writes all bytes at the position, or at the end of the file when it was opened to append, and
  moves the position behind them; \<open>Seek\<close> sets it relative to the start, the position or the end of the
  file, and refuses a negative one.\<close>

theorem File_cursor:
  assumes "file_store (rw_proto (f_fsys f)) (f_ctx f) I content" and "\<not> f_closed f"
    and "I s" and "content s (nilb (f_fh f)) = Some bs" and "f_offset f = int pos"
    and "pos + length p < 2 ^ 63" and "length bs + length p < 2 ^ 63" and "length p < 2 ^ 32" and "p \<noteq> []"
    and "whence = SeekStart \<or> whence = SeekCurrent \<or> whence = SeekEnd"
    and "- (2 ^ 63) \<le> d" and "d + max (int pos) (int (length bs)) < 2 ^ 63"
  shows "(\<exists>n s'. File_Read p f s =
        Some ((n, if n = 0 then Some (Sentinel EOF) else None), take n (drop pos bs) @ drop n p, f\<lparr>f_offset := int (pos + n)\<rparr>, s') \<and>
        content s' = content s \<and> n \<le> length p \<and> n \<le> length bs - pos \<and> (n = 0 \<longleftrightarrow> length bs \<le> pos)) \<and>
    (let at = (if f_flag f AND O_APPEND \<noteq> 0 then length bs else pos)
     in \<exists>s'. File_Write p f s = Some ((length p, None), f\<lparr>f_offset := int (at + length p)\<rparr>, s') \<and>
          content s' = (content s)(nilb (f_fh f) \<mapsto> splice at p bs)) \<and>
    (let to = (if whence = SeekStart then 0 else if whence = SeekCurrent then int pos else int (length bs)) + d
     in \<exists>s'. content s' = content s \<and>
          File_Seek d whence f s =
            (if to < 0 then Some ((0, Some (PathError ''seek'' (f_name f) (Sentinel ErrInvalid))), f, s')
             else Some ((to, None), f\<lparr>f_offset := to\<rparr>, s')))"
proof (unfold Let_def, intro conjI, goal_cases)
  case 1
  show ?case
    using file_store.File_Read_reads [OF assms(1) refl refl assms(2-6,8,9)] unfolding chunk_def by blast
next
  case 2
  have "(if f_flag f AND O_APPEND \<noteq> 0 then length bs else pos) + length p < 2 ^ 63" using assms(6,7) by simp
  moreover have "(if f_flag f AND O_APPEND \<noteq> 0 then length bs else pos) = (if f_flag f AND O_APPEND \<noteq> 0 then length bs else nat (f_offset f))"
    "0 \<le> f_offset f" using assms(5) by simp_all
  ultimately show ?case
    using file_store.File_Write_writes [OF assms(1) refl refl assms(2-4)] by blast
next
  case 3
  have "length bs < 2 ^ 63" "0 \<le> f_offset f" "f_offset f < 2 ^ 63" using assms(5-7) by simp_all
  moreover have "(if whence = SeekStart then 0 else if whence = SeekCurrent then f_offset f else int (length bs)) + d < 2 ^ 63"
    using assms(5,12) by (auto simp: max_def split: if_splits)
  ultimately show ?case
    using file_store.File_Seek_moves [OF assms(1) refl refl assms(2-4) _ _ _ assms(10) refl assms(11)] assms(5) by metis
qed

theorem File_cursor_witness:
  "\<exists>n s'. File_Read [0, 0] sample_file (sample_conn, sample_store) =
     Some ((n, None), take n [11, 12] @ drop n [0, 0], sample_file\<lparr>f_offset := int (1 + n)\<rparr>, s') \<and> 0 < n"
proof -
  have "file_store (rw_proto (f_fsys sample_file)) (f_ctx sample_file) in_use (over_conn mem_content)"
    unfolding sample_file_simps by (rule mem_files.conn_file_store)
  moreover have "over_conn mem_content (sample_conn, sample_store) (nilb (f_fh sample_file)) = Some [10, 11, 12]"
    "f_offset sample_file = int 1" "1 + length [0, 0 :: u8] < 2 ^ 63" "length [10, 11, 12 :: u8] + length [0, 0 :: u8] < 2 ^ 63"
    "length [0, 0 :: u8] < 2 ^ 32" "[0, 0 :: u8] \<noteq> []" "(0 :: int) = 0 \<or> (0 :: int) = 1 \<or> (0 :: int) = 2" "- (2 ^ 63) \<le> (0 :: int)"
    "0 + max (int 1) (int (length [10, 11, 12 :: u8])) < 2 ^ 63" by simp_all
  ultimately have "\<exists>n s'. File_Read [0, 0] sample_file (sample_conn, sample_store) =
      Some ((n, if n = 0 then Some (Sentinel EOF) else None), take n (drop 1 [10, 11, 12]) @ drop n [0, 0],
        sample_file\<lparr>f_offset := int (1 + n)\<rparr>, s') \<and> (n = 0 \<longleftrightarrow> length [10, 11, 12 :: u8] \<le> 1)"
    using File_cursor [of sample_file in_use "over_conn mem_content" "(sample_conn, sample_store)"] sample_file_simps(3)
      sample_content(3) by blast
  then show ?thesis by auto
qed

lemma go_copy_into:
  assumes "go_copy (drop tot p) data = (n, rest)" and "tot \<le> length p"
  shows "tot + n \<le> length p" "length (take tot p @ rest) = length p" "data \<noteq> [] \<Longrightarrow> tot < length p \<Longrightarrow> 0 < n"
    "tot + n \<le> m \<Longrightarrow> drop m (take tot p @ rest) = drop m p"
  using assms by (auto simp: go_copy_def Let_def min_def split: if_splits)

lemma ReadAt_loop_ends:
  assumes rd: "\<And>off n s. I s \<Longrightarrow> \<exists>r s'. pr_Read (rw_proto (f_fsys f)) (f_ctx f) (f_fh f) off n s = Some (r, s') \<and> I s'"
  shows "I s \<Longrightarrow> tot \<le> length p \<Longrightarrow> \<exists>n err p' s'. ReadAt_loop f off tot p s = Some ((n, err), p', s') \<and>
    tot \<le> n \<and> n \<le> length p \<and> length p' = length p \<and> drop n p' = drop n p \<and> (n < length p \<longrightarrow> err \<noteq> None)"
proof (induction "length p - tot" arbitrary: tot p s rule: less_induct)
  case less
  show ?case
  proof (cases "tot = length p")
    case True
    then show ?thesis by (subst ReadAt_loop.simps) simp
  next
    case False
    with less.prems have lt: "tot < length p" by simp
    obtain r s1 where r: "pr_Read (f_proto f) (f_ctx f) (f_fh f) (word_of_int off + word_of_nat tot)
        (word_of_nat (length p - tot)) s = Some (r, s1)" and s1: "I s1"
      using rd [OF less.prems(1)] by blast
    show ?thesis
    proof (cases r)
      case (Inl err)
      then show ?thesis using lt r by (subst ReadAt_loop.simps) simp
    next
      case (Inr a)
      obtain data eof where a: "r = Inr (data, eof)" using Inr by (cases a) auto
      obtain n rest where cp: "go_copy (drop tot p) data = (n, rest)" by (metis prod.exhaust)
      note into = go_copy_into [OF cp less.prems(2)]
      have step: "ReadAt_loop f off tot p s =
          (if eof \<or> data = [] then Some ((tot + n, Some (Sentinel EOF)), take tot p @ rest, s1)
           else ReadAt_loop f off (tot + n) (take tot p @ rest) s1)"
        using lt r a cp by (subst ReadAt_loop.simps) simp
      show ?thesis
      proof (cases "eof \<or> data = []")
        case True
        then show ?thesis using step into(1,2) into(4) [OF order_refl] by simp
      next
        case False
        then have "length (take tot p @ rest) - (tot + n) < length p - tot" using into(2,3) lt by auto
        from less.hyps [OF this s1] into(1,2) obtain m err p' s' where
          "ReadAt_loop f off (tot + n) (take tot p @ rest) s1 = Some ((m, err), p', s')" "tot + n \<le> m" "m \<le> length p"
          "length p' = length p" "drop m p' = drop m (take tot p @ rest)" "m < length p \<longrightarrow> err \<noteq> None"
          by auto
        then show ?thesis using step False into(4) by auto
      qed
    qed
  qed
qed

lemma writeAt_ends:
  assumes wr: "\<And>off data s. I s \<Longrightarrow>
      \<exists>r s'. pr_Write (rw_proto (f_fsys f)) (f_ctx f) (f_fh f) (f_stateid f) off data FileSync4 s = Some (r, s') \<and> I s'"
  shows "I s \<Longrightarrow> \<exists>n err s'. writeAt f p off tot s = Some ((n, err), s') \<and> tot \<le> n \<and> (n < length p \<longrightarrow> err \<noteq> None)"
proof (induction "length p - tot" arbitrary: tot s rule: less_induct)
  case less
  show ?case
  proof (cases "tot \<ge> length p")
    case True
    then show ?thesis by (subst writeAt.simps) simp
  next
    case lt: False
    obtain r s1 where r: "pr_Write (f_proto f) (f_ctx f) (f_fh f) (f_stateid f) (word_of_int off + word_of_nat tot)
        (drop tot p) FileSync4 s = Some (r, s1)" and s1: "I s1"
      using wr [OF less.prems] by blast
    show ?thesis
    proof (cases r)
      case (Inl err)
      then show ?thesis using lt r by (subst writeAt.simps) simp
    next
      case (Inr a)
      obtain n how where a: "r = Inr (n, how)" using Inr by (cases a) auto
      show ?thesis
      proof (cases "n = 0")
        case True
        then show ?thesis using lt r a by (subst writeAt.simps) simp
      next
        case False
        then have "0 < unat n" by (simp add: unat_gt_0)
        with lt have "length p - (tot + unat n) < length p - tot" by simp
        from less.hyps [OF this s1] show ?thesis
          using lt r a False by (subst writeAt.simps) auto
      qed
    qed
  qed
qed

text \<open>C30: The loops of \<open>ReadAt\<close> and \<open>WriteAt\<close> end whatever the server answers, as long as each
  call to it returns. \<open>ReadAt\<close> returns at most the length of the buffer and changes the buffer only up to
  the number it returns, and both return an error whenever they return less than the length, as
  \<open>io.ReaderAt\<close> and \<open>io.WriterAt\<close> demand.\<close>

theorem File_io_ends:
  assumes "\<And>off n s. I s \<Longrightarrow> \<exists>r s'. pr_Read (rw_proto (f_fsys f)) (f_ctx f) (f_fh f) off n s = Some (r, s') \<and> I s'"
    and "\<And>off data s. I s \<Longrightarrow>
      \<exists>r s'. pr_Write (rw_proto (f_fsys f)) (f_ctx f) (f_fh f) (f_stateid f) off data FileSync4 s = Some (r, s') \<and> I s'"
    and "I s"
  shows "(\<exists>n err p' s'. File_ReadAt p off f s = Some ((n, err), p', s') \<and>
            n \<le> length p \<and> length p' = length p \<and> drop n p' = drop n p \<and> (n < length p \<longrightarrow> err \<noteq> None)) \<and>
         (\<exists>n err s'. File_WriteAt p off f s = Some ((n, err), s') \<and> (n < length p \<longrightarrow> err \<noteq> None))"
  using ReadAt_loop_ends [OF assms(1,3), of 0 p off] writeAt_ends [OF assms(2,3), of p off 0]
  by (auto simp: File_ReadAt_def File_WriteAt_def)

text \<open>Calls over a connection to a server that never delays return.\<close>

lemma conn_proto_returns:
  assumes "never_delays sv" and "in_use s"
  shows "\<exists>r s'. pr_Read (conn_proto (env\<lparr>ev_base := serve sv\<rparr>)) calm_ctx fh off n s = Some (r, s') \<and> in_use s'"
    and "\<exists>r s'. pr_Write (conn_proto (env\<lparr>ev_base := serve sv\<rparr>)) calm_ctx fh sid off data how s = Some (r, s') \<and> in_use s'"
proof -
  obtain c w where s: "s = (c, w)" by (metis prod.exhaust)
  with assms(2) have on: "conn_on c w" by (simp add: in_use_def)
  show "\<exists>r s'. pr_Read (conn_proto (env\<lparr>ev_base := serve sv\<rparr>)) calm_ctx fh off n s = Some (r, s') \<and> in_use s'"
    using Read_refines [OF on assms(1) refl, of env fh off n]
    by (auto simp: performs_def s conn_proto_def with_conn_def in_use_def)
  show "\<exists>r s'. pr_Write (conn_proto (env\<lparr>ev_base := serve sv\<rparr>)) calm_ctx fh sid off data how s = Some (r, s') \<and> in_use s'"
    using Write_refines [OF on assms(1) refl, of env fh sid off data how]
    by (auto simp: performs_def s conn_proto_def with_conn_def in_use_def)
qed

theorem File_io_ends_witness:
  "\<exists>n err p' s'. File_ReadAt [0] 9 sample_file (sample_conn, sample_store) = Some ((n, err), p', s') \<and> n \<le> length [0]"
  using File_io_ends [OF conn_proto_returns [OF never_delays_mem, of _ sample_env "f_fh sample_file", folded sample_file_simps(1)
        sample_file_simps(2)] sample_content(3), of "[0]" 9]
  by auto

end
