(* ===== verification/FS_Laws.thy ===== *)
theory FS_Laws
  imports File_Props
begin

text \<open>
  Paths and directories of the read-only file system. The contract \<open>dir_store\<close> is what a protocol
  implementation promises of LOOKUP, GETATTR, READLINK and READDIR on a file tree it does not change:
  READDIR returns a stretch of the directory from the entry after the given cookie on, at least one
  entry unless there are no more, and says so when it reached the end (RFC 7530, section 16.24). The
  cookie verifier must be the one the server gave.
\<close>

subsection \<open>The contract\<close>

definition cookie_at :: "DirEntry list \<Rightarrow> nat \<Rightarrow> u64" where
  "cookie_at L k = (if k = 0 then 0 else de_Cookie (L ! (k - 1)))"

definition dot_entry :: "DirEntry \<Rightarrow> bool" where
  "dot_entry e \<longleftrightarrow> de_Name e = ''.'' \<or> de_Name e = ''..''"

text \<open>The file infos of the entries of a directory, without the dots, or the first error in decoding one.\<close>

fun entry_infos :: "DirEntry list \<Rightarrow> goerror + fileInfo list" where
  "entry_infos [] = Inr []"
| "entry_infos (e # es) =
     (if dot_entry e then entry_infos es
      else case Decode (de_AttrMask e) (de_AttrVals e) of
             Inl err \<Rightarrow> Inl err
           | Inr a \<Rightarrow>
               (case entry_infos es of
                  Inl err \<Rightarrow> Inl err
                | Inr infos \<Rightarrow> Inr (Attributes_FileInfo a (de_Name e) # infos)))"

lemma entry_infos_append:
  "entry_infos (xs @ ys) =
     (case entry_infos xs of
        Inl err \<Rightarrow> Inl err
      | Inr infos \<Rightarrow> (case entry_infos ys of Inl err \<Rightarrow> Inl err | Inr js \<Rightarrow> Inr (infos @ js)))"
  by (induction xs) (auto split: sum.splits)

text \<open>Following the components of a path.\<close>

fun resolves :: "(FileHandle \<Rightarrow> string \<Rightarrow> goerror + FileHandle) \<Rightarrow> FileHandle \<Rightarrow> string list \<Rightarrow> goerror + FileHandle" where
  "resolves lk fh [] = Inr fh"
| "resolves lk fh (name # names) = (case lk fh name of Inl err \<Rightarrow> Inl err | Inr fh \<Rightarrow> resolves lk fh names)"

lemma readDir_page_infos:
  "readDir_page es cookie out =
     (case entry_infos es of
        Inl err \<Rightarrow> Inl err
      | Inr infos \<Rightarrow> Inr (if es = [] then cookie else de_Cookie (last es), out @ infos))"
  by (induction es arbitrary: cookie out) (auto simp: dot_entry_def split: sum.splits)

definition path_comps :: "string \<Rightarrow> string list" where
  "path_comps name = (if name \<noteq> ''.'' then strings_Split name (CHR ''/'') else [])"

text \<open>The file handle and attributes a path leads to.\<close>

definition resolved :: "(FileHandle \<Rightarrow> string \<Rightarrow> goerror + FileHandle) \<Rightarrow> (FileHandle \<Rightarrow> goerror + Attributes) \<Rightarrow>
    FileHandle \<Rightarrow> string \<Rightarrow> goerror + FileHandle \<times> Attributes" where
  "resolved lk at root name =
     (case resolves lk root (path_comps name) of
        Inl err \<Rightarrow> Inl err
      | Inr fh \<Rightarrow> (case at fh of Inl err \<Rightarrow> Inl err | Inr a \<Rightarrow> Inr (fh, a)))"

locale dir_store =
  fixes P :: "('c, 'p) proto" and ctx :: 'c and I :: "'p \<Rightarrow> bool" and view :: "'p \<Rightarrow> 'v"
    and lookup :: "'v \<Rightarrow> FileHandle \<Rightarrow> string \<Rightarrow> goerror + FileHandle"
    and attrs_of :: "'v \<Rightarrow> FileHandle \<Rightarrow> goerror + Attributes"
    and target :: "'v \<Rightarrow> FileHandle \<Rightarrow> goerror + string"
    and listing :: "'v \<Rightarrow> FileHandle \<Rightarrow> DirEntry list option"
    and verf_of :: "'v \<Rightarrow> FileHandle \<Rightarrow> bytes"
  assumes look: "I s \<Longrightarrow> \<exists>s'. pr_Lookup P ctx fh name s = Some (lookup (view s) fh name, s') \<and> I s' \<and> view s' = view s"
    and att: "I s \<Longrightarrow> \<exists>r s'. pr_GetAttr P ctx fh StandardMask s = Some (r, s') \<and> I s' \<and> view s' = view s \<and>
      (case r of Inl err \<Rightarrow> Inl err | Inr (bm, vals) \<Rightarrow> Decode bm vals) = attrs_of (view s) fh"
    and rlink: "I s \<Longrightarrow> \<exists>s'. pr_Readlink P ctx fh s = Some (target (view s) fh, s') \<and> I s' \<and> view s' = view s"
    and rdir: "I s \<Longrightarrow> listing (view s) fh = Some L \<Longrightarrow> k \<le> length L \<Longrightarrow> k = 0 \<or> verf = verf_of (view s) fh \<Longrightarrow>
      \<exists>n eof s'. pr_Readdir P ctx fh (cookie_at L k) verf StandardMask s =
          Some (Inr (ReaddirRes 0 (verf_of (view s) fh) (take n (drop k L)) eof), s') \<and> I s' \<and> view s' = view s \<and>
        k + n \<le> length L \<and> (k < length L \<longrightarrow> 0 < n) \<and> (eof \<longrightarrow> k + n = length L)"
begin

lemma lookup_all_walks:
  "I s \<Longrightarrow> view s = v \<Longrightarrow> \<exists>s'. lookup_all P ctx fh comps s = Some (resolves (lookup v) fh comps, s') \<and> I s' \<and> view s' = v"
proof (induction comps arbitrary: fh s)
  case Nil
  then show ?case by simp
next
  case (Cons name comps)
  from look [OF Cons.prems(1), of fh name] Cons.prems(2) obtain s1 where
    s1: "pr_Lookup P ctx fh name s = Some (lookup v fh name, s1)" "I s1" "view s1 = v" by blast
  then show ?case using Cons.IH [OF s1(2,3)] by (cases "lookup v fh name") simp_all
qed

text \<open>Paging through a directory collects all entries.\<close>

lemma readDirAll_loop_lists:
  assumes P: "fs_proto fsys = P" "fs_ctx fsys = ctx"
  shows "I s \<Longrightarrow> listing (view s) fh = Some L \<Longrightarrow> k \<le> length L \<Longrightarrow> k = 0 \<or> verf = verf_of (view s) fh \<Longrightarrow>
    entry_infos (take k L) = Inr out \<Longrightarrow>
    \<exists>s'. readDirAll_loop fsys fh (cookie_at L k) verf out s = Some (entry_infos L, s') \<and> I s' \<and> view s' = view s"
proof (induction "length L - k" arbitrary: k verf out s rule: less_induct)
  case less
  from rdir [OF less.prems(1-4)] obtain n eof s1 where
    r: "pr_Readdir P ctx fh (cookie_at L k) verf StandardMask s =
        Some (Inr (ReaddirRes 0 (verf_of (view s) fh) (take n (drop k L)) eof), s1)" "I s1" "view s1 = view s"
      "k + n \<le> length L" "k < length L \<longrightarrow> 0 < n" "eof \<longrightarrow> k + n = length L" by blast
  let ?page = "take n (drop k L)"
  have page: "take (k + n) L = take k L @ ?page" by (simp add: take_add)
  have "L = take k L @ ?page @ drop (k + n) L" by (metis append_assoc append_take_drop_id page)
  from arg_cong [OF this, of entry_infos]
  have whole: "entry_infos L = (case entry_infos ?page of Inl err \<Rightarrow> Inl err
      | Inr infos \<Rightarrow> (case entry_infos (drop (k + n) L) of Inl err \<Rightarrow> Inl err | Inr js \<Rightarrow> Inr (out @ infos @ js)))"
    unfolding entry_infos_append less.prems(5) by (simp split: sum.splits)
  show ?case
  proof (cases "entry_infos ?page")
    case (Inl err)
    then show ?thesis
      using r(1-3) whole P by (subst readDirAll_loop.simps) (simp add: readDir_page_infos)
  next
    case (Inr infos)
    have next_cookie: "(if ?page = [] then cookie_at L k else de_Cookie (last ?page)) = cookie_at L (k + n)" if "0 < n"
      using that r(4) by (auto simp: cookie_at_def last_conv_nth nth_append)
    show ?thesis
    proof (cases "eof \<or> ?page = []")
      case True
      then have "k + n = length L" using r(4-6) by auto
      then show ?thesis
        using True Inr r(1-3) whole P by (subst readDirAll_loop.simps) (auto simp: readDir_page_infos)
    next
      case False
      then have n: "0 < n" by (cases n) auto
      have "readDirAll_loop fsys fh (cookie_at L k) verf out s =
          readDirAll_loop fsys fh (cookie_at L (k + n)) (verf_of (view s) fh) (out @ infos) s1"
        using False Inr r(1) P next_cookie [OF n] by (subst readDirAll_loop.simps) (auto simp: readDir_page_infos)
      moreover have "length L - (k + n) < length L - k" using n r(4) by simp
      moreover have "entry_infos (take (k + n) L) = Inr (out @ infos)"
        unfolding page by (simp add: entry_infos_append less.prems(5) Inr)
      ultimately show ?thesis
        using less.hyps [of "k + n" s1 "verf_of (view s) fh" "out @ infos"] r(2-4) less.prems(2) by simp
    qed
  qed
qed

lemma FS_resolve_walks:
  assumes P: "fs_proto fsys = P" "fs_ctx fsys = ctx" and s: "I s" "view s = v"
  shows "\<exists>s'. FS_resolve fsys name s = Some (resolved (lookup v) (attrs_of v) (pr_RootFH P s) name, s') \<and> I s' \<and> view s' = v"
proof -
  from lookup_all_walks [OF s] obtain s1 where
    s1: "lookup_all P ctx (pr_RootFH P s) (path_comps name) s = Some (resolves (lookup v) (pr_RootFH P s) (path_comps name), s1)"
      "I s1" "view s1 = v" by blast
  show ?thesis
  proof (cases "resolves (lookup v) (pr_RootFH P s) (path_comps name)")
    case (Inl err)
    then show ?thesis using s1 P by (simp add: FS_resolve_def resolved_def path_comps_def)
  next
    case (Inr fh)
    from att [OF s1(2), of fh] obtain r s2 where "pr_GetAttr P ctx fh StandardMask s1 = Some (r, s2)" "I s2" "view s2 = v"
      "(case r of Inl err \<Rightarrow> Inl err | Inr (bm, vals) \<Rightarrow> Decode bm vals) = attrs_of v fh" using s1(3) by auto
    then show ?thesis
      using s1(1) Inr P
      by (cases r) (auto simp: FS_resolve_def FS_stat_def resolved_def path_comps_def split: sum.splits)
  qed
qed

lemma FS_stat_op_walks:
  assumes P: "fs_proto fsys = P" "fs_ctx fsys = ctx" and s: "I s" "view s = v" and name: "fs_ValidPath name"
  shows "\<exists>s'. FS_stat_op op fsys name s =
      Some (case resolved (lookup v) (attrs_of v) (pr_RootFH P s) name of
              Inl err \<Rightarrow> Inl (pathError op name err)
            | Inr (fh, a) \<Rightarrow> Inr (Attributes_FileInfo a (base_name name)), s') \<and> I s' \<and> view s' = v"
  using FS_resolve_walks [OF assms(1-4), of name] name by (auto simp: FS_stat_op_def split: sum.splits)

lemma FS_ReadLink_walks:
  assumes P: "fs_proto fsys = P" "fs_ctx fsys = ctx" and s: "I s" "view s = v" and name: "fs_ValidPath name"
  shows "\<exists>s'. FS_ReadLink fsys name s =
      Some (case resolved (lookup v) (attrs_of v) (pr_RootFH P s) name of
              Inl err \<Rightarrow> Inl (pathError ''readlink'' name err)
            | Inr (fh, a) \<Rightarrow> (case target v fh of Inl err \<Rightarrow> Inl (pathError ''readlink'' name err) | Inr t \<Rightarrow> Inr t), s') \<and>
      I s' \<and> view s' = v"
proof -
  from FS_resolve_walks [OF assms(1-4), of name] obtain s1 where
    s1: "FS_resolve fsys name s = Some (resolved (lookup v) (attrs_of v) (pr_RootFH P s) name, s1)" "I s1" "view s1 = v" by blast
  show ?thesis
  proof (cases "resolved (lookup v) (attrs_of v) (pr_RootFH P s) name")
    case (Inl err)
    then show ?thesis using s1 name by (simp add: FS_ReadLink_def)
  next
    case (Inr a)
    then show ?thesis
      using s1 name P rlink [OF s1(2), of "fst a"] by (cases a) (auto simp: FS_ReadLink_def split: sum.splits)
  qed
qed

lemma readDirAll_lists:
  assumes "fs_proto fsys = P" "fs_ctx fsys = ctx" and "I s" "listing (view s) fh = Some L"
  shows "\<exists>s'. readDirAll fsys fh s = Some (entry_infos L, s') \<and> I s' \<and> view s' = view s"
  using readDirAll_loop_lists [OF assms, of 0 "zeros 8" "[]"] by (simp add: readDirAll_def cookie_at_def)

lemma FS_ReadDir_entries:
  assumes P: "fs_proto fsys = P" "fs_ctx fsys = ctx" and s: "I s" "view s = v" and name: "fs_ValidPath name"
    and at: "resolved (lookup v) (attrs_of v) (pr_RootFH P s) name = Inr (fh, a)"
      "FileMode_IsDir (Attributes_FileMode a)" "listing v fh = Some L"
  shows "\<exists>s'. FS_ReadDir fsys name s =
      Some (case entry_infos L of Inl err \<Rightarrow> Inl (pathError ''readdir'' name err) | Inr infos \<Rightarrow> Inr infos, s') \<and>
      I s' \<and> view s' = v"
proof -
  from FS_resolve_walks [OF assms(1-4), of name] at(1) obtain s1 where
    s1: "FS_resolve fsys name s = Some (Inr (fh, a), s1)" "I s1" "view s1 = v" by auto
  then show ?thesis
    using name at(2,3) readDirAll_lists [OF P s1(2), of fh L] by (auto simp: FS_ReadDir_def split: sum.splits)
qed

end

subsection \<open>From the server to the protocol\<close>

locale dir_server =
  fixes sv :: "'s server" and env :: "'s wire env" and listing :: "'s \<Rightarrow> bytes \<Rightarrow> DirEntry list option" and verf_of :: "'s \<Rightarrow> bytes \<Rightarrow> bytes"
  assumes prompt: "never_delays sv"
    and put: "listing s fh = Some L \<Longrightarrow> sv_putfh sv fh s = NFS4_OK"
    and sv_rdir: "listing s fh = Some L \<Longrightarrow> k \<le> length L \<Longrightarrow> k = 0 \<or> verf = verf_of s fh \<Longrightarrow>
      \<exists>n eof. sv_readdir sv fh (cookie_at L k) verf 8192 65536 StandardMask s = (NFS4_OK, verf_of s fh, take n (drop k L), eof) \<and>
        k + n \<le> length L \<and> (k < length L \<longrightarrow> 0 < n) \<and> (eof \<longrightarrow> k + n = length L)"

definition server_lookup :: "'s server \<Rightarrow> 's \<Rightarrow> FileHandle \<Rightarrow> string \<Rightarrow> goerror + FileHandle" where
  "server_lookup sv s fh name = fst (at_fh sv fh s (case sv_lookup sv (nilb fh) name s of (st, fh') \<Rightarrow> ((st, Some fh'), s)))"

definition server_attrs :: "'s server \<Rightarrow> 's \<Rightarrow> FileHandle \<Rightarrow> goerror + Attributes" where
  "server_attrs sv s fh =
     (case fst (at_fh sv fh s (sv_getattr sv (nilb fh) StandardMask s, s)) of
        Inl err \<Rightarrow> Inl err
      | Inr (bm, vals) \<Rightarrow> Decode bm vals)"

definition server_target :: "'s server \<Rightarrow> 's \<Rightarrow> FileHandle \<Rightarrow> goerror + string" where
  "server_target sv s fh = fst (at_fh sv fh s (sv_readlink sv (nilb fh) s, s))"

lemma at_fh_same [simp]: "snd (at_fh sv fh s ((st, x), s)) = s"
  by (simp add: at_fh_def)

sublocale dir_server \<subseteq> conn_dirs: dir_store "conn_proto (env\<lparr>ev_base := serve sv\<rparr>)" calm_ctx in_use "over_conn (\<lambda>s. s)"
  "server_lookup sv" "server_attrs sv" "server_target sv" "\<lambda>s fh. listing s (nilb fh)" "\<lambda>s fh. verf_of s (nilb fh)"
proof (unfold_locales, goal_cases)
  case (1 s fh name)
  obtain c w where s: "s = (c, w)" by (metis prod.exhaust)
  with 1 have on: "conn_on c w" by (simp add: in_use_def)
  from Lookup_refines [OF on prompt refl, of env fh name] show ?case
    by (auto simp: s conn_proto_def in_use_def over_conn_def server_lookup_def performs_def with_conn_def split_beta)
next
  case (2 s fh)
  obtain c w where s: "s = (c, w)" by (metis prod.exhaust)
  with 2 have on: "conn_on c w" by (simp add: in_use_def)
  obtain st x where x: "sv_getattr sv (nilb fh) StandardMask (wi_fs (st_world w)) = (st, x)" by (metis prod.exhaust)
  from GetAttr_refines [OF on prompt refl, of env fh StandardMask] show ?case
    by (auto simp: s x conn_proto_def in_use_def over_conn_def server_attrs_def performs_def with_conn_def)
next
  case (3 s fh)
  obtain c w where s: "s = (c, w)" by (metis prod.exhaust)
  with 3 have on: "conn_on c w" by (simp add: in_use_def)
  obtain st x where x: "sv_readlink sv (nilb fh) (wi_fs (st_world w)) = (st, x)" by (metis prod.exhaust)
  from Readlink_refines [OF on prompt refl, of env fh] show ?case
    by (auto simp: s x conn_proto_def in_use_def over_conn_def server_target_def performs_def with_conn_def)
next
  case (4 s fh L k verf)
  obtain c w where s: "s = (c, w)" by (metis prod.exhaust)
  with 4 have on: "conn_on c w" and L: "listing (wi_fs (st_world w)) (nilb fh) = Some L"
    and verf: "k = 0 \<or> verf = verf_of (wi_fs (st_world w)) (nilb fh)" by (simp_all add: in_use_def over_conn_def)
  from sv_rdir [OF L 4(3) verf] obtain n eof where
    r: "sv_readdir sv (nilb fh) (cookie_at L k) verf 8192 65536 StandardMask (wi_fs (st_world w)) =
        (NFS4_OK, verf_of (wi_fs (st_world w)) (nilb fh), take n (drop k L), eof)"
      "k + n \<le> length L" "k < length L \<longrightarrow> 0 < n" "eof \<longrightarrow> k + n = length L" by (elim exE conjE) (rule that)
  from Readdir_refines [OF on prompt refl, of env fh "cookie_at L k" verf StandardMask]
  have "performs c (Readdir (env\<lparr>ev_base := serve sv\<rparr>) calm_ctx c fh (cookie_at L k) verf StandardMask w)
      (Inr (ReaddirRes 0 (verf_of (wi_fs (st_world w)) (nilb fh)) (take n (drop k L)) eof), wi_fs (st_world w))"
    by (simp add: at_fh_def put [OF L] r(1))
  from with_conn_performs [OF this] r(2-4) show ?case
    by (intro exI [of _ n] exI [of _ eof]) (auto simp: s conn_proto_def in_use_def over_conn_def)
qed

context dir_server
begin

lemma conn_dir_store: "dir_store (conn_proto (env\<lparr>ev_base := serve sv\<rparr>)) calm_ctx in_use (over_conn (\<lambda>s. s))
  (server_lookup sv) (server_attrs sv) (server_target sv) (\<lambda>s fh. listing s (nilb fh)) (\<lambda>s fh. verf_of s (nilb fh))"
  by (rule conn_dirs.dir_store_axioms)

end

end
