(* ===== verification/FS_Props.thy ===== *)
theory FS_Props
  imports FS_Laws
begin

text \<open>
  What the read-only file system promises: paths, directory listings, open directories and the errors
  that package \<open>io/fs\<close> prescribes.
\<close>

subsection \<open>Directories of the in-memory server\<close>

definition mem_listing :: "mem \<Rightarrow> bytes \<Rightarrow> DirEntry list option" where
  "mem_listing m fh =
     (case me_node m fh of
        Some (Dir es) \<Rightarrow> if length es < 2 ^ 63 then Some (mem_entries StandardMask m es) else None
      | _ \<Rightarrow> None)"

lemma mem_listing_Dir:
  "mem_listing m fh = Some L \<longleftrightarrow> (\<exists>es. me_node m fh = Some (Dir es) \<and> length es < 2 ^ 63 \<and> L = mem_entries StandardMask m es)"
  by (auto simp: mem_listing_def split: option.splits node.splits)

lemma length_mem_entries [simp]: "length (mem_entries bm m es) = length es"
  by (simp add: mem_entries_def)

lemma mem_cookie: "k < length es \<Longrightarrow> de_Cookie (mem_entries bm m es ! k) = word_of_nat (k + 3)"
  by (simp add: mem_entries_def nth_enumerate_eq split: prod.splits)

interpretation mem_dirs: dir_server mem_server env mem_listing "\<lambda>m fh. zeros 8" for env
proof (unfold_locales, goal_cases)
  case 1
  show ?case by (rule never_delays_mem)
next
  case (2 s fh L)
  then show ?case by (auto simp: mem_listing_Dir mem_server_def)
next
  case (3 s fh L k verf)
  then obtain es where es: "me_node s fh = Some (Dir es)" "length es < 2 ^ 63" "L = mem_entries StandardMask s es"
    by (auto simp: mem_listing_Dir)
  have "unat (cookie_at L k) - 2 = k"
  proof (cases "k = 0")
    case False
    with 3 es have "cookie_at L k = word_of_nat (k + 2)" by (cases k) (simp_all add: cookie_at_def mem_cookie)
    moreover have "unat (word_of_nat (k + 2) :: u64) = k + 2" using 3 es by (intro unat_word_of_nat_u64) simp
    ultimately show ?thesis by simp
  qed (simp add: cookie_at_def)
  then show ?case
    using 3 es
    by (intro exI [of _ "min 2 (length L - k)"] exI [of _ "length L - k \<le> 2"])
      (auto simp: mem_server_def mem_readdir_def Let_def min_def)
qed

subsection \<open>Properties of paths and directories\<close>

definition sample_fs :: "(mem wire goctx, mem wire Conn \<times> mem wire store) FS" where
  "sample_fs = FS_New calm_ctx (conn_proto sample_env)"

lemma sample_fs_simps [simp]:
  "fs_proto sample_fs = conn_proto (sample_env\<lparr>ev_base := serve mem_server\<rparr>)" "fs_ctx sample_fs = calm_ctx"
  "pr_RootFH (conn_proto sample_env) (sample_conn, sample_store) = Some [1]"
  "over_conn (\<lambda>s. s) (sample_conn, sample_store) = sample_mem"
  by (simp_all add: sample_fs_def FS_New_def conn_proto_def RootFH_def sample_conn_def over_conn_def)

lemma sample_attrs_of:
  assumes "me_node sample_mem fh = Some x"
  shows "\<exists>S. server_attrs mem_server sample_mem (Some fh) =
      Inr (select_attrs (fst (mem_fattr StandardMask x)) S (mem_attrs x)) \<and> AttrType \<in> S \<and> AttrSize \<in> S \<and> AttrMode \<in> S"
proof -
  have "length StandardMask \<le> 2 ^ 27" using length_BitmapFor by (simp add: StandardMask_def)
  from Decode_mem_fattr [OF this, of x] obtain S where
    S: "Decode (fst (mem_fattr StandardMask x)) (snd (mem_fattr StandardMask x)) =
        Inr (select_attrs (fst (mem_fattr StandardMask x)) S (mem_attrs x))"
      "\<forall>a \<in> set supported_attrs. Bitmap_Has StandardMask a \<longrightarrow> a \<in> S" by blast
  from S(2) have "AttrType \<in> S \<and> AttrSize \<in> S \<and> AttrMode \<in> S"
    by (simp add: StandardMask_def Bitmap_Has_BitmapFor supported_attrs_def)
  with S(1) assms show ?thesis
    by (cases "mem_fattr StandardMask x") (auto simp: server_attrs_def at_fh_def mem_server_def mem_getattr_def nilb_def)
qed

text \<open>C31: \<open>Stat\<close>, \<open>Lstat\<close> and \<open>ReadLink\<close> follow the components of a path from the root one by one
  and report the attributes (under the last name of the path) or the link target found there; the first
  error on the way is reported as a \<open>PathError\<close> for the operation and the path. A path that
  \<open>fs.ValidPath\<close> refuses is answered with \<open>fs.ErrInvalid\<close> without asking the server. None of them
  changes the files.\<close>

theorem FS_paths_walk:
  assumes "dir_store (fs_proto fsys) (fs_ctx fsys) I view lk at tg ls vf" and "I s" and "view s = v"
    and "r = resolved (lk v) (at v) (pr_RootFH (fs_proto fsys) s) name"
  shows "if fs_ValidPath name
    then (\<exists>s'. FS_Stat fsys name s =
            Some (case r of Inl err \<Rightarrow> Inl (pathError ''stat'' name err)
                  | Inr (fh, a) \<Rightarrow> Inr (Attributes_FileInfo a (base_name name)), s') \<and> I s' \<and> view s' = v) \<and>
         (\<exists>s'. FS_Lstat fsys name s =
            Some (case r of Inl err \<Rightarrow> Inl (pathError ''lstat'' name err)
                  | Inr (fh, a) \<Rightarrow> Inr (Attributes_FileInfo a (base_name name)), s') \<and> I s' \<and> view s' = v) \<and>
         (\<exists>s'. FS_ReadLink fsys name s =
            Some (case r of Inl err \<Rightarrow> Inl (pathError ''readlink'' name err)
                  | Inr (fh, a) \<Rightarrow> (case tg v fh of Inl err \<Rightarrow> Inl (pathError ''readlink'' name err) | Inr t \<Rightarrow> Inr t), s') \<and>
            I s' \<and> view s' = v)
    else FS_Stat fsys name s = Some (Inl (PathError ''stat'' name (Sentinel ErrInvalid)), s) \<and>
         FS_Lstat fsys name s = Some (Inl (PathError ''lstat'' name (Sentinel ErrInvalid)), s) \<and>
         FS_ReadLink fsys name s = Some (Inl (PathError ''readlink'' name (Sentinel ErrInvalid)), s)"
proof (cases "fs_ValidPath name")
  case True
  then show ?thesis
    using dir_store.FS_stat_op_walks [OF assms(1) refl refl assms(2,3) True] dir_store.FS_ReadLink_walks [OF assms(1) refl refl assms(2,3) True]
    unfolding FS_Stat_def FS_Lstat_def assms(4) by simp
next
  case False
  then show ?thesis by (simp add: FS_Stat_def FS_Lstat_def FS_stat_op_def FS_ReadLink_def invalid_path_def)
qed

theorem FS_paths_walk_witness:
  "\<exists>s'. FS_Stat sample_fs ''d/x'' (sample_conn, sample_store) =
     Some (Inl (PathError ''stat'' ''d/x'' (Sentinel ErrNotExist)), s')"
proof -
  have "dir_store (fs_proto sample_fs) (fs_ctx sample_fs) in_use (over_conn (\<lambda>s. s)) (server_lookup mem_server)
      (server_attrs mem_server) (server_target mem_server) (\<lambda>s fh. mem_listing s (nilb fh)) (\<lambda>s fh. zeros 8)"
    unfolding sample_fs_simps by (rule mem_dirs.conn_dir_store)
  moreover have "fs_ValidPath ''d/x''" by code_simp
  moreover have "resolved (server_lookup mem_server sample_mem) (server_attrs mem_server sample_mem) (Some [1]) ''d/x'' =
      Inl (StatusError NFS4ERR_NOENT)"
    by (simp add: resolved_def path_comps_def server_lookup_def at_fh_def mem_server_def mem_lookup_def
        sample_mem_def nilb_def)
  ultimately show ?thesis
    using FS_paths_walk [of sample_fs in_use "over_conn (\<lambda>s. s)" "server_lookup mem_server" "server_attrs mem_server"
      "server_target mem_server" "\<lambda>s fh. mem_listing s (nilb fh)" "\<lambda>s fh. zeros 8" "(sample_conn, sample_store)" sample_mem
      "Inl (StatusError NFS4ERR_NOENT)" "''d/x''"]
    by (auto simp: pathError_def canonicalSentinel_def)
qed

lemma entry_infos_all:
  "(\<And>e. e \<in> set L \<Longrightarrow> \<not> dot_entry e \<Longrightarrow> Decode (de_AttrMask e) (de_AttrVals e) = Inr (A e)) \<Longrightarrow>
   entry_infos L = Inr (map (\<lambda>e. Attributes_FileInfo (A e) (de_Name e)) (filter (\<lambda>e. \<not> dot_entry e) L))"
  by (induction L) auto

text \<open>C3: Over a connection to a server that pages through its directories as the protocol says,
  \<open>ReadDir\<close> returns all entries of a directory but the dots, once each and in the server's order, with
  the attributes the server gave, however the server cuts the listing into pages; it ends, and leaves
  the files as they were.\<close>

theorem FS_ReadDir_lists:
  assumes "dir_server sv listing verf_of" and "conn_on c w" and "s = wi_fs (st_world w)"
    and "fs_proto fsys = conn_proto (env\<lparr>ev_base := serve sv\<rparr>)" "fs_ctx fsys = calm_ctx" and "fs_ValidPath name"
    and "resolved (server_lookup sv s) (server_attrs sv s) (RootFH c) name = Inr (fh, a)"
    and "FileMode_IsDir (Attributes_FileMode a)" and "listing s (nilb fh) = Some L"
    and "\<And>e. e \<in> set L \<Longrightarrow> \<not> dot_entry e \<Longrightarrow> Decode (de_AttrMask e) (de_AttrVals e) = Inr (A e)"
  shows "\<exists>s'. FS_ReadDir fsys name (c, w) =
      Some (Inr (map (\<lambda>e. Attributes_FileInfo (A e) (de_Name e)) (filter (\<lambda>e. \<not> dot_entry e) L)), s') \<and>
      in_use s' \<and> over_conn (\<lambda>s. s) s' = s"
proof -
  have ds: "dir_store (fs_proto fsys) (fs_ctx fsys) in_use (over_conn (\<lambda>s. s)) (server_lookup sv) (server_attrs sv)
      (server_target sv) (\<lambda>s fh. listing s (nilb fh)) (\<lambda>s fh. verf_of s (nilb fh))"
    unfolding assms(4,5) using assms(1) by (rule dir_server.conn_dir_store)
  have "in_use (c, w)" "over_conn (\<lambda>s. s) (c, w) = s" using assms(2,3) by (simp_all add: in_use_def over_conn_def)
  moreover have "pr_RootFH (fs_proto fsys) (c, w) = RootFH c" by (simp add: assms(4) conn_proto_def)
  ultimately show ?thesis
    using dir_store.FS_ReadDir_entries [OF ds refl refl, of "(c, w)" s name fh a L] assms(6-9) entry_infos_all [OF assms(10)]
    by simp
qed

lemma FileMode_IsDir_dir: "at_Type a = FtypeDir \<Longrightarrow> FileMode_IsDir (Attributes_FileMode a)"
  by (simp add: FileMode_IsDir_def Attributes_FileMode_def Let_def and_bit_of bit_or_iff bit_bit_of bit_of_nonzero)

lemma sample_entry_Decode:
  assumes "e \<in> set (mem_entries StandardMask sample_mem [(''b'', [2])])"
  shows "Decode (de_AttrMask e) (de_AttrVals e) = Inr (projr (server_attrs mem_server sample_mem (Some [2])))"
proof -
  have "me_node sample_mem [2] = Some (Reg [10, 11, 12])" by (simp add: sample_mem_def)
  with sample_attrs_of [OF this] assms show ?thesis
    by (auto simp: mem_entries_def mem_getattr_def server_attrs_def at_fh_def mem_server_def nilb_def split: sum.splits prod.splits)
qed

theorem FS_ReadDir_lists_witness:
  "\<exists>a s'. FS_ReadDir sample_fs ''d'' (sample_conn, sample_store) = Some (Inr [Attributes_FileInfo a ''b''], s') \<and>
     over_conn (\<lambda>s. s) s' = sample_mem"
proof -
  have d: "me_node sample_mem [3] = Some (Dir [(''b'', [2])])" by (simp add: sample_mem_def)
  from sample_attrs_of [OF this] obtain S where
    S: "server_attrs mem_server sample_mem (Some [3]) =
        Inr (select_attrs (fst (mem_fattr StandardMask (Dir [(''b'', [2])]))) S (mem_attrs (Dir [(''b'', [2])])))"
      "AttrType \<in> S" by blast
  let ?a = "select_attrs (fst (mem_fattr StandardMask (Dir [(''b'', [2])]))) S (mem_attrs (Dir [(''b'', [2])]))"
  let ?L = "mem_entries StandardMask sample_mem [(''b'', [2])]"
  have "FileMode_IsDir (Attributes_FileMode ?a)"
    using S(2) by (intro FileMode_IsDir_dir) (simp add: select_attrs_def mem_attrs_def)
  moreover have "server_lookup mem_server sample_mem (Some [1]) ''d'' = Inr (Some [3])"
    by (simp add: server_lookup_def at_fh_def mem_server_def mem_lookup_def sample_mem_def nilb_def)
  then have "resolved (server_lookup mem_server sample_mem) (server_attrs mem_server sample_mem) (RootFH sample_conn) ''d'' = Inr (Some [3], ?a)"
    by (simp add: resolved_def path_comps_def S(1) RootFH_def sample_conn_def)
  moreover have "fs_ValidPath ''d''" by code_simp
  moreover have "mem_listing sample_mem (nilb (Some [3])) = Some ?L" using d by (simp add: mem_listing_def nilb_def)
  ultimately have "\<exists>s'. FS_ReadDir sample_fs ''d'' (sample_conn, sample_store) =
      Some (Inr (map (\<lambda>e. Attributes_FileInfo (projr (server_attrs mem_server sample_mem (Some [2]))) (de_Name e)) (filter (\<lambda>e. \<not> dot_entry e) ?L)), s') \<and>
      in_use s' \<and> over_conn (\<lambda>s. s) s' = sample_mem"
    using FS_ReadDir_lists [OF mem_dirs.dir_server_axioms sample_conn_on sample_simps(1) [symmetric] sample_fs_simps(1,2),
        of "''d''" "Some [3]" ?a ?L "\<lambda>e. projr (server_attrs mem_server sample_mem (Some [2]))"]
      sample_entry_Decode by blast
  moreover have "map de_Name ?L = [''b'']" by (simp add: mem_entries_def split_beta)
  ultimately show ?thesis by (auto simp: dot_entry_def mem_entries_def split_beta)
qed

text \<open>The errors of the file system are what package \<open>os\<close> expects: a failed operation reports
  a \<open>PathError\<close> for its path whose error is the bare sentinel \<open>fs.ErrExist\<close>, \<open>fs.ErrNotExist\<close>,
  \<open>fs.ErrPermission\<close> or \<open>fs.ErrInvalid\<close> exactly when the status of the server is one of those that mean
  it, however deep the status is wrapped; every other status is kept and can be read back.\<close>

theorem pathError_canonical:
  assumes "errors_As_StatusError err = Some st" and "\<And>t. errors_Is err t = StatusError_Is st t"
  shows "pathError op name err = PathError op name
      (if st = NFS4ERR_EXIST then Sentinel ErrExist
       else if st \<in> {NFS4ERR_NOENT, NFS4ERR_STALE, NFS4ERR_FHEXPIRED, NFS4ERR_NOFILEHANDLE} then Sentinel ErrNotExist
       else if st \<in> {NFS4ERR_PERM, NFS4ERR_ACCESS, NFS4ERR_ROFS} then Sentinel ErrPermission
       else if st \<in> {NFS4ERR_INVAL, NFS4ERR_BADXDR, NFS4ERR_BADHANDLE, NFS4ERR_BADTYPE} then Sentinel ErrInvalid
       else err) \<and>
    errors_Is (pathError op name err) t = errors_Is err t"
  by (cases t) (auto simp: pathError_def canonicalSentinel_def assms)

theorem pathError_canonical_witness:
  "pathError ''open'' ''f'' (WrapF ''nfs4: OPEN: %w'' [] (StatusError NFS4ERR_ROFS)) = PathError ''open'' ''f'' (Sentinel ErrPermission)"
  using pathError_canonical [of "WrapF ''nfs4: OPEN: %w'' [] (StatusError NFS4ERR_ROFS)" NFS4ERR_ROFS] by simp

subsection \<open>Open directories and files\<close>

text \<open>Calling \<open>ReadDir(n)\<close> on an open directory again and again, at most \<open>i\<close> times, until an error.\<close>

fun dir_pages :: "nat \<Rightarrow> int \<Rightarrow> ('c, 'p) dirFile \<Rightarrow> 'p \<Rightarrow> (fileInfo list list \<times> goerror option \<times> 'p) option" where
  "dir_pages 0 n d s = Some ([], None, s)"
| "dir_pages (Suc i) n d s =
     do {
       (r, d, s) \<leftarrow> dirFile_ReadDir n d s;
       (case r of
          Inl err \<Rightarrow> Some ([], Some err, s)
        | Inr page \<Rightarrow>
            do {
              (pages, err, s) \<leftarrow> dir_pages i n d s;
              Some (page # pages, err, s)
            })
     }"

lemma dir_pages_read:
  assumes "0 < n" and "n < 2 ^ 62" and "length (df_entries d) < 2 ^ 62"
  shows "df_read d \<Longrightarrow> df_pos d \<le> length (df_entries d) \<Longrightarrow> length (df_entries d) - df_pos d < i \<Longrightarrow>
    \<exists>pages. dir_pages i n d s = Some (pages, Some (Sentinel EOF), s) \<and>
      concat pages = drop (df_pos d) (df_entries d) \<and> (\<forall>page \<in> set pages. page \<noteq> [] \<and> length page \<le> nat n)"
  using assms(3)
proof (induction i arbitrary: d)
  case 0
  then show ?case by simp
next
  case (Suc i)
  show ?case
  proof (cases "df_pos d = length (df_entries d)")
    case True
    then show ?thesis using Suc.prems assms(1) by (simp add: dirFile_ReadDir_def dirFile_take_def)
  next
    case False
    define e where "e = min (df_pos d + nat n) (length (df_entries d))"
    let ?d = "d\<lparr>df_pos := e\<rparr>"
    let ?page = "take (e - df_pos d) (drop (df_pos d) (df_entries d))"
    have e: "df_pos d < e" "e \<le> length (df_entries d)" using False Suc.prems(2) assms(1) by (auto simp: e_def)
    have "wrap64 (int (df_pos d) + n) = int (df_pos d) + n" using Suc.prems(2,4) assms(1,2) by (intro wrap64_id) auto
    then have "(let e = wrap64 (int (df_pos d) + n) in if e > int (length (df_entries d)) then int (length (df_entries d)) else e) = int e"
      using assms(1) by (auto simp: e_def Let_def)
    then have step: "dirFile_ReadDir n d s = Some (Inr ?page, ?d, s)"
      using False Suc.prems(1,2) assms(1) e by (auto simp: dirFile_ReadDir_def dirFile_take_def Let_def)
    have "length (df_entries ?d) - df_pos ?d < i" using Suc.prems(3) e by simp
    from Suc.IH [OF _ _ this] Suc.prems(1,4) e(2) obtain pages where
      p: "dir_pages i n ?d s = Some (pages, Some (Sentinel EOF), s)" "concat pages = drop e (df_entries d)"
        "\<forall>page \<in> set pages. page \<noteq> [] \<and> length page \<le> nat n" by auto
    have "?page @ drop e (df_entries d) = drop (df_pos d) (df_entries d)"
      using append_take_drop_id [of "e - df_pos d" "drop (df_pos d) (df_entries d)"] e(1) by simp
    moreover have "?page \<noteq> []" "length ?page \<le> nat n" using e False Suc.prems(2) by (auto simp: e_def)
    ultimately show ?thesis using step p by auto
  qed
qed

text \<open>C32: Reading an open directory in pages of a positive size gives every entry exactly once, in
  order, in non-empty pages of at most that size, and then \<open>io.EOF\<close>.\<close>

theorem dirFile_pages:
  assumes "dir_store (fs_proto (df_fsys d)) (fs_ctx (df_fsys d)) I view lk at tg ls vf" and "I s"
    and "ls (view s) (df_fh d) = Some L" and "entry_infos L = Inr infos"
    and "\<not> df_read d" and "df_pos d = 0" and "0 < n" and "n < 2 ^ 62" and "length infos < 2 ^ 62" and "length infos < i"
  shows "\<exists>pages s'. dir_pages i n d s = Some (pages, Some (Sentinel EOF), s') \<and> concat pages = infos \<and>
    (\<forall>page \<in> set pages. page \<noteq> [] \<and> length page \<le> nat n) \<and> view s' = view s"
proof -
  from dir_store.readDirAll_lists [OF assms(1) refl refl assms(2,3)] assms(4) obtain s' where
    r: "readDirAll (df_fsys d) (df_fh d) s = Some (Inr infos, s')" "view s' = view s" by auto
  let ?d = "d\<lparr>df_entries := infos, df_read := True\<rparr>"
  have "dirFile_ReadDir n d s = dirFile_ReadDir n ?d s'"
    using r(1) assms(5) by (simp add: dirFile_ReadDir_def)
  then have "dir_pages i n d s = dir_pages i n ?d s'" using assms(10) by (cases i) simp_all
  with dir_pages_read [OF assms(7,8), of ?d i s'] assms(6,9,10) r(2) show ?thesis by auto
qed

definition sample_dir :: "(mem wire goctx, mem wire Conn \<times> mem wire store) dirFile" where
  "sample_dir = \<lparr>df_fsys = sample_fs, df_fh = Some [3], df_name = ''d'', df_attrs = Attributes_zero, df_entries = [],
     df_read = False, df_pos = 0\<rparr>"

theorem dirFile_pages_witness:
  "\<exists>pages s'. dir_pages 2 1 sample_dir (sample_conn, sample_store) = Some (pages, Some (Sentinel EOF), s') \<and>
     map fi_name (concat pages) = [''b'']"
proof -
  let ?L = "mem_entries StandardMask sample_mem [(''b'', [2])]"
  have "dir_store (fs_proto (df_fsys sample_dir)) (fs_ctx (df_fsys sample_dir)) in_use (over_conn (\<lambda>s. s)) (server_lookup mem_server)
      (server_attrs mem_server) (server_target mem_server) (\<lambda>s fh. mem_listing s (nilb fh)) (\<lambda>s fh. zeros 8)"
    unfolding sample_dir_def dirFile.simps sample_fs_simps by (rule mem_dirs.conn_dir_store)
  moreover have "mem_listing (over_conn (\<lambda>s. s) (sample_conn, sample_store)) (nilb (df_fh sample_dir)) = Some ?L"
    by (simp add: mem_listing_def nilb_def sample_dir_def) (simp add: sample_mem_def)
  moreover obtain a where inf: "entry_infos ?L = Inr [Attributes_FileInfo a ''b'']"
    using entry_infos_all [of ?L "\<lambda>e. projr (server_attrs mem_server sample_mem (Some [2]))"] sample_entry_Decode
    by (simp add: mem_entries_def dot_entry_def split_beta)
  ultimately have "\<exists>pages s'. dir_pages 2 1 sample_dir (sample_conn, sample_store) = Some (pages, Some (Sentinel EOF), s') \<and>
      concat pages = [Attributes_FileInfo a ''b'']"
    using dirFile_pages [of sample_dir in_use "over_conn (\<lambda>s. s)" "server_lookup mem_server" "server_attrs mem_server"
        "server_target mem_server" "\<lambda>s fh. mem_listing s (nilb fh)" "\<lambda>s fh. zeros 8" "(sample_conn, sample_store)" ?L
        "[Attributes_FileInfo a ''b'']" 1 2]
    by (auto simp: sample_dir_def)
  then show ?thesis by (auto simp: Attributes_FileInfo_def)
qed

text \<open>A server that also reports the end of a file to a READ at or past it.\<close>

locale eof_store = file_store +
  assumes eof_at_end: "I s \<Longrightarrow> content s (nilb fh) = Some bs \<Longrightarrow> length bs \<le> unat off \<Longrightarrow> 0 < unat n \<Longrightarrow>
    pr_Read P ctx fh off n s = Some (Inr (data, eof), s') \<Longrightarrow> eof"
begin

lemma file_Read_step:
  assumes f: "fs_proto (ff_fsys f) = P" "fs_ctx (ff_fsys f) = ctx" "\<not> ff_eof f" and s: "I s" "content s (nilb (ff_fh f)) = Some bs"
    and off: "unat (ff_offset f) \<le> length bs" "length bs < 2 ^ 64" and p: "p \<noteq> []" "length p < 2 ^ 32"
  shows "\<exists>d f' s'. file_Read p f s = Some ((length d, if d = [] then Some (Sentinel EOF) else None), d @ drop (length d) p, f', s') \<and>
      I s' \<and> content s' = content s \<and> drop (unat (ff_offset f)) bs = d @ drop (unat (ff_offset f')) bs \<and>
      length d \<le> length p \<and> unat (ff_offset f') = unat (ff_offset f) + length d \<and> unat (ff_offset f') \<le> length bs \<and>
      ff_fsys f' = ff_fsys f \<and> ff_fh f' = ff_fh f \<and> (ff_eof f' \<or> d = [] \<longrightarrow> unat (ff_offset f') = length bs)"
proof -
  define want where "want = (if int (length p) > readBlock (ff_fsys f) then readBlock (ff_fsys f) else int (length p))"
  have w: "0 < want" "want \<le> int (length p)" using p(1) by (auto simp: want_def readBlock_def)
  then have n: "unat (word_of_int want :: u32) = nat want"
    using p(2) unat_word_of_nat_u32 [of "nat want"] by simp
  from rd [OF s, of "ff_offset f" "word_of_int want"] n w obtain k eof s1 where
    r: "pr_Read P ctx (ff_fh f) (ff_offset f) (word_of_int want) s = Some (Inr (chunk (unat (ff_offset f)) k bs, eof), s1)"
      "I s1" "content s1 = content s" "int k \<le> want" "0 < k" "eof \<longrightarrow> length bs \<le> unat (ff_offset f) + k"
    by auto
  define d where "d = chunk (unat (ff_offset f)) k bs"
  have len: "length d \<le> length p" "unat (ff_offset f) + length d \<le> length bs"
    using r(4) w(2) off(1) by (auto simp: d_def)
  have o: "unat (ff_offset f + word_of_nat (length d)) = unat (ff_offset f) + length d"
    using len(2) off(2) unat_word_of_nat_u64 [of "unat (ff_offset f) + length d"] by simp
  have "take (length d) (drop (unat (ff_offset f)) bs) = d" by (simp add: d_def chunk_def min_def)
  then have cut: "drop (unat (ff_offset f)) bs = d @ drop (unat (ff_offset f) + length d) bs"
    by (metis append_take_drop_id drop_drop add.commute)
  have fin: "eof \<Longrightarrow> unat (ff_offset f) + length d = length bs" using r(6) off(1) by (simp add: d_def)
  have end_eof: "eof" if "d = []"
    using that eof_at_end [OF s _ _ r(1)] n w(1) r(5) by (simp add: d_def chunk_def)
  define f' where "f' = (if eof then f\<lparr>ff_offset := ff_offset f + word_of_nat (length d)\<rparr>\<lparr>ff_eof := True\<rparr>
      else f\<lparr>ff_offset := ff_offset f + word_of_nat (length d)\<rparr>)"
  have "file_Read p f s = Some ((length d, if d = [] then Some (Sentinel EOF) else None), d @ drop (length d) p, f', s1)"
    using r(1) f len(1) end_eof unfolding file_Read_def Let_def want_def [symmetric] d_def [symmetric] f'_def
    by (simp add: go_copy_fits)
  moreover have "unat (ff_offset f') = unat (ff_offset f) + length d" "ff_fsys f' = ff_fsys f" "ff_fh f' = ff_fh f"
    "ff_eof f' \<longrightarrow> eof" using o f(3) by (simp_all add: f'_def)
  ultimately show ?thesis using r(2,3) len cut fin end_eof by metis
qed

end

text \<open>Reading an open file again and again with one buffer, at most \<open>i\<close> times, until an error.\<close>

fun drain :: "nat \<Rightarrow> bytes \<Rightarrow> ('c, 'p) rfile \<Rightarrow> 'p \<Rightarrow> (bytes list \<times> goerror option \<times> 'p) option" where
  "drain 0 p f s = Some ([], None, s)"
| "drain (Suc i) p f s =
     do {
       ((n, err), p', f, s) \<leftarrow> file_Read p f s;
       (case err of
          Some err \<Rightarrow> Some ([take n p'], Some err, s)
        | None \<Rightarrow>
            do {
              (rest, err, s) \<leftarrow> drain i p' f s;
              Some (take n p' # rest, err, s)
            })
     }"

context eof_store
begin

lemma drain_reads:
  assumes bs: "length bs < 2 ^ 64"
  shows "fs_proto (ff_fsys f) = P \<Longrightarrow> fs_ctx (ff_fsys f) = ctx \<Longrightarrow> I s \<Longrightarrow> content s (nilb (ff_fh f)) = Some bs \<Longrightarrow>
    unat (ff_offset f) \<le> length bs \<Longrightarrow> (ff_eof f \<longrightarrow> unat (ff_offset f) = length bs) \<Longrightarrow> p \<noteq> [] \<Longrightarrow> length p < 2 ^ 32 \<Longrightarrow>
    length bs - unat (ff_offset f) < i \<Longrightarrow>
    \<exists>parts s'. drain i p f s = Some (parts, Some (Sentinel EOF), s') \<and> concat parts = drop (unat (ff_offset f)) bs \<and> content s' = content s"
proof (induction i arbitrary: f p s)
  case 0
  then show ?case by simp
next
  case (Suc i)
  show ?case
  proof (cases "ff_eof f")
    case True
    then show ?thesis using Suc.prems by (simp add: file_Read_def)
  next
    case False
    from file_Read_step [OF Suc.prems(1,2) False Suc.prems(3-5) bs Suc.prems(7,8)] obtain d f' s' where
      r: "file_Read p f s = Some ((length d, if d = [] then Some (Sentinel EOF) else None), d @ drop (length d) p, f', s')"
        "I s'" "content s' = content s" "drop (unat (ff_offset f)) bs = d @ drop (unat (ff_offset f')) bs" "length d \<le> length p"
        "unat (ff_offset f') = unat (ff_offset f) + length d" "unat (ff_offset f') \<le> length bs"
        "ff_fsys f' = ff_fsys f" "ff_fh f' = ff_fh f" "ff_eof f' \<or> d = [] \<longrightarrow> unat (ff_offset f') = length bs"
      by (elim exE conjE) (rule that)
    let ?p = "d @ drop (length d) p"
    show ?thesis
    proof (cases "d = []")
      case True
      then show ?thesis using r(1-4,6,10) by simp
    next
      case dne: False
      have "length ?p = length p" "?p \<noteq> []" using r(5) dne by simp_all
      moreover have "length bs - unat (ff_offset f') < i" using Suc.prems(5,9) r(6,7) dne by (cases d) auto
      ultimately obtain parts s'' where "drain i ?p f' s' = Some (parts, Some (Sentinel EOF), s'')"
        "concat parts = drop (unat (ff_offset f')) bs" "content s'' = content s'"
        using Suc.IH [of f' s' ?p] Suc.prems(1,2,4,8) r(2,3,7-10) by auto
      then show ?thesis using r(1,3,4) dne by (intro exI [of _ "d # parts"] exI [of _ s'']) simp
    qed
  qed
qed

end

locale eof_server = file_server +
  assumes sv_eof: "content s fh = Some bs \<Longrightarrow> length bs \<le> unat off \<Longrightarrow> 0 < unat n \<Longrightarrow>
    snd (snd (sv_read sv fh AnonStateid off n s))"

sublocale eof_server \<subseteq> conn_eof: eof_store "conn_proto (env\<lparr>ev_base := serve sv\<rparr>)" calm_ctx in_use "over_conn content"
proof (unfold_locales, goal_cases)
  case (1 s fh bs off n data eof s')
  obtain c w where s: "s = (c, w)" by (metis prod.exhaust)
  with 1 have on: "conn_on c w" and bs: "content (wi_fs (st_world w)) (nilb fh) = Some bs"
    by (simp_all add: in_use_def over_conn_def)
  from Read_refines [OF on prompt refl, of env fh off n] 1(5) s
  have "fst (at_fh sv fh (wi_fs (st_world w)) (sv_read sv (nilb fh) AnonStateid off n (wi_fs (st_world w)), wi_fs (st_world w))) = Inr (data, eof)"
    by (auto simp: performs_def conn_proto_def with_conn_def)
  with sv_eof [OF bs 1(3,4)] show ?case by (auto simp: at_fh_def put [OF bs] split: if_splits prod.splits)
qed

context eof_server
begin

lemma conn_eof_store: "eof_store (conn_proto (env\<lparr>ev_base := serve sv\<rparr>)) calm_ctx in_use (over_conn content)"
  by unfold_locales

end

interpretation mem_eof: eof_server mem_server env mem_content for env
  by unfold_locales (simp add: mem_content_Reg mem_server_def mem_read_def)

text \<open>C33: Reading a file that \<open>Open\<close> returned from the start, with any non-empty buffer, gives
  the bytes of the file and then \<open>io.EOF\<close>, however many bytes the server sends at a time.\<close>

theorem file_Read_drains:
  assumes "eof_store (fs_proto (ff_fsys f)) (fs_ctx (ff_fsys f)) I content" and "I s" and "content s (nilb (ff_fh f)) = Some bs"
    and "ff_offset f = 0" and "\<not> ff_eof f" and "p \<noteq> []" and "length p < 2 ^ 32" and "length bs < 2 ^ 64" and "length bs < i"
  shows "\<exists>parts s'. drain i p f s = Some (parts, Some (Sentinel EOF), s') \<and> concat parts = bs \<and> content s' = content s"
  using eof_store.drain_reads [OF assms(1,8) refl refl assms(2,3), of p i] assms(4-7,9) by simp

theorem file_Read_drains_witness:
  "\<exists>parts s'. drain 4 [0, 0] \<lparr>ff_fsys = sample_fs, ff_fh = Some [2], ff_name = ''a'', ff_attrs = Attributes_zero, ff_offset = 0, ff_eof = False\<rparr>
      (sample_conn, sample_store) = Some (parts, Some (Sentinel EOF), s') \<and> concat parts = [10, 11, 12]"
proof -
  let ?f = "\<lparr>ff_fsys = sample_fs, ff_fh = Some [2], ff_name = ''a'', ff_attrs = Attributes_zero, ff_offset = 0, ff_eof = False\<rparr>"
  have "eof_store (fs_proto (ff_fsys ?f)) (fs_ctx (ff_fsys ?f)) in_use (over_conn mem_content)"
    unfolding rfile.simps sample_fs_simps by (rule mem_eof.conn_eof_store)
  then show ?thesis
    using file_Read_drains [of ?f in_use "over_conn mem_content" "(sample_conn, sample_store)" "[10, 11, 12]" "[0, 0]" 4]
    by (auto simp: nilb_def)
qed

end
