(* ===== verification/Client_Mount.thy ===== *)
theory Client_Mount
  imports FS_Props
begin

text \<open>
  Mounting a server and the views of it, \<open>src/client/client.go\<close>. A client holds a connection; its
  file systems are views over that connection, whose state is the connection and the store.
\<close>

subsection \<open>Options\<close>

record mountConfig =
  mc_minorVersion :: u32
  mc_auto :: bool

type_synonym MountOption = "mountConfig \<Rightarrow> mountConfig"

definition WithMinorVersion :: "u32 \<Rightarrow> MountOption" where
  "WithMinorVersion v c = c\<lparr>mc_minorVersion := v, mc_auto := False\<rparr>"

definition WithAutoMinorVersion :: MountOption where
  "WithAutoMinorVersion c = c\<lparr>mc_auto := True\<rparr>"

text \<open>The options applied in order to the zero configuration.\<close>

definition mount_config :: "MountOption list \<Rightarrow> mountConfig" where
  "mount_config opts = foldl (\<lambda>mc opt. opt mc) \<lparr>mc_minorVersion = 0, mc_auto = False\<rparr> opts"

text \<open>\<open>nfs4.ConnConfig{MinorVersion: v}\<close>.\<close>

definition ConnConfig_minor :: "u32 \<Rightarrow> 's ConnConfig" where
  "ConnConfig_minor v =
     \<lparr>cc_ClientName = [], cc_MinorVersion = v,
      cc_Retry = \<lparr>rc_Initial = 0, rc_Max = 0, rc_MaxAttempts = 0, rc_sleep = None\<rparr>\<rparr>"

subsection \<open>Clients\<close>

record 's Client =
  cl_conn :: "'s Conn"

definition client_Mount :: "'s env \<Rightarrow> 's goctx \<Rightarrow> string \<Rightarrow> string \<Rightarrow> OpaqueAuth \<Rightarrow> MountOption list \<Rightarrow> 's store \<Rightarrow>
    ((goerror + 's Client) \<times> 's store) option" where
  "client_Mount env ctx server export cred opts w =
     (let mc = mount_config opts
      in do {
        (r, w) \<leftarrow> (if mc_auto mc then DialAuto env ctx server cred (ConnConfig_minor 0) w
                   else Dial env ctx server cred (ConnConfig_minor (mc_minorVersion mc)) w);
        (case r of
           Inl err \<Rightarrow> Some (Inl err, w)
         | Inr conn \<Rightarrow>
             if export \<noteq> [] \<and> export \<noteq> ''/''
             then do {
               (r, w) \<leftarrow> LookupPath env ctx conn (strings_Split (strings_Trim export (CHR ''/'')) (CHR ''/'')) w;
               (case r of
                  Inl err \<Rightarrow>
                    do {
                      (_, w) \<leftarrow> Close env conn w;
                      Some (Inl err, w)
                    }
                | Inr fh \<Rightarrow> Some (Inr \<lparr>cl_conn = conn\<rparr>, w))
             }
             else Some (Inr \<lparr>cl_conn = conn\<rparr>, w))
      })"

definition client_Close :: "'s env \<Rightarrow> 's Client \<Rightarrow> 's store \<Rightarrow> (goerror option \<times> 's store) option" where
  "client_Close env c w = Close env (cl_conn c) w"

definition Client_FS :: "'s env \<Rightarrow> 's goctx \<Rightarrow> ('s goctx, 's Conn \<times> 's store) FS" where
  "Client_FS env ctx = FS_WithContext ctx (FS_New (ev_background env) (conn_proto env))"

definition Client_RWFS :: "'s env \<Rightarrow> 's goctx \<Rightarrow> ('s goctx, 's Conn \<times> 's store) RWFS" where
  "Client_RWFS env ctx = RWFS_WithContext ctx (NewRW (ev_background env) (conn_proto env))"

definition Client_Conn :: "'s Client \<Rightarrow> 's Conn" where
  "Client_Conn c = cl_conn c"

subsection \<open>Mounting\<close>

text \<open>Dialling with a fixed minor version a server that accepts the mount.\<close>

lemma Dial_new:
  assumes mv: "mv = 0 \<or> mv = 1" and sv: "never_delays sv" "ev_base env = serve sv"
    and dial: "ev_dial env calm_ctx address cred AuthNull w = (None, w0)" and rand: "ev_rand env w0 = (Inr verf, w0)"
    and mount: "mount_spec sv env (NewConn BaseCaller (ConnConfig_minor mv)) verf (wi_fs (st_world w0)) = (None, cid, s')"
  shows "\<exists>c w'. Dial env calm_ctx address cred (ConnConfig_minor mv) w = Some (Inr c, w') \<and>
    conn_on c w' \<and> wi_fs (st_world w') = s' \<and> RootFH c = Some (sv_root sv s') \<and> MinorVersion c = mv \<and> cn_rpc c"
proof -
  have E: "env\<lparr>ev_base := serve sv\<rparr> = env" using sv(2) by (cases env) simp
  have "cc_MinorVersion (ConnConfig_minor mv :: 'a wire ConnConfig) = 0 \<or> cc_MinorVersion (ConnConfig_minor mv :: 'a wire ConnConfig) = 1"
    using mv by (simp add: ConnConfig_minor_def)
  from Mount_new [OF this sv(1) rand mount] obtain c w' where
    c: "Mount env calm_ctx (NewConn BaseCaller (ConnConfig_minor mv)) w0 = Some (None, c, w')"
      "wi_fs (st_world w') = s'" "conn_on c w'" "RootFH c = Some (sv_root sv s')"
    unfolding E by blast
  have "MinorVersion (c\<lparr>cn_rpc := True\<rparr>) = mv"
    using Mount_cfg [OF c(1)] by (simp add: MinorVersion_def NewConn_def ConnConfig_minor_def)
  moreover have "conn_on (c\<lparr>cn_rpc := True\<rparr>) w'" "RootFH (c\<lparr>cn_rpc := True\<rparr>) = Some (sv_root sv s')"
    using c(3,4) by (simp_all add: conn_on_def RootFH_def)
  moreover have "Dial env calm_ctx address cred (ConnConfig_minor mv) w = Some (Inr (c\<lparr>cn_rpc := True\<rparr>), w')"
    using dial c(1) by (simp add: Dial_def)
  ultimately show ?thesis using c(2) by (intro exI [of _ "c\<lparr>cn_rpc := True\<rparr>"] exI [of _ w']) simp
qed

text \<open>
  What a mount leads to. The handle the export is found at is not kept: whatever the export, the file systems of
  the client are rooted at the root of the server.
\<close>

lemma client_Mount_root:
  assumes "mount_config opts = \<lparr>mc_minorVersion = mv, mc_auto = False\<rparr>" and "mv = 0 \<or> mv = 1"
    and "never_delays sv" and "ev_base env = serve sv"
    and "ev_dial env calm_ctx server cred AuthNull w = (None, w0)" and "ev_rand env w0 = (Inr verf, w0)"
    and "mount_spec sv env (NewConn BaseCaller (ConnConfig_minor mv)) verf (wi_fs (st_world w0)) = (None, cid, s')"
    and "found = (if export = [] \<or> export = ''/'' then Inr (Some (sv_root sv s'))
           else walk sv s' (Some (sv_root sv s'))
             (filter (\<lambda>n. n \<noteq> [] \<and> n \<noteq> ''.'') (strings_Split (strings_Trim export (CHR ''/'')) (CHR ''/''))))"
  shows "case found of
      Inl err \<Rightarrow>
        (\<exists>c w1. client_Mount env calm_ctx server export cred opts w = map_option (\<lambda>(_, w'). (Inl err, w')) (Close env c w1) \<and>
           conn_on c w1 \<and> wi_fs (st_world w1) = s')
    | Inr fh \<Rightarrow>
        (\<exists>c w'. client_Mount env calm_ctx server export cred opts w = Some (Inr c, w') \<and> conn_on (Client_Conn c) w' \<and>
           wi_fs (st_world w') = s' \<and> MinorVersion (Client_Conn c) = mv \<and>
           pr_RootFH (fs_proto (Client_FS env calm_ctx)) (Client_Conn c, w') = Some (sv_root sv s') \<and>
           pr_RootFH (rw_proto (Client_RWFS env calm_ctx)) (Client_Conn c, w') = Some (sv_root sv s'))"
proof -
  have E: "env\<lparr>ev_base := serve sv\<rparr> = env" using assms(4) by (cases env) simp
  from Dial_new [OF assms(2-7)] obtain c w1 where
    c: "Dial env calm_ctx server cred (ConnConfig_minor mv) w = Some (Inr c, w1)" "conn_on c w1" "wi_fs (st_world w1) = s'"
      "RootFH c = Some (sv_root sv s')" "MinorVersion c = mv" by blast
  have root: "pr_RootFH (fs_proto (Client_FS env calm_ctx)) (c, w) = RootFH c"
    "pr_RootFH (rw_proto (Client_RWFS env calm_ctx)) (c, w) = RootFH c" for w
    by (simp_all add: Client_FS_def FS_WithContext_def FS_New_def Client_RWFS_def RWFS_WithContext_def NewRW_def conn_proto_def)
  show ?thesis
  proof (cases "export = [] \<or> export = ''/''")
    case True
    then have "client_Mount env calm_ctx server export cred opts w = Some (Inr \<lparr>cl_conn = c\<rparr>, w1)"
      using c(1) assms(1) by (auto simp: client_Mount_def)
    then show ?thesis using True c assms(8) root by (auto simp: Client_Conn_def)
  next
    case False
    let ?comps = "strings_Split (strings_Trim export (CHR ''/'')) (CHR ''/'')"
    from LookupPath_refines [OF c(2) assms(3) c(3) [symmetric], of env ?comps] False assms(8) c(4) obtain w2 where
      l: "LookupPath env calm_ctx c ?comps w1 = Some (found, w2)" "wi_fs (st_world w2) = s'" "conn_on c w2"
      unfolding E by (auto simp: performs_def)
    show ?thesis
    proof (cases found)
      case (Inl err)
      then have "client_Mount env calm_ctx server export cred opts w = map_option (\<lambda>(_, w'). (Inl err, w')) (Close env c w2)"
        using False c(1) l(1) assms(1) by (cases "Close env c w2") (auto simp: client_Mount_def)
      then show ?thesis using Inl l by auto
    next
      case (Inr fh)
      then have "client_Mount env calm_ctx server export cred opts w = Some (Inr \<lparr>cl_conn = c\<rparr>, w2)"
        using False c(1) l(1) assms(1) by (simp add: client_Mount_def)
      then show ?thesis using Inr l c(4,5) root by (auto simp: Client_Conn_def)
    qed
  qed
qed

subsection \<open>Properties\<close>



end
