(* ===== verification/Lease.thy ===== *)
theory Lease
  imports Client_Mount "HOL-Library.AList" "HOL-Library.Multiset"
begin

text \<open>
  The lease manager, \<open>src/client/lease.go\<close>: the table of tracked stateids, recovery with one retry, the
  renewal loop, and starting and stopping it. Methods under the mutex are functions on the manager's
  record. \<open>Renew\<close>, \<open>Recover\<close> and the function given to \<open>WithRetry\<close> act on a state \<open>'p\<close>; \<open>None\<close> means that
  a call never returns. The \<open>select\<close> of the loop is a parameter: it is given the renewal interval
  and says whether the stop channel or the timer was chosen.
\<close>

subsection \<open>State\<close>

type_synonym StateidHandle = u64

type_synonym ('c, 'p) effect = "'c \<Rightarrow> 'p \<Rightarrow> (goerror option \<times> 'p) option"

record ('c, 'p) LeaseConfig =
  lc_LeasePeriod :: int
  lc_Renew :: "('c, 'p) effect"
  lc_Recover :: "('c, 'p) effect"

record trackedStateid =
  ts_key :: string
  ts_sid :: Stateid

text \<open>The channels are kept as whether they are closed.\<close>

record ('c, 'p) LeaseManager =
  lm_cfg :: "('c, 'p) LeaseConfig"
  lm_stopCh :: bool
  lm_doneCh :: bool
  lm_nextH :: StateidHandle
  lm_stateids :: "(StateidHandle \<times> trackedStateid) list"

definition NewLeaseManager :: "('c, 'p) LeaseConfig \<Rightarrow> ('c, 'p) LeaseManager" where
  "NewLeaseManager cfg =
     \<lparr>lm_cfg = (if lc_LeasePeriod cfg \<le> 0 then cfg\<lparr>lc_LeasePeriod := 90 * 1000000000\<rparr> else cfg),
      lm_stopCh = False, lm_doneCh = False, lm_nextH = 0, lm_stateids = []\<rparr>"

text \<open>\<open>LeasePeriod * 2 / 3\<close>: the product wraps, the quotient is truncated towards zero.\<close>

definition renewInterval :: "('c, 'p) LeaseManager \<Rightarrow> int" where
  "renewInterval lm =
     (let x = wrap64 (lc_LeasePeriod (lm_cfg lm) * 2) in if x < 0 then - ((- x) div 3) else x div 3)"

subsection \<open>Recovery\<close>

definition isClientStateLost :: "goerror \<Rightarrow> bool" where
  "isClientStateLost err =
     (case errors_As_StatusError err of
        None \<Rightarrow> False
      | Some st \<Rightarrow> st = NFS4ERR_STALE_CLIENTID \<or> st = NFS4ERR_STALE_STATEID \<or> st = NFS4ERR_BAD_STATEID \<or> st = NFS4ERR_EXPIRED)"

definition WithRetry :: "('c, 'p) LeaseManager \<Rightarrow> 'c \<Rightarrow> ('c, 'p) effect \<Rightarrow> 'p \<Rightarrow> (goerror option \<times> 'p) option" where
  "WithRetry lm ctx f s =
     do {
       (err, s) \<leftarrow> f ctx s;
       (case err of
          None \<Rightarrow> Some (None, s)
        | Some e \<Rightarrow>
            if \<not> isClientStateLost e then Some (Some e, s)
            else do {
              (rerr, s) \<leftarrow> lc_Recover (lm_cfg lm) ctx s;
              (case rerr of Some e \<Rightarrow> Some (Some e, s) | None \<Rightarrow> f ctx s)
            })
     }"

subsection \<open>Tracked stateids\<close>

definition TrackStateid :: "string \<Rightarrow> Stateid \<Rightarrow> ('c, 'p) LeaseManager \<Rightarrow> StateidHandle \<times> ('c, 'p) LeaseManager" where
  "TrackStateid key sid lm =
     (let h = lm_nextH lm + 1
      in (h, lm\<lparr>lm_nextH := h, lm_stateids := AList.update h \<lparr>ts_key = key, ts_sid = sid\<rparr> (lm_stateids lm)\<rparr>))"

definition LeaseManager_Stateid :: "StateidHandle \<Rightarrow> ('c, 'p) LeaseManager \<Rightarrow> Stateid" where
  "LeaseManager_Stateid h lm = (case map_of (lm_stateids lm) h of Some t \<Rightarrow> ts_sid t | None \<Rightarrow> Stateid_zero)"

definition ReissueStateid :: "StateidHandle \<Rightarrow> Stateid \<Rightarrow> ('c, 'p) LeaseManager \<Rightarrow> ('c, 'p) LeaseManager" where
  "ReissueStateid h sid lm =
     (case map_of (lm_stateids lm) h of
        Some t \<Rightarrow> lm\<lparr>lm_stateids := AList.update h (t\<lparr>ts_sid := sid\<rparr>) (lm_stateids lm)\<rparr>
      | None \<Rightarrow> lm)"

definition ForgetStateid :: "StateidHandle \<Rightarrow> ('c, 'p) LeaseManager \<Rightarrow> ('c, 'p) LeaseManager" where
  "ForgetStateid h lm = lm\<lparr>lm_stateids := AList.delete h (lm_stateids lm)\<rparr>"

text \<open>A map is iterated in an order of the runtime's choice, the parameter \<open>order\<close>.\<close>

definition TrackedKeys :: "(string list \<Rightarrow> string list) \<Rightarrow> ('c, 'p) LeaseManager \<Rightarrow> string list" where
  "TrackedKeys order lm = order (map (\<lambda>(h, t). ts_key t) (lm_stateids lm))"

subsection \<open>The renewal loop\<close>

text \<open>What the loop does when the timer fires.\<close>

definition renew_once :: "('c, 'p) LeaseManager \<Rightarrow> 'c \<Rightarrow> 'p \<Rightarrow> 'p option" where
  "renew_once lm background s =
     do {
       (err, s) \<leftarrow> lc_Renew (lm_cfg lm) background s;
       (case err of
          None \<Rightarrow> Some s
        | Some e \<Rightarrow>
            if isClientStateLost e
            then do {
              (_, s) \<leftarrow> lc_Recover (lm_cfg lm) background s;
              Some s
            }
            else Some s)
     }"

datatype choice = StopChosen | TimerChosen

partial_function (option) lease_loop ::
  "(int \<Rightarrow> 'e \<Rightarrow> (choice \<times> 'e) option) \<Rightarrow> ('c, 'p) LeaseManager \<Rightarrow> 'c \<Rightarrow> 'e \<Rightarrow> 'p \<Rightarrow> ('e \<times> 'p) option" where
  "lease_loop sel lm background e s =
     do {
       (ch, e) \<leftarrow> sel (renewInterval lm) e;
       (case ch of
          StopChosen \<Rightarrow> Some (e, s)
        | TimerChosen \<Rightarrow>
            do {
              s \<leftarrow> renew_once lm background s;
              lease_loop sel lm background e s
            })
     }"

text \<open>
  Starting and stopping, with any number of goroutines that call \<open>Start\<close> and \<open>Stop\<close>: the renewal loops
  that run, and the callers of \<open>Stop\<close> that wait. Closing the closed channel \<open>doneCh\<close> panics.
\<close>

datatype loop_pc = Selecting | Renewing | Exited

record ('c, 'p) lease_run =
  lr_lm :: "('c, 'p) LeaseManager"
  lr_loops :: "loop_pc list"
  lr_stops :: "bool list"
  lr_panic :: bool

definition lease_init :: "('c, 'p) LeaseConfig \<Rightarrow> ('c, 'p) lease_run" where
  "lease_init cfg = \<lparr>lr_lm = NewLeaseManager cfg, lr_loops = [], lr_stops = [], lr_panic = False\<rparr>"

inductive lease_step :: "('c, 'p) lease_run \<Rightarrow> ('c, 'p) lease_run \<Rightarrow> bool" where
  start: "lease_step r (r\<lparr>lr_loops := lr_loops r @ [Selecting]\<rparr>)"
| fire: "i < length (lr_loops r) \<Longrightarrow> lr_loops r ! i = Selecting \<Longrightarrow> lease_step r (r\<lparr>lr_loops := (lr_loops r)[i := Renewing]\<rparr>)"
| renewed: "i < length (lr_loops r) \<Longrightarrow> lr_loops r ! i = Renewing \<Longrightarrow> lease_step r (r\<lparr>lr_loops := (lr_loops r)[i := Selecting]\<rparr>)"
| leave: "i < length (lr_loops r) \<Longrightarrow> lr_loops r ! i = Selecting \<Longrightarrow> lm_stopCh (lr_lm r) \<Longrightarrow>
    lease_step r (r\<lparr>lr_loops := (lr_loops r)[i := Exited], lr_lm := (lr_lm r)\<lparr>lm_doneCh := True\<rparr>,
                    lr_panic := lr_panic r \<or> lm_doneCh (lr_lm r)\<rparr>)"
| stop: "lease_step r (r\<lparr>lr_lm := (lr_lm r)\<lparr>lm_stopCh := True\<rparr>, lr_stops := lr_stops r @ [False]\<rparr>)"
| stopped: "i < length (lr_stops r) \<Longrightarrow> lm_doneCh (lr_lm r) \<Longrightarrow> lease_step r (r\<lparr>lr_stops := (lr_stops r)[i := True]\<rparr>)"
| stop_timeout: "i < length (lr_stops r) \<Longrightarrow> lease_step r (r\<lparr>lr_stops := (lr_stops r)[i := True]\<rparr>)"

inductive_cases lease_stepE: "lease_step r r'"

subsection \<open>Lemmas\<close>

text \<open>The operations on the table, in any order.\<close>

datatype lm_op = OTrack string Stateid | OReissue StateidHandle Stateid | OForget StateidHandle

fun lm_run :: "lm_op list \<Rightarrow> ('c, 'p) LeaseManager \<Rightarrow> StateidHandle list \<times> ('c, 'p) LeaseManager" where
  "lm_run [] lm = ([], lm)"
| "lm_run (OTrack key sid # ops) lm =
     (case TrackStateid key sid lm of (h, lm) \<Rightarrow> (case lm_run ops lm of (hs, lm) \<Rightarrow> (h # hs, lm)))"
| "lm_run (OReissue h sid # ops) lm = lm_run ops (ReissueStateid h sid lm)"
| "lm_run (OForget h # ops) lm = lm_run ops (ForgetStateid h lm)"

text \<open>The table after \<open>n\<close> handles were given out has each handle once, and only handles that were given out.\<close>

definition handles :: "('c, 'p) LeaseManager \<Rightarrow> StateidHandle set" where
  "handles lm = fst ` set (lm_stateids lm)"

definition lm_wf :: "nat \<Rightarrow> ('c, 'p) LeaseManager \<Rightarrow> bool" where
  "lm_wf n lm \<longleftrightarrow> lm_nextH lm = word_of_nat n \<and> distinct (map fst (lm_stateids lm)) \<and>
     (\<forall>h \<in> handles lm. 0 < unat h \<and> unat h \<le> n)"

lemma handles_Track: "handles (snd (TrackStateid key sid lm)) = insert (lm_nextH lm + 1) (handles lm)"
  by (simp add: handles_def TrackStateid_def Let_def dom_update)

lemma handles_Reissue: "handles (ReissueStateid h sid lm) = handles lm"
  using map_of_eq_None_iff [of "lm_stateids lm" h]
  by (auto simp: handles_def ReissueStateid_def dom_update split: option.splits)

lemma handles_Forget: "handles (ForgetStateid h lm) \<subseteq> handles lm"
  by (simp add: handles_def ForgetStateid_def dom_delete_subset)

lemma lm_wf_New: "lm_wf 0 (NewLeaseManager cfg)"
  by (simp add: lm_wf_def handles_def NewLeaseManager_def)

lemma Track_handle: "lm_wf n lm \<Longrightarrow> fst (TrackStateid key sid lm) = word_of_nat (Suc n)"
  by (simp add: lm_wf_def TrackStateid_def Let_def)

lemma lm_wf_Track:
  assumes "lm_wf n lm" and "Suc n < 2 ^ 64"
  shows "lm_wf (Suc n) (snd (TrackStateid key sid lm))"
proof -
  have u: "unat (word_of_nat (Suc n) :: u64) = Suc n" using assms(2) by (rule unat_word_of_nat_u64)
  have "word_of_nat n + 1 = (word_of_nat (Suc n) :: u64)" by simp
  then show ?thesis
    using assms(1) u unfolding lm_wf_def handles_Track
    by (auto simp: TrackStateid_def Let_def distinct_update simp del: of_nat_Suc)
qed

lemma lm_wf_Reissue: "lm_wf n lm \<Longrightarrow> lm_wf n (ReissueStateid h sid lm)"
  unfolding lm_wf_def handles_Reissue by (auto simp: ReissueStateid_def distinct_update split: option.splits)

lemma lm_wf_Forget: "lm_wf n lm \<Longrightarrow> lm_wf n (ForgetStateid h lm)"
  using handles_Forget [of h lm] unfolding lm_wf_def by (auto simp: ForgetStateid_def distinct_delete)

lemma lm_run_wf:
  "lm_wf n lm \<Longrightarrow> n + length ops < 2 ^ 64 \<Longrightarrow> lm_run ops lm = (hs, lm') \<Longrightarrow>
   lm_wf (n + length hs) lm' \<and> hs = map word_of_nat [Suc n..<Suc (n + length hs)] \<and> length hs \<le> length ops"
proof (induction ops lm arbitrary: n hs lm' rule: lm_run.induct)
  case (1 lm)
  then show ?case by simp
next
  case (2 key sid ops lm)
  obtain h lm1 where t: "TrackStateid key sid lm = (h, lm1)" by (metis prod.exhaust)
  obtain hs1 where r: "lm_run ops lm1 = (hs1, lm')" "hs = h # hs1" using "2.prems"(3) t by (auto split: prod.splits)
  have "lm_wf (Suc n) lm1" "h = word_of_nat (Suc n)"
    using lm_wf_Track [OF "2.prems"(1), of key sid] Track_handle [OF "2.prems"(1), of key sid] "2.prems"(2) t by simp_all
  with "2.IH" [OF t [symmetric] this(1) _ r(1)] "2.prems"(2) r(2) show ?case
    by (simp add: upt_conv_Cons del: upt_Suc)
next
  case (3 h sid ops lm)
  then show ?case using lm_wf_Reissue [OF "3.prems"(1), of h sid] by fastforce
next
  case (4 h ops lm)
  then show ?case using lm_wf_Forget [OF "4.prems"(1), of h] by fastforce
qed

lemma mset_update_new:
  "h \<notin> fst ` set al \<Longrightarrow> mset (map (\<lambda>(h, t). f t) (AList.update h t al)) = add_mset (f t) (mset (map (\<lambda>(h, t). f t) al))"
  by (induction al) auto

lemma map_update_same:
  "map_of al h = Some t \<Longrightarrow> f t' = f t \<Longrightarrow> map (\<lambda>(h, t). f t) (AList.update h t' al) = map (\<lambda>(h, t). f t) al"
  by (induction al) (auto split: if_splits)

subsection \<open>Properties\<close>

text \<open>C39: The table of stateids after any sequence of fewer than 2^64 operations: the handles given
  out are non-zero and pairwise different, and \<open>TrackStateid\<close> gives a new one under which exactly the
  given stateid and key are found; \<open>ReissueStateid\<close> replaces the stateid of a tracked handle and does
  nothing for another; \<open>ForgetStateid\<close> removes the handle; none of them touches another handle; and
  \<open>TrackedKeys\<close> has one key per tracked handle.\<close>

theorem lease_table:
  assumes "lm_run ops (NewLeaseManager cfg) = (hs, lm)" and "Suc (length ops) < 2 ^ 64" and "\<And>xs. mset (order xs) = mset xs"
    and "TrackStateid key sid lm = (h, lm')"
  shows "distinct hs \<and> 0 \<notin> set hs \<and> h \<notin> insert 0 (set hs) \<and> handles lm \<subseteq> set hs \<and>
    (\<forall>g. map_of (lm_stateids lm') g = (if g = h then Some \<lparr>ts_key = key, ts_sid = sid\<rparr> else map_of (lm_stateids lm) g)) \<and>
    mset (TrackedKeys order lm') = add_mset key (mset (TrackedKeys order lm)) \<and>
    (\<forall>g. LeaseManager_Stateid g (ReissueStateid k sid lm) =
       (if g = k \<and> k \<in> handles lm then sid else LeaseManager_Stateid g lm)) \<and>
    mset (TrackedKeys order (ReissueStateid k sid lm)) = mset (TrackedKeys order lm) \<and>
    (\<forall>g. LeaseManager_Stateid g (ForgetStateid k lm) = (if g = k then Stateid_zero else LeaseManager_Stateid g lm)) \<and>
    handles (ForgetStateid k lm) = handles lm - {k}"
proof -
  have run: "lm_wf (length hs) lm" "hs = map word_of_nat [Suc 0..<Suc (length hs)]" "length hs \<le> length ops"
    using lm_run_wf [OF lm_wf_New _ assms(1)] assms(2) by simp_all
  have u: "unat (word_of_nat i :: u64) = i" if "i \<le> Suc (length hs)" for i
    using that assms(2) run(3) by (intro unat_word_of_nat_u64) simp
  have mem: "g \<in> set hs \<longleftrightarrow> 0 < unat g \<and> unat g \<le> length hs" for g
  proof
    assume "g \<in> set hs"
    then obtain i where "g = word_of_nat i" "0 < i" "i \<le> length hs" by (subst (asm) run(2)) (auto simp del: upt_Suc)
    then show "0 < unat g \<and> unat g \<le> length hs" using u [of i] by simp
  next
    assume "0 < unat g \<and> unat g \<le> length hs"
    then have "unat g \<in> {Suc 0..<Suc (length hs)}" by simp
    then have "(word_of_nat (unat g) :: u64) \<in> word_of_nat ` {Suc 0..<Suc (length hs)}" by (rule imageI)
    then show "g \<in> set hs" by (subst run(2)) (simp del: upt_Suc)
  qed
  have "distinct hs"
    by (subst run(2), subst distinct_map) (auto intro: inj_on_inverseI [of _ unat] simp: u simp del: upt_Suc)
  moreover have "h = word_of_nat (Suc (length hs))" using Track_handle [OF run(1), of key sid] assms(4) by simp
  then have h: "unat h = Suc (length hs)" using u [of "Suc (length hs)"] by simp
  then have "0 \<notin> set hs" "h \<notin> insert 0 (set hs)" unfolding insert_iff mem by auto
  moreover have sub: "handles lm \<subseteq> set hs" using run(1) unfolding lm_wf_def subset_iff mem by blast
  then have "h \<notin> handles lm" using h mem by auto
  then have "mset (TrackedKeys order lm') = add_mset key (mset (TrackedKeys order lm))"
    using assms(4) mset_update_new [of h "lm_stateids lm" ts_key "\<lparr>ts_key = key, ts_sid = sid\<rparr>"]
    by (auto simp: TrackedKeys_def TrackStateid_def Let_def assms(3) handles_def)
  moreover have "\<forall>g. map_of (lm_stateids lm') g = (if g = h then Some \<lparr>ts_key = key, ts_sid = sid\<rparr> else map_of (lm_stateids lm) g)"
    using assms(4) by (auto simp: TrackStateid_def Let_def update_conv)
  moreover have "\<forall>g. LeaseManager_Stateid g (ReissueStateid k sid lm) = (if g = k \<and> k \<in> handles lm then sid else LeaseManager_Stateid g lm)"
    using map_of_eq_None_iff [of "lm_stateids lm" k]
    by (auto simp: LeaseManager_Stateid_def ReissueStateid_def update_conv handles_def split: option.splits)
  moreover have "mset (TrackedKeys order (ReissueStateid k sid lm)) = mset (TrackedKeys order lm)"
    by (cases "map_of (lm_stateids lm) k") (simp_all add: TrackedKeys_def ReissueStateid_def assms(3) map_update_same)
  moreover have "\<forall>g. LeaseManager_Stateid g (ForgetStateid k lm) = (if g = k then Stateid_zero else LeaseManager_Stateid g lm)"
    by (simp add: LeaseManager_Stateid_def ForgetStateid_def delete_conv)
  moreover have "handles (ForgetStateid k lm) = handles lm - {k}"
    by (simp add: handles_def ForgetStateid_def delete_conv' flip: dom_map_of_conv_image_fst)
  ultimately show ?thesis using sub by (intro conjI)
qed

definition sample_lease :: "(unit, unit) LeaseConfig" where
  "sample_lease = \<lparr>lc_LeasePeriod = 30, lc_Renew = (\<lambda>ctx s. Some (None, s)), lc_Recover = (\<lambda>ctx s. Some (None, s))\<rparr>"

theorem lease_table_witness:
  "\<exists>hs lm. lm_run [OTrack ''a'' Stateid_zero, OForget 1, OTrack ''b'' Stateid_zero] (NewLeaseManager sample_lease) = (hs, lm) \<and>
     distinct hs \<and> mset (TrackedKeys rev (snd (TrackStateid ''c'' Stateid_zero lm))) = add_mset ''c'' (mset (TrackedKeys rev lm))"
proof -
  let ?ops = "[OTrack ''a'' Stateid_zero, OForget 1, OTrack ''b'' Stateid_zero]"
  obtain hs lm where run: "lm_run ?ops (NewLeaseManager sample_lease) = (hs, lm)" by (metis prod.exhaust)
  obtain h lm' where t: "TrackStateid ''c'' Stateid_zero lm = (h, lm')" by (metis prod.exhaust)
  have "Suc (length ?ops) < 2 ^ 64" by simp
  then have "distinct hs \<and> mset (TrackedKeys rev lm') = add_mset ''c'' (mset (TrackedKeys rev lm))"
    using lease_table [OF run _ _ t, of rev] mset_rev by blast
  then have "distinct hs \<and> mset (TrackedKeys rev (snd (TrackStateid ''c'' Stateid_zero lm))) = add_mset ''c'' (mset (TrackedKeys rev lm))"
    unfolding t snd_conv .
  with run show ?thesis by blast
qed

definition next_choice :: "int \<Rightarrow> choice list \<Rightarrow> (choice \<times> choice list) option" where
  "next_choice d cs = (case cs of [] \<Rightarrow> None | c # cs \<Rightarrow> Some (c, cs))"

lemma next_choice_Cons [simp]: "next_choice d (c # cs) = Some (c, cs)"
  by (simp add: next_choice_def)

fun renewals :: "nat \<Rightarrow> ('c, 'p) LeaseManager \<Rightarrow> 'c \<Rightarrow> 'p \<Rightarrow> 'p option" where
  "renewals 0 lm ctx s = Some s"
| "renewals (Suc k) lm ctx s =
     do {
       (err, s) \<leftarrow> lc_Renew (lm_cfg lm) ctx s;
       s \<leftarrow> (case err of
              Some e \<Rightarrow> if isClientStateLost e then map_option snd (lc_Recover (lm_cfg lm) ctx s) else Some s
            | None \<Rightarrow> Some s);
       renewals k lm ctx s
     }"

lemma lease_loop_script:
  "lease_loop next_choice lm ctx (replicate k TimerChosen @ StopChosen # rest) s = map_option (Pair rest) (renewals k lm ctx s)"
proof (induction k arbitrary: s)
  case 0
  show ?case by (subst lease_loop.simps) simp
next
  case (Suc k)
  have "renew_once lm ctx s = do {
       (err, s) \<leftarrow> lc_Renew (lm_cfg lm) ctx s;
       (case err of
          Some e \<Rightarrow> if isClientStateLost e then map_option snd (lc_Recover (lm_cfg lm) ctx s) else Some s
        | None \<Rightarrow> Some s)
     }"
    by (auto simp: renew_once_def split: Option.bind_splits option.splits prod.splits)
  with Suc.IH show ?case
    by (subst lease_loop.simps) (auto simp: map_option_bind split: Option.bind_splits prod.splits)
qed

text \<open>C38: The renewal interval is two thirds of the lease period, so a renewal always falls into
  the lease (for periods up to 2^62 nanoseconds; without a period it is 90 seconds). When the timer
  fires \<open>k\<close> times and then the manager is stopped, the loop ends after exactly \<open>k\<close> renewals, each
  followed by a recovery exactly when the server said it lost the client's state.\<close>

theorem lease_loop_renews:
  fixes cfg :: "('c, 'p) LeaseConfig"
  assumes "lm = NewLeaseManager cfg" and "lc_LeasePeriod cfg \<le> 2 ^ 62 - 1"
    and "period = (if lc_LeasePeriod cfg \<le> 0 then 90000000000 else lc_LeasePeriod cfg)"
  shows "0 \<le> renewInterval lm \<and> 3 * renewInterval lm \<le> 2 * period \<and> 2 * period < 3 * renewInterval lm + 3 \<and> renewInterval lm < period \<and>
    lease_loop next_choice lm ctx (replicate k TimerChosen @ StopChosen # rest) s = map_option (Pair rest) (renewals k lm ctx s)"
proof -
  have p: "lc_LeasePeriod (lm_cfg lm) = period" "0 < period" "period \<le> 2 ^ 62 - 1"
    using assms by (auto simp: NewLeaseManager_def)
  then have "wrap64 (period * 2) = period * 2" by simp
  then have "renewInterval lm = period * 2 div 3" using p by (simp add: renewInterval_def)
  moreover have "0 \<le> period * 2 div 3 \<and> 3 * (period * 2 div 3) \<le> 2 * period \<and> 2 * period < 3 * (period * 2 div 3) + 3 \<and> period * 2 div 3 < period"
    using p(2) by presburger
  ultimately show ?thesis using lease_loop_script by simp
qed

theorem lease_loop_renews_witness:
  "renewInterval (NewLeaseManager sample_lease) = 20 \<and>
   lease_loop next_choice (NewLeaseManager sample_lease) () [TimerChosen, StopChosen] () = Some ([], ())"
proof -
  have "lc_LeasePeriod sample_lease \<le> 2 ^ 62 - 1" by (simp add: sample_lease_def)
  from lease_loop_renews [OF refl this refl, of "()" 1 "[]" "()"] show ?thesis
    by (simp add: sample_lease_def NewLeaseManager_def)
qed

text \<open>The manager of a connection: \<open>Renew\<close> and \<open>Mount\<close> of the connection as \<open>Renew\<close> and \<open>Recover\<close>.\<close>

definition conn_lease :: "'s env \<Rightarrow> int \<Rightarrow> ('s goctx, 's Conn \<times> 's store) LeaseConfig" where
  "conn_lease env period =
     \<lparr>lc_LeasePeriod = period,
      lc_Renew = (\<lambda>ctx (c, w). with_conn c (Renew env ctx c w)),
      lc_Recover = (\<lambda>ctx (c, w). Mount env ctx c w)\<rparr>"

lemma lease_manager_cfg [simp]:
  "lc_Renew (lm_cfg (NewLeaseManager cfg)) = lc_Renew cfg" "lc_Recover (lm_cfg (NewLeaseManager cfg)) = lc_Recover cfg"
  by (simp_all add: NewLeaseManager_def)

text \<open>
  With minor version 1 mounting again does not recover a connection: the new session is put in front of the old
  one, which stays in the stack of callers, so that compounds carry two SEQUENCE operations.
\<close>

lemma createSession_again:
  assumes "createSession env ctx c w = Some (None, c', w')" and "cn_caller c = newRetryCaller (newSessionCaller cl i) cfg"
  shows "\<exists>j. cn_caller c' = newRetryCaller (newSessionCaller (newSessionCaller cl i) j) cfg"
  using assms
  by (auto simp: createSession_def newRetryCaller_def newSessionCaller_def Let_def
      split: Option.bind_splits sum.splits option.splits)



lemma lease_step_loops: "lease_step r r' \<Longrightarrow> length (lr_loops r) \<le> length (lr_loops r')"
  by (elim lease_stepE) simp_all

text \<open>C40: Starting and stopping. As long as \<open>Start\<close> was called at most once, whatever goroutines call
  \<open>Stop\<close> and however often, no channel is closed twice, the loop has ended exactly when the done
  channel is closed, and it ends only after a \<open>Stop\<close>; and once stopped, a loop that waits for its timer
  can end at once.\<close>

theorem lease_lifecycle:
  assumes "lease_step\<^sup>*\<^sup>* (lease_init cfg) r" and "length (lr_loops r) \<le> 1"
  shows "\<not> lr_panic r \<and> (lm_doneCh (lr_lm r) \<longleftrightarrow> lr_loops r = [Exited]) \<and>
    (lm_stopCh (lr_lm r) \<longleftrightarrow> lr_stops r \<noteq> []) \<and> (lm_doneCh (lr_lm r) \<longrightarrow> lm_stopCh (lr_lm r)) \<and>
    (lm_stopCh (lr_lm r) \<and> lr_loops r = [Selecting] \<longrightarrow> (\<exists>r'. lease_step r r' \<and> lr_loops r' = [Exited]))"
proof -
  have inv: "\<not> lr_panic r \<and> (lm_doneCh (lr_lm r) \<longleftrightarrow> lr_loops r = [Exited]) \<and>
      (lm_stopCh (lr_lm r) \<longleftrightarrow> lr_stops r \<noteq> []) \<and> (lm_doneCh (lr_lm r) \<longrightarrow> lm_stopCh (lr_lm r))"
    using assms
  proof (induction rule: rtranclp_induct)
    case base
    then show ?case by (simp add: lease_init_def NewLeaseManager_def)
  next
    case (step r r')
    then have len: "length (lr_loops r) \<le> 1" using lease_step_loops by fastforce
    from step.hyps(2) step.IH [OF len] step.prems len show ?case
      by (cases "lr_loops r") (auto elim!: lease_stepE simp: less_Suc_eq)
  qed
  moreover have "\<exists>r'. lease_step r r' \<and> lr_loops r' = [Exited]" if "lm_stopCh (lr_lm r)" "lr_loops r = [Selecting]"
    using that leave [of 0 r] by fastforce
  ultimately show ?thesis by blast
qed

theorem lease_lifecycle_witness:
  "\<exists>r. lease_step\<^sup>*\<^sup>* (lease_init sample_lease) r \<and> lr_loops r = [Exited] \<and> lm_doneCh (lr_lm r) \<and> \<not> lr_panic r"
proof -
  let ?r0 = "lease_init sample_lease"
  let ?r1 = "?r0\<lparr>lr_loops := lr_loops ?r0 @ [Selecting]\<rparr>"
  let ?r2 = "?r1\<lparr>lr_lm := (lr_lm ?r1)\<lparr>lm_stopCh := True\<rparr>, lr_stops := lr_stops ?r1 @ [False]\<rparr>"
  have r2: "lease_step\<^sup>*\<^sup>* ?r0 ?r2" using start [of ?r0] stop [of ?r1] by (meson converse_rtranclp_into_rtranclp r_into_rtranclp)
  have "length (lr_loops ?r2) \<le> 1" "lm_stopCh (lr_lm ?r2)" "lr_loops ?r2 = [Selecting]" by (simp_all add: lease_init_def)
  with lease_lifecycle [OF r2] obtain r3 where r3: "lease_step ?r2 r3" "lr_loops r3 = [Exited]" by blast
  with r2 have "lease_step\<^sup>*\<^sup>* ?r0 r3" by (meson rtranclp.rtrancl_into_rtrancl)
  with lease_lifecycle [OF this] r3(2) show ?thesis by auto
qed

end
