(* ===== verification/Nfsd.thy ===== *)
theory Nfsd
  imports Mem_Server
begin

text \<open>
  A server at the other end of the bytes. It reads call messages off the connection (RFC 5531, with
  the record marking of section 11), parses the compound with the argument unions of the protocol,
  runs it as \<open>Server\<close> describes, and writes the reply. Below \<open>RPCCaller.CallCompound\<close> of
  \<open>src/nfs4/transport.go\<close>, \<open>Client.Call\<close> of \<open>src/rpc/client.go\<close> and \<open>src/rpc/record.go\<close> it
  makes a base caller, \<open>rpc_base\<close>, in which every byte of every message is there. As long as the
  messages fit the limits of the wire formats it is the caller \<open>serve\<close> the methods of a connection
  are proved against.
\<close>

subsection \<open>Call messages\<close>

definition decode_call :: "(decoder, u32 \<times> u32 \<times> CallHeader) state" where
  "decode_call = do {
     xid \<leftarrow> Decoder_Uint32;
     mtype \<leftarrow> Decoder_Uint32;
     rpcvers \<leftarrow> Decoder_Uint32;
     prog \<leftarrow> Decoder_Uint32;
     vers \<leftarrow> Decoder_Uint32;
     proc \<leftarrow> Decoder_Uint32;
     cred \<leftarrow> DecodeOpaqueAuth;
     verf \<leftarrow> DecodeOpaqueAuth;
     State_Monad.return (mtype, rpcvers,
       \<lparr>ch_XID = xid, ch_Prog = prog, ch_Vers = vers, ch_Proc = proc, ch_Cred = cred, ch_Verf = verf\<rparr>)
   }"

lemma reads_call:
  assumes "auth_ok (ch_Cred h)" and "auth_ok (ch_Verf h)"
  shows "reads decode_call (0, 2, h) (wire_call h)"
  using assms
  by (cases h) (simp add: reads_def decode_call_def wire_call_def readsD [OF reads_Uint32] readsD [OF reads_OpaqueAuth])

subsection \<open>The reply to a compound\<close>

definition res_outcome :: "res \<Rightarrow> outcome" where
  "res_outcome r =
     (if res_Status r = NFS4_OK then Done no_extras r else Failed no_extras (res_Status r))"

definition reply_body :: "Compound \<Rightarrow> res list \<Rightarrow> bytes" where
  "reply_body c rs =
     encoded (encode_reply (final_status rs) (cp_Tag c) (map res_zero rs)
       (zip (map Arg_Op (cp_ops c)) (map res_outcome rs)))"

text \<open>The reply to a call message, if it deserves one.\<close>

definition nfsd_call :: "'s server \<Rightarrow> bytes \<Rightarrow> 's wire \<Rightarrow> bytes option \<times> 's wire" where
  "nfsd_call sv msg s =
     (case run_state decode_call (bdec msg) of
        ((mtype, rpcvers, h), d) \<Rightarrow>
          if dec_err d \<noteq> None \<or> mtype \<noteq> 0 then (None, s)
          else if rpcvers \<noteq> 2 then (Some (wire_reply (ch_XID h) (DeniedMismatch 2 2)), s)
          else if ch_Prog h \<noteq> Program then (Some (wire_reply (ch_XID h) (Accepted AuthNull 1)), s)
          else if ch_Vers h \<noteq> Version4 then (Some (wire_reply (ch_XID h) (AcceptedMismatch AuthNull 4 4)), s)
          else if ch_Proc h = 0 then (Some (wire_reply (ch_XID h) (Accepted AuthNull AcceptSuccess)), s)
          else if ch_Proc h \<noteq> ProcCompound then (Some (wire_reply (ch_XID h) (Accepted AuthNull 3)), s)
          else (case run_state decode_request d of
                  (c, d) \<Rightarrow>
                    if dec_err d \<noteq> None then (Some (wire_reply (ch_XID h) (Accepted AuthNull 4)), s)
                    else (case wire_ops sv (cp_MinorVersion c) (cp_ops c) s of
                            (rs, s) \<Rightarrow>
                              (Some (wire_reply (ch_XID h) (Accepted AuthNull AcceptSuccess) @ reply_body c rs), s))))"

subsection \<open>The connection\<close>

text \<open>The server with the bytes of the record it is receiving.\<close>

record 's nfsd =
  nd_buf :: bytes
  nd_wire :: "'s wire"

definition complete_record :: "bytes \<Rightarrow> bytes option" where
  "complete_record buf =
     (if length buf < 4 then None
      else let marker = BigEndian_Uint32 (take 4 buf)
           in if marker AND lastFragmentFlag \<noteq> 0 \<and> length buf = 4 + unat (marker AND fragmentSizeMask)
              then Some (drop 4 buf) else None)"

definition nfsd :: "'s server \<Rightarrow> 's nfsd peer" where
  "nfsd sv p c =
     (let buf = nd_buf (nc_srv c) @ p
      in case complete_record buf of
           None \<Rightarrow> (None, c\<lparr>nc_srv := (nc_srv c)\<lparr>nd_buf := buf\<rparr>\<rparr>)
         | Some msg \<Rightarrow>
             (case nfsd_call sv msg (nd_wire (nc_srv c)) of
                (None, s) \<Rightarrow> (None, c\<lparr>nc_srv := \<lparr>nd_buf = [], nd_wire = s\<rparr>\<rparr>)
              | (Some reply, s) \<Rightarrow>
                  (None, c\<lparr>nc_srv := \<lparr>nd_buf = [], nd_wire = s\<rparr>,
                           nc_in := bytes_reader (rd_bytes (nc_in c) @ fragment True reply)\<rparr>)))"

text \<open>The RPC client of the world with another peer.\<close>

definition plug :: "'t \<Rightarrow> 'u client \<Rightarrow> 't client" where
  "plug t cl =
     \<lparr>cl_conn = \<lparr>nc_in = nc_in (cl_conn cl), nc_srv = t, nc_closed = nc_closed (cl_conn cl),
        nc_closeErr = nc_closeErr (cl_conn cl)\<rparr>,
      cl_opts = cl_opts cl, cl_nextID = cl_nextID cl\<rparr>"

text \<open>
  The RPC client of a world, connected to the server of that world, and the base caller made of it.
  \<open>cx_select\<close> decides the \<open>select\<close> of \<open>Call\<close>. When the context is done first, the world it
  returns is the one the goroutine of the call has reached by then: nothing of the request may have been
  sent, or all of it, and the server may have executed it.
\<close>

definition wired :: "'s wire \<Rightarrow> 's nfsd client" where
  "wired s = plug \<lparr>nd_buf = [], nd_wire = s\<rparr> (wi_rpc s)"

definition rpc_base :: "'s server \<Rightarrow> 's wire goctx \<Rightarrow> 's wire call" where
  "rpc_base sv ctx c results w =
     (case cx_Err ctx w of
        (err, w) \<Rightarrow>
          (case cx_select ctx w of
             (cancelled, w') \<Rightarrow>
               (case RPCCaller_CallCompound (nfsd sv)
                       \<lparr>rctx_Err = (\<lambda>_. err),
                        rctx_Done = (\<lambda>_. map_option (\<lambda>e. (e, cl_conn (wired (st_world w')))) cancelled)\<rparr>
                       c results (wired (st_world (if cancelled = None then w' else w))) of
                  (out, cl) \<Rightarrow>
                    Some (out, w'\<lparr>st_world := (nd_wire (nc_srv (cl_conn cl)))\<lparr>wi_rpc := plug () cl\<rparr>\<rparr>))))"

subsection \<open>Messages that fit\<close>

definition client_idle :: "'t client \<Rightarrow> bool" where
  "client_idle cl \<longleftrightarrow>
     nc_in (cl_conn cl) = bytes_reader [] \<and> \<not> nc_closed (cl_conn cl) \<and>
     auth_ok (co_Cred (cl_opts cl)) \<and> auth_ok (co_Verf (cl_opts cl))"

definition zero_for :: "arg \<Rightarrow> res" where
  "zero_for a = res_zero (reply_to a NFS4_OK)"

definition fitting_struct :: "arg \<Rightarrow> res \<Rightarrow> bool" where
  "fitting_struct a r0 \<longleftrightarrow> r0 = set_Status (res_Status r0) (zero_for a)"

definition request_msg :: "'t client \<Rightarrow> Compound \<Rightarrow> bytes" where
  "request_msg cl c =
     wire_call \<lparr>ch_XID = nth_xid 0 cl, ch_Prog = Program, ch_Vers = Version4, ch_Proc = ProcCompound,
       ch_Cred = co_Cred (cl_opts cl), ch_Verf = co_Verf (cl_opts cl)\<rparr> @ encoded (Compound_Encode c)"

definition reply_msg :: "'t client \<Rightarrow> Compound \<Rightarrow> res list \<Rightarrow> bytes" where
  "reply_msg cl c rs = wire_reply (nth_xid 0 cl) (Accepted AuthNull AcceptSuccess) @ reply_body c rs"

text \<open>
  The context is not cancelled, the connection is between two calls, the result structs are those of
  the operations with nothing but a status left in them, and request, results and reply are within
  the limits of the formats.
\<close>

definition wire_fits :: "'s server \<Rightarrow> 's wire goctx \<Rightarrow> Compound \<Rightarrow> res list \<Rightarrow> 's wire store \<Rightarrow> bool" where
  "wire_fits sv ctx c results w \<longleftrightarrow>
     cx_Err ctx w = (None, w) \<and> cx_select ctx w = (None, w) \<and>
     client_idle (wi_rpc (st_world w)) \<and> compound_ok c \<and>
     list_all2 fitting_struct (cp_ops c) results \<and>
     length (request_msg (wi_rpc (st_world w)) c) < 2 ^ 31 \<and>
     (let rs = fst (wire_ops sv (cp_MinorVersion c) (cp_ops c) (st_world w))
      in list_all (\<lambda>r. res_Status r = NFS4_OK \<longrightarrow> res_ok r) rs \<and>
         length (reply_msg (wi_rpc (st_world w)) c rs) \<le> maxFragmentSize)"

subsection \<open>What the server answers\<close>

text \<open>The result is of the operation's type, and only a status when the operation failed.\<close>

definition answers :: "arg \<Rightarrow> res \<Rightarrow> bool" where
  "answers a r \<longleftrightarrow>
     res_zero r = zero_for a \<and> (res_Status r \<noteq> NFS4_OK \<longrightarrow> r = set_Status (res_Status r) (res_zero r))"

lemma reply_to_answers: "answers a (reply_to a st)"
  by (cases a) (simp_all add: answers_def zero_for_def)

lemma op_at_answers: "op_at sv cur saved a s = (r, cur', s') \<Longrightarrow> answers a r"
  by (cases a)
    (auto simp: answers_def zero_for_def split: prod.splits option.splits if_splits)

lemma serve_op_answers:
  assumes "serve_op sv (cur, saved) a s = (r, fhs, s')"
  shows "answers a r"
proof (cases cur)
  case None
  then show ?thesis
    using assms reply_to_answers [of a NFS4ERR_NOFILEHANDLE]
    by (cases a) (auto simp: answers_def zero_for_def Let_def split: prod.splits if_splits)
next
  case (Some fh)
  show ?thesis
  proof (cases "\<exists>r' cur' s'. serve_op sv (cur, saved) a s = (case op_at sv fh saved a s of (r, cur', s) \<Rightarrow> (r, (Some cur', saved), s))")
    case True
    then show ?thesis using assms op_at_answers by (auto split: prod.splits)
  next
    case False
    then show ?thesis
      using assms Some by (cases a; cases saved) (auto simp: answers_def zero_for_def Let_def split: prod.splits if_splits)
  qed
qed

lemma run_ops_answers:
  "run_ops sv fhs ops s = (rs, s') \<Longrightarrow>
   length rs \<le> length ops \<and> list_all2 answers (take (length rs) ops) rs"
proof (induction ops arbitrary: fhs s rs s')
  case Nil
  then show ?case by simp
next
  case (Cons a ops)
  obtain cur saved where fhs: "fhs = (cur, saved)" by (cases fhs)
  obtain r fhs' s1 where r: "serve_op sv fhs a s = (r, fhs', s1)" by (metis prod.exhaust)
  then have "answers a r" using serve_op_answers fhs by metis
  then show ?case
    using Cons.prems r Cons.IH [of fhs' s1] by (auto split: if_splits prod.splits)
qed

lemma wire_ops_answers:
  assumes "wire_ops sv mv ops s = (rs, s')"
  shows "length rs \<le> length ops \<and> list_all2 answers (take (length rs) ops) rs"
proof (cases "mv = 0")
  case True
  then show ?thesis using assms by (auto dest!: run_ops_answers split: prod.splits)
next
  case mv: False
  show ?thesis
  proof (cases ops)
    case Nil
    then show ?thesis using assms mv by simp
  next
    case (Cons a rest)
    show ?thesis
    proof (cases "\<exists>q. a = ASequence q")
      case True
      then obtain q where q: "a = ASequence q" by blast
      obtain out fs where run: "run_ops sv (None, None) rest (wi_fs s) = (out, fs)" by (metis prod.exhaust)
      have "answers a (SequenceRes 0 i n l h t f)" for i n l h t f
        by (simp add: q answers_def zero_for_def)
      then show ?thesis
        using assms mv Cons q run run_ops_answers [OF run] reply_to_answers [of a]
        by (auto simp: wire_sequence_def Let_def split: if_splits)
    next
      case False
      then show ?thesis
        using assms mv Cons reply_to_answers [of a]
        by (cases a; cases rest) (auto simp: answers_def zero_for_def split: prod.splits if_splits)
    qed
  qed
qed

subsection \<open>The reply carries the results\<close>

lemma expectedOp_answer:
  "r0 = set_Status st (zero_for a) \<Longrightarrow> expectedOp r0 = 0 \<or> expectedOp r0 = Arg_Op a"
  by (cases a) (simp_all add: zero_for_def)

lemma set_Status_idem [simp]: "set_Status s (set_Status t r) = set_Status s r"
  by (cases r) simp_all

lemma res_zero_set_Status [simp]: "res_zero (set_Status s r) = res_zero r"
  by (cases r) simp_all

lemma res_zero_idem [simp]: "res_zero (res_zero r) = res_zero r"
  by (cases r) simp_all

lemma res_Status_set_Status [simp]: "res_Status (set_Status s r) = s"
  by (cases r) simp_all

lemma failed_res_zero: "res_zero r = r \<Longrightarrow> failed_res no_extras st (set_Status s r) = set_Status st r"
  by (cases r) (auto simp: failed_res_def no_extras_def)

lemma encode_failure_zero: "encode_failure x st (set_Status s (res_zero r)) = encode_failure x st (res_zero r)"
  by (cases r) (simp_all add: encode_failure_def)

lemma answer_outcome:
  assumes "answers a r" and "fitting_struct a r0" and "res_Status r = NFS4_OK \<longrightarrow> res_ok r"
  shows "outcome_ok (Arg_Op a) r0 (res_outcome r) \<and> outcome_res r0 (res_outcome r) = r \<and>
         encode_outcome (res_zero r) (res_outcome r) = encode_outcome r0 (res_outcome r)"
proof -
  have r0: "r0 = set_Status (res_Status r0) (res_zero r)"
    using assms(1,2) by (simp add: answers_def fitting_struct_def)
  have z: "res_zero r0 = res_zero r" by (subst r0) simp
  have e: "expectedOp r0 = 0 \<or> expectedOp r0 = Arg_Op a"
    by (rule expectedOp_answer) (rule assms(2) [unfolded fitting_struct_def])
  show ?thesis
  proof (cases "res_Status r = NFS4_OK")
    case True
    then show ?thesis using assms(3) e r0 by (simp add: res_outcome_def no_extras_ok)
  next
    case False
    have "failed_res no_extras (res_Status r) r0 = set_Status (res_Status r) (res_zero r)"
      by (subst r0) (simp add: failed_res_zero)
    also have "\<dots> = r" using assms(1) False unfolding answers_def by (metis (no_types))
    finally have "failed_res no_extras (res_Status r) r0 = r" .
    moreover have "encode_failure no_extras (res_Status r) (res_zero r) = encode_failure no_extras (res_Status r) r0"
      by (subst r0) (simp add: encode_failure_zero)
    ultimately show ?thesis using False e r0 z by (simp add: res_outcome_def no_extras_ok)
  qed
qed

lemma answer_outcomes:
  assumes "list_all2 answers (take (length rs) ops) rs" and "list_all2 fitting_struct ops results"
    and "list_all (\<lambda>r. res_Status r = NFS4_OK \<longrightarrow> res_ok r) rs"
  defines "ocs \<equiv> zip (map Arg_Op ops) (map res_outcome rs)"
  shows "length ocs = length rs \<and>
         list_all2 (\<lambda>r0 (opn, oc). outcome_ok opn r0 oc) (take (length rs) results) ocs \<and>
         map2 outcome_res results (map snd ocs) = rs \<and>
         encode_outcomes (map res_zero rs) ocs = encode_outcomes results ocs"
  using assms(1-3) unfolding ocs_def
proof (induction rs arbitrary: ops results rule: list.induct)
  case Nil
  then show ?case by (cases results) simp_all
next
  case (Cons r rs)
  then obtain a ops' r0 results' where ops: "ops = a # ops'" "results = r0 # results'"
    by (cases ops; cases results) auto
  from Cons.prems ops have "answers a r" "fitting_struct a r0" "res_Status r = NFS4_OK \<longrightarrow> res_ok r" by auto
  note one = answer_outcome [OF this]
  from Cons.prems ops Cons.IH [of ops' results'] one show ?case by simp
qed

lemma reply_ok:
  assumes "wire_ops sv (cp_MinorVersion c) (cp_ops c) s = (rs, s')" and "compound_ok c"
    and "list_all2 fitting_struct (cp_ops c) results"
    and "list_all (\<lambda>r. res_Status r = NFS4_OK \<longrightarrow> res_ok r) rs"
  shows "\<exists>ocs. length ocs = length rs \<and> outcomes_ok results ocs \<and>
           filled results ocs = rs @ drop (length rs) results \<and>
           reply_body c rs = encoded (encode_reply (final_status rs) (cp_Tag c) results ocs)"
proof -
  let ?ocs = "zip (map Arg_Op (cp_ops c)) (map res_outcome rs)"
  from wire_ops_answers [OF assms(1)] have len: "length rs \<le> length (cp_ops c)"
    and ans: "list_all2 answers (take (length rs) (cp_ops c)) rs" by simp_all
  note oc = answer_outcomes [OF ans assms(3,4)]
  have "length (cp_ops c) < 2 ^ 32" using assms(2) by (simp add: compound_ok_def)
  moreover have "length (cp_ops c) = length results" using assms(3) by (rule list_all2_lengthD)
  ultimately have "outcomes_ok results ?ocs" using oc len by (simp add: outcomes_ok_def)
  moreover have "filled results ?ocs = rs @ drop (length rs) results" using oc by (simp add: filled_def)
  moreover have "reply_body c rs = encoded (encode_reply (final_status rs) (cp_Tag c) results ?ocs)"
    using oc by (simp add: reply_body_def encode_reply_def)
  ultimately show ?thesis using oc by blast
qed

subsection \<open>The round trip\<close>

lemma WriteRecord_nfsd:
  assumes buf: "nd_buf (nc_srv k) = []" and op: "\<not> nc_closed k" and len: "length p < 2 ^ 31" "p \<noteq> []"
    and rd: "nc_in k = bytes_reader []" and call: "nfsd_call sv p (nd_wire (nc_srv k)) = (Some rep, s)"
  shows "WriteRecord (netconn_Write (nfsd sv)) p k =
           (None, k\<lparr>nc_srv := \<lparr>nd_buf = [], nd_wire = s\<rparr>, nc_in := bytes_reader (fragment True rep)\<rparr>)"
proof -
  define m :: u32 where "m = lastFragmentFlag OR word_of_nat (length p)"
  have m: "m AND lastFragmentFlag \<noteq> 0" "unat (m AND fragmentSizeMask) = length p"
    using marker_last [OF len(1), of True] marker_size [OF len(1), of True] by (simp_all add: m_def)
  have "\<not> (word_of_nat (length p) :: u32) > fragmentSizeMask"
    using len(1) by (simp add: fragmentSizeMask_def word_less_nat_alt unat_word_of_nat_u32)
  moreover have "complete_record (BigEndian_PutUint32 m) = None"
    using m len(2) by (simp add: complete_record_def)
  moreover have "complete_record (BigEndian_PutUint32 m @ p) = Some p"
    using m by (simp add: complete_record_def)
  ultimately show ?thesis
    using buf op rd call
    by (simp add: WriteRecord_def netconn_Write_def nfsd_def m_def [symmetric] Let_def)
qed

lemma ReadRecord_one:
  assumes "length p \<le> maxFragmentSize"
  shows "ReadRecord (bytes_reader (fragment True p)) = (Inr p, bytes_reader [])"
proof -
  have len: "length p < 2 ^ 31" using assms by (simp add: maxFragmentSize_def)
  show ?thesis
    using assms marker_last [OF len, of True] marker_size [OF len, of True]
    by (simp add: ReadRecord_def ReadRecord_loop.simps [of "[]"] fragment_def Let_def maxFragmentSize_def maxMessageSize_def)
qed

lemma nfsd_call_request:
  assumes "compound_ok c" and "auth_ok (co_Cred (cl_opts cl))" and "auth_ok (co_Verf (cl_opts cl))"
    and "wire_ops sv (cp_MinorVersion c) (cp_ops c) s = (rs, s')"
  shows "nfsd_call sv (request_msg cl c) s = (Some (reply_msg cl c rs), s')"
proof -
  let ?h = "\<lparr>ch_XID = nth_xid 0 cl, ch_Prog = Program, ch_Vers = Version4, ch_Proc = ProcCompound,
      ch_Cred = co_Cred (cl_opts cl), ch_Verf = co_Verf (cl_opts cl)\<rparr>"
  have "run_state decode_call (bdec (request_msg cl c)) = ((0, 2, ?h), bdec (encoded (Compound_Encode c)))"
    unfolding request_msg_def using assms(2,3) by (intro readsD [OF reads_call]) simp_all
  moreover have "run_state decode_request (bdec (encoded (Compound_Encode c))) = (c, bdec [])"
    using transports_run [OF transports_request [OF assms(1)], of "[]"] by simp
  ultimately show ?thesis using assms(4) by (simp add: nfsd_call_def reply_msg_def)
qed

lemma wire_ops_rpc: "wire_ops sv mv ops s = (rs, s') \<Longrightarrow> wi_rpc s' = wi_rpc s"
  by (auto simp: wire_sequence_def Let_def split: if_splits prod.splits list.splits arg.splits)

lemma rpc_base_serve:
  assumes "wire_fits sv ctx c results w"
  shows "rpc_base sv ctx c results w = serve sv ctx c results w"
proof -
  let ?s = "st_world w"
  let ?cl = "plug \<lparr>nd_buf = [], nd_wire = ?s\<rparr> (wi_rpc ?s)"
  let ?ctx = "\<lparr>rctx_Err = (\<lambda>_. None), rctx_Done = (\<lambda>_. None)\<rparr>"
  obtain rs s' where run: "wire_ops sv (cp_MinorVersion c) (cp_ops c) ?s = (rs, s')" by (metis prod.exhaust)
  from assms run have ctx: "cx_Err ctx w = (None, w)" "cx_select ctx w = (None, w)"
    and idle: "client_idle (wi_rpc ?s)" and c: "compound_ok c"
    and res: "list_all2 fitting_struct (cp_ops c) results" and req: "length (request_msg (wi_rpc ?s) c) < 2 ^ 31"
    and rs: "list_all (\<lambda>r. res_Status r = NFS4_OK \<longrightarrow> res_ok r) rs" "length (reply_msg (wi_rpc ?s) c rs) \<le> maxFragmentSize"
    by (simp_all add: wire_fits_def)
  from reply_ok [OF run c res rs(1)] obtain ocs where ocs: "length ocs = length rs" "outcomes_ok results ocs"
      "filled results ocs = rs @ drop (length rs) results"
      "reply_body c rs = encoded (encode_reply (final_status rs) (cp_Tag c) results ocs)"
    by blast
  have xid: "nth_xid 0 ?cl = nth_xid 0 (wi_rpc ?s)" by (simp add: nth_xid_eq plug_def)
  have msgs: "request_msg ?cl c = request_msg (wi_rpc ?s) c" "reply_msg ?cl c rs = reply_msg (wi_rpc ?s) c rs"
    by (simp_all add: request_msg_def reply_msg_def xid) (simp_all add: plug_def)
  have cl: "nd_buf (nc_srv (cl_conn ?cl)) = []" "\<not> nc_closed (cl_conn ?cl)" "nc_in (cl_conn ?cl) = bytes_reader []"
    "auth_ok (co_Cred (cl_opts ?cl))" "auth_ok (co_Verf (cl_opts ?cl))" "nd_wire (nc_srv (cl_conn ?cl)) = ?s"
    using idle by (simp_all add: client_idle_def plug_def)
  have "length (request_msg ?cl c) \<noteq> 0" by (simp add: request_msg_def wire_call_def)
  then have ne: "request_msg ?cl c \<noteq> []" by simp
  let ?k = "(cl_conn ?cl)\<lparr>nc_srv := \<lparr>nd_buf = [], nd_wire = s'\<rparr>,
      nc_in := bytes_reader (fragment True (reply_msg ?cl c rs))\<rparr>"
  have wr: "WriteRecord (netconn_Write (nfsd sv)) (request_msg ?cl c) (cl_conn ?cl) = (None, ?k)"
    using WriteRecord_nfsd [OF cl(1,2) _ ne cl(3)] nfsd_call_request [OF c cl(4,5) run] req
    by (simp add: cl(6) msgs)
  have rd: "ReadRecord (nc_in ?k) = (Inr (wire_reply (nth_xid 0 ?cl) (Accepted AuthNull AcceptSuccess) @
      encoded (encode_reply (final_status rs) (cp_Tag c) results ocs)), bytes_reader [])"
    using ReadRecord_one [of "reply_msg ?cl c rs"] rs(2) by (simp add: msgs) (simp add: reply_msg_def xid ocs(4))
  have tag: "string_ok (cp_Tag c)" "auth_ok AuthNull"
    using c by (simp_all add: compound_ok_def auth_ok_def AuthNull_def opaque_ok_def)
  have "RPCCaller_CallCompound (nfsd sv) ?ctx c results ?cl =
      (((Some \<lparr>cr_Status = final_status rs, cr_Tag = cp_Tag c, cr_NumResults = length rs\<rparr>, None),
        rs @ drop (length rs) results), ?cl\<lparr>cl_nextID := nth_xid 0 ?cl, cl_conn := ?k\<lparr>nc_in := bytes_reader []\<rparr>\<rparr>)"
    using CallCompound_replied [OF _ _ request_msg_def wr _ rd tag(2) ocs(2) tag(1)] cl(2) ocs(1,3) by simp
  moreover have "wi_rpc s' = wi_rpc ?s" using run by (rule wire_ops_rpc)
  ultimately show ?thesis
    using ctx run idle
    by (simp add: rpc_base_def wired_def serve_def wire_tick_def allocXID_eq nth_xid_eq plug_def client_idle_def)
qed


end
