(* ===== verification/Stack.thy ===== *)
theory Stack
  imports Nfsd Client_Mount
begin

text \<open>
  The whole stack over the bytes. Everything above the base caller only calls it, so replacing the
  base caller by one that answers more calls, and the same where both answer, keeps every run that
  ends. The locale \<open>base_order\<close> proves this for the callers of \<open>src/nfs4/retry.go\<close> and
  \<open>src/nfs4/session.go\<close>, the methods of \<open>src/nfs4/conn.go\<close>, \<open>src/nfs4/conn_write.go\<close> and
  \<open>src/nfs4/transport.go\<close>, and the file systems of \<open>src/client\<close>. It is interpreted on the two base
  callers of \<open>Nfsd\<close>, hence a run whose messages all fit is the same over the bytes as over the
  abstract server of \<open>Server\<close>, and what is proved there holds here.
\<close>

subsection \<open>Runs that end\<close>

text \<open>\<open>option_ord x y\<close>: when the run \<open>x\<close> ends, \<open>y\<close> ends the same way.\<close>

lemma ord_refl: "option_ord x x"
  by (simp add: flat_ord_def)

lemma ord_None: "option_ord None y"
  by (simp add: flat_ord_def)

lemma ord_bind:
  "option_ord x y \<Longrightarrow> (\<And>v. option_ord (f v) (g v)) \<Longrightarrow> option_ord (Option.bind x f) (Option.bind y g)"
  by (cases x; cases y) (simp_all add: flat_ord_def)

lemma ord_then:
  "option_ord x y \<Longrightarrow> (\<And>v. option_ord (f v) (g v)) \<Longrightarrow>
   option_ord (case x of None \<Rightarrow> None | Some v \<Rightarrow> f v) (case y of None \<Rightarrow> None | Some v \<Rightarrow> g v)"
  by (cases x; cases y) (simp_all add: flat_ord_def)

lemma ord_prod:
  "(\<And>a b. option_ord (f a b) (g a b)) \<Longrightarrow> option_ord (case p of (a, b) \<Rightarrow> f a b) (case p of (a, b) \<Rightarrow> g a b)"
  by (cases p) simp

lemma ord_sum:
  "(\<And>a. option_ord (f a) (g a)) \<Longrightarrow> (\<And>b. option_ord (f' b) (g' b)) \<Longrightarrow>
   option_ord (case s of Inl a \<Rightarrow> f a | Inr b \<Rightarrow> f' b) (case s of Inl a \<Rightarrow> g a | Inr b \<Rightarrow> g' b)"
  by (cases s) simp_all

lemma ord_option:
  "option_ord f g \<Longrightarrow> (\<And>a. option_ord (f' a) (g' a)) \<Longrightarrow>
   option_ord (case x of None \<Rightarrow> f | Some a \<Rightarrow> f' a) (case x of None \<Rightarrow> g | Some a \<Rightarrow> g' a)"
  by (cases x) simp_all

lemma ord_if:
  "option_ord f g \<Longrightarrow> option_ord f' g' \<Longrightarrow> option_ord (if P then f else f') (if P then g else g')"
  by simp

lemma ord_Let: "(\<And>v. option_ord (f v) (g v)) \<Longrightarrow> option_ord (Let x f) (Let x g)"
  by simp

lemma ord_map: "option_ord x y \<Longrightarrow> option_ord (map_option f x) (map_option f y)"
  by (auto simp: flat_ord_def)

lemmas ord_rules = ord_refl ord_bind ord_prod ord_sum ord_option ord_if ord_Let

text \<open>The same for runs whose result is first translated by \<open>h\<close>.\<close>

lemma via_bind:
  "option_ord x y \<Longrightarrow> (\<And>v. option_ord (map_option h (f v)) (g v)) \<Longrightarrow>
   option_ord (map_option h (Option.bind x f)) (Option.bind y g)"
  by (cases x; cases y) (simp_all add: flat_ord_def)

lemma via_via_bind:
  "option_ord (map_option k x) y \<Longrightarrow> (\<And>v. option_ord (map_option h (f v)) (g (k v))) \<Longrightarrow>
   option_ord (map_option h (Option.bind x f)) (Option.bind y g)"
  by (cases x; cases y) (simp_all add: flat_ord_def)

lemma via_prod:
  "(\<And>a b. option_ord (map_option h (f a b)) (g a b)) \<Longrightarrow>
   option_ord (map_option h (case p of (a, b) \<Rightarrow> f a b)) (case p of (a, b) \<Rightarrow> g a b)"
  by (cases p) simp

lemma via_sum:
  "(\<And>a. option_ord (map_option h (f a)) (g a)) \<Longrightarrow> (\<And>b. option_ord (map_option h (f' b)) (g' b)) \<Longrightarrow>
   option_ord (map_option h (case s of Inl a \<Rightarrow> f a | Inr b \<Rightarrow> f' b)) (case s of Inl a \<Rightarrow> g a | Inr b \<Rightarrow> g' b)"
  by (cases s) simp_all

lemma via_option:
  "option_ord (map_option h f) g \<Longrightarrow> (\<And>a. option_ord (map_option h (f' a)) (g' a)) \<Longrightarrow>
   option_ord (map_option h (case x of None \<Rightarrow> f | Some a \<Rightarrow> f' a)) (case x of None \<Rightarrow> g | Some a \<Rightarrow> g' a)"
  by (cases x) simp_all

lemma via_if:
  "option_ord (map_option h f) g \<Longrightarrow> option_ord (map_option h f') g' \<Longrightarrow>
   option_ord (map_option h (if P then f else f')) (if P then g else g')"
  by simp

lemma via_Let: "(\<And>v. option_ord (map_option h (f v)) (g v)) \<Longrightarrow> option_ord (map_option h (Let x f)) (Let x g)"
  by simp

lemma via_Some: "h x = y \<Longrightarrow> option_ord (map_option h (Some x)) (Some y)"
  by (simp add: flat_ord_def)

lemmas via_rules = via_bind via_prod via_sum via_option via_if via_Let

lemma ord_Some: "option_ord x y \<Longrightarrow> x = Some v \<Longrightarrow> y = Some v"
  by (simp add: flat_ord_def)

subsection \<open>The callers\<close>

lemma retry_loop_ord:
  assumes "\<And>c results w. option_ord (f c results w) (g c results w)"
  shows "option_ord (retry_loop ctx sleep mx f c k delay lst results w) (retry_loop ctx sleep mx g c k delay lst results w)"
proof (induction k arbitrary: delay lst results w)
  case 0
  show ?case by (simp add: ord_refl)
next
  case (Suc k)
  show ?case
    by (simp only: retry_loop.simps) (intro ord_prod ord_option ord_refl ord_then assms ord_if Suc.IH)
qed

lemma sessionCaller_ord:
  assumes "\<And>c results w. option_ord (f c results w) (g c results w)"
  shows "option_ord (sessionCaller_CallCompound i ctx f c results w) (sessionCaller_CallCompound i ctx g c results w)"
  unfolding sessionCaller_CallCompound_def
  by (intro ord_prod ord_option ord_sum ord_refl ord_Let ord_then assms)

locale base_order =
  fixes b b' :: "'s goctx \<Rightarrow> 's call"
  assumes base_ord: "option_ord (b ctx c results w) (b' ctx c results w)"
begin

lemma CallCompound_ord: "option_ord (CallCompound b cl ctx c results w) (CallCompound b' cl ctx c results w)"
  by (induction cl arbitrary: c results w)
    (simp_all add: base_ord sessionCaller_ord retry_loop_ord retryCaller_CallCompound_def)

text \<open>The connection of an environment that differs in its base caller only.\<close>

lemma Conn_call_ord:
  "option_ord (Conn_call (env\<lparr>ev_base := b\<rparr>) ctx c ops results w) (Conn_call (env\<lparr>ev_base := b'\<rparr>) ctx c ops results w)"
  by (simp add: Conn_call_def CallCompound_ord)

lemma Conn_ops_ord:
  "option_ord (Conn_ops (env\<lparr>ev_base := b\<rparr>) ctx c msg args ops results w)
     (Conn_ops (env\<lparr>ev_base := b'\<rparr>) ctx c msg args ops results w)"
  unfolding Conn_ops_def by (intro ord_rules Conn_call_ord)

lemma Conn_one_ord:
  "option_ord (Conn_one (env\<lparr>ev_base := b\<rparr>) ctx c msg a r0 w) (Conn_one (env\<lparr>ev_base := b'\<rparr>) ctx c msg a r0 w)"
  unfolding Conn_one_def by (intro ord_rules Conn_call_ord)

lemmas call_ords = ord_rules Conn_call_ord Conn_ops_ord Conn_one_ord

lemma clientName_base: "clientName (env\<lparr>ev_base := b\<rparr>) c = clientName (env\<lparr>ev_base := b'\<rparr>) c"
  by (simp add: clientName_def)

lemma env_base:
  "ev_rand (env\<lparr>ev_base := b\<rparr>) = ev_rand (env\<lparr>ev_base := b'\<rparr>)"
  "ev_dial (env\<lparr>ev_base := b\<rparr>) = ev_dial (env\<lparr>ev_base := b'\<rparr>)"
  "ev_close (env\<lparr>ev_base := b\<rparr>) = ev_close (env\<lparr>ev_base := b'\<rparr>)"
  "ev_background (env\<lparr>ev_base := b\<rparr>) = ev_background (env\<lparr>ev_base := b'\<rparr>)"
  by simp_all

lemma Lookup_ord:
  "option_ord (Lookup (env\<lparr>ev_base := b\<rparr>) ctx c dir name w) (Lookup (env\<lparr>ev_base := b'\<rparr>) ctx c dir name w)"
  unfolding Lookup_def by (intro call_ords)

lemma GetAttr_ord:
  "option_ord (GetAttr (env\<lparr>ev_base := b\<rparr>) ctx c fh bm w) (GetAttr (env\<lparr>ev_base := b'\<rparr>) ctx c fh bm w)"
  unfolding GetAttr_def by (intro call_ords)

lemma Read_ord:
  "option_ord (Read (env\<lparr>ev_base := b\<rparr>) ctx c fh off count w) (Read (env\<lparr>ev_base := b'\<rparr>) ctx c fh off count w)"
  unfolding Read_def by (intro call_ords)

lemma Readdir_ord:
  "option_ord (Readdir (env\<lparr>ev_base := b\<rparr>) ctx c dir cookie verf bm w)
     (Readdir (env\<lparr>ev_base := b'\<rparr>) ctx c dir cookie verf bm w)"
  unfolding Readdir_def by (intro call_ords)

lemma Renew_ord: "option_ord (Renew (env\<lparr>ev_base := b\<rparr>) ctx c w) (Renew (env\<lparr>ev_base := b'\<rparr>) ctx c w)"
  unfolding Renew_def by (intro call_ords)

lemma Readlink_ord:
  "option_ord (Readlink (env\<lparr>ev_base := b\<rparr>) ctx c fh w) (Readlink (env\<lparr>ev_base := b'\<rparr>) ctx c fh w)"
  unfolding Readlink_def by (intro call_ords)

lemma LookupPath_loop_ord:
  "option_ord (LookupPath_loop (env\<lparr>ev_base := b\<rparr>) ctx c cur comps w)
     (LookupPath_loop (env\<lparr>ev_base := b'\<rparr>) ctx c cur comps w)"
proof (induction comps arbitrary: cur w)
  case Nil
  show ?case by (simp add: ord_refl)
next
  case (Cons name comps)
  show ?case unfolding LookupPath_loop.simps by (intro ord_rules Lookup_ord Cons.IH)
qed

lemma LookupPath_ord:
  "option_ord (LookupPath (env\<lparr>ev_base := b\<rparr>) ctx c comps w) (LookupPath (env\<lparr>ev_base := b'\<rparr>) ctx c comps w)"
  unfolding LookupPath_def by (intro ord_rules LookupPath_loop_ord)

lemma openConfirm_ord:
  "option_ord (openConfirm (env\<lparr>ev_base := b\<rparr>) ctx c fh sid w) (openConfirm (env\<lparr>ev_base := b'\<rparr>) ctx c fh sid w)"
  unfolding openConfirm_def by (intro call_ords)

lemma Open_ord:
  "option_ord (Open (env\<lparr>ev_base := b\<rparr>) ctx c dir name share bm vals doCreate excl w)
     (Open (env\<lparr>ev_base := b'\<rparr>) ctx c dir name share bm vals doCreate excl w)"
  unfolding Open_def by (intro call_ords openConfirm_ord)

lemma Write_ord:
  "option_ord (Write (env\<lparr>ev_base := b\<rparr>) ctx c fh sid off data how w)
     (Write (env\<lparr>ev_base := b'\<rparr>) ctx c fh sid off data how w)"
  unfolding Write_def by (intro call_ords)

lemma Commit_ord:
  "option_ord (Commit (env\<lparr>ev_base := b\<rparr>) ctx c fh off count w) (Commit (env\<lparr>ev_base := b'\<rparr>) ctx c fh off count w)"
  unfolding Commit_def by (intro call_ords)

lemma CloseFile_ord:
  "option_ord (CloseFile (env\<lparr>ev_base := b\<rparr>) ctx c fh sid w) (CloseFile (env\<lparr>ev_base := b'\<rparr>) ctx c fh sid w)"
  unfolding CloseFile_def by (intro call_ords)

lemma create_ord:
  "option_ord (create (env\<lparr>ev_base := b\<rparr>) ctx c dir args w) (create (env\<lparr>ev_base := b'\<rparr>) ctx c dir args w)"
  unfolding create_def by (intro call_ords)

lemma Mkdir_ord:
  "option_ord (Mkdir (env\<lparr>ev_base := b\<rparr>) ctx c dir name bm vals w) (Mkdir (env\<lparr>ev_base := b'\<rparr>) ctx c dir name bm vals w)"
  unfolding Mkdir_def by (rule create_ord)

lemma Symlink_ord:
  "option_ord (Symlink (env\<lparr>ev_base := b\<rparr>) ctx c dir name target bm vals w)
     (Symlink (env\<lparr>ev_base := b'\<rparr>) ctx c dir name target bm vals w)"
  unfolding Symlink_def by (rule create_ord)

lemma Remove_ord:
  "option_ord (Remove (env\<lparr>ev_base := b\<rparr>) ctx c dir name w) (Remove (env\<lparr>ev_base := b'\<rparr>) ctx c dir name w)"
  unfolding Remove_def by (intro call_ords)

lemma Rename_ord:
  "option_ord (Rename (env\<lparr>ev_base := b\<rparr>) ctx c src old dst new w) (Rename (env\<lparr>ev_base := b'\<rparr>) ctx c src old dst new w)"
  unfolding Rename_def by (intro call_ords)

lemma Link_ord:
  "option_ord (Link (env\<lparr>ev_base := b\<rparr>) ctx c src dst name w) (Link (env\<lparr>ev_base := b'\<rparr>) ctx c src dst name w)"
  unfolding Link_def by (intro call_ords)

lemma SetAttr_ord:
  "option_ord (SetAttr (env\<lparr>ev_base := b\<rparr>) ctx c fh sid bm vals w) (SetAttr (env\<lparr>ev_base := b'\<rparr>) ctx c fh sid bm vals w)"
  unfolding SetAttr_def by (intro call_ords)

lemma exchangeID_ord:
  "option_ord (exchangeID (env\<lparr>ev_base := b\<rparr>) ctx c w) (exchangeID (env\<lparr>ev_base := b'\<rparr>) ctx c w)"
  unfolding exchangeID_def env_base clientName_base by (intro call_ords)

lemma createSession_ord:
  "option_ord (createSession (env\<lparr>ev_base := b\<rparr>) ctx c w) (createSession (env\<lparr>ev_base := b'\<rparr>) ctx c w)"
  unfolding createSession_def by (intro call_ords)

lemma reclaimComplete_ord:
  "option_ord (reclaimComplete (env\<lparr>ev_base := b\<rparr>) ctx c w) (reclaimComplete (env\<lparr>ev_base := b'\<rparr>) ctx c w)"
  unfolding reclaimComplete_def by (intro call_ords)

lemma setClientID_ord:
  "option_ord (setClientID (env\<lparr>ev_base := b\<rparr>) ctx c w) (setClientID (env\<lparr>ev_base := b'\<rparr>) ctx c w)"
  unfolding setClientID_def env_base clientName_base by (intro call_ords)

lemma confirmClientID_ord:
  "option_ord (confirmClientID (env\<lparr>ev_base := b\<rparr>) ctx c w) (confirmClientID (env\<lparr>ev_base := b'\<rparr>) ctx c w)"
  unfolding confirmClientID_def by (intro call_ords)

lemma fetchRootFH_ord:
  "option_ord (fetchRootFH (env\<lparr>ev_base := b\<rparr>) ctx c w) (fetchRootFH (env\<lparr>ev_base := b'\<rparr>) ctx c w)"
  unfolding fetchRootFH_def by (intro call_ords)

lemma Mount_ord: "option_ord (Mount (env\<lparr>ev_base := b\<rparr>) ctx c w) (Mount (env\<lparr>ev_base := b'\<rparr>) ctx c w)"
  unfolding Mount_def mountV41_def
  by (intro ord_rules exchangeID_ord createSession_ord reclaimComplete_ord setClientID_ord confirmClientID_ord fetchRootFH_ord)

lemma Dial_ord:
  "option_ord (Dial (env\<lparr>ev_base := b\<rparr>) ctx address cred cfg w) (Dial (env\<lparr>ev_base := b'\<rparr>) ctx address cred cfg w)"
  unfolding Dial_def env_base by (intro ord_rules Mount_ord)

lemma DialAuto_ord:
  "option_ord (DialAuto (env\<lparr>ev_base := b\<rparr>) ctx address cred cfg w) (DialAuto (env\<lparr>ev_base := b'\<rparr>) ctx address cred cfg w)"
  unfolding DialAuto_def by (intro ord_rules Dial_ord)

lemma teardownSession_ord:
  "option_ord (teardownSession (env\<lparr>ev_base := b\<rparr>) c w) (teardownSession (env\<lparr>ev_base := b'\<rparr>) c w)"
  by (cases "cn_session c") (simp_all add: teardownSession_def Let_def ord_refl, intro ord_rules CallCompound_ord)

lemma Close_ord: "option_ord (Close (env\<lparr>ev_base := b\<rparr>) c w) (Close (env\<lparr>ev_base := b'\<rparr>) c w)"
  unfolding Close_def env_base by (intro ord_rules teardownSession_ord)

end

subsection \<open>The file systems\<close>

text \<open>A file system and an open file on another protocol.\<close>

definition rwfs_on :: "('c, 'p) proto \<Rightarrow> ('c, 'p) RWFS \<Rightarrow> ('c, 'p) RWFS" where
  "rwfs_on P fsys = fsys\<lparr>rw_FS := (rw_FS fsys)\<lparr>fs_proto := P\<rparr>, rw_proto := P\<rparr>"

definition file_on :: "('c, 'p) proto \<Rightarrow> ('c, 'p) File \<Rightarrow> ('c, 'p) File" where
  "file_on P f = f\<lparr>f_fsys := rwfs_on P (f_fsys f)\<rparr>"

lemma rwfs_on_simps [simp]: "rw_proto (rwfs_on P fsys) = P" "rwfs_on Q (rwfs_on P fsys) = rwfs_on Q fsys"
  by (simp_all add: rwfs_on_def)

lemma file_on_simps [simp]:
  "f_fsys (file_on P f) = rwfs_on P (f_fsys f)" "f_ctx (file_on P f) = f_ctx f" "f_name (file_on P f) = f_name f"
  "f_fh (file_on P f) = f_fh f" "f_stateid (file_on P f) = f_stateid f" "f_flag (file_on P f) = f_flag f"
  "f_offset (file_on P f) = f_offset f" "f_closed (file_on P f) = f_closed f"
  "(file_on P f)\<lparr>f_offset := x\<rparr> = file_on P (f\<lparr>f_offset := x\<rparr>)"
  "(file_on P f)\<lparr>f_closed := y\<rparr> = file_on P (f\<lparr>f_closed := y\<rparr>)" "file_on Q (file_on P f) = file_on Q f"
  by (simp_all add: file_on_def)

text \<open>
  An operation that returns an open file returns it on its own protocol. Two are compared after
  moving the file of the first to the second.
\<close>

definition move :: "('c, 'p) proto \<Rightarrow> 'a \<times> ('c, 'p) File \<times> 'p \<Rightarrow> 'a \<times> ('c, 'p) File \<times> 'p" where
  "move Q = (\<lambda>(x, f, s). (x, file_on Q f, s))"

definition move_out :: "('c, 'p) proto \<Rightarrow> ('e + ('c, 'p) File) \<times> 'p \<Rightarrow> ('e + ('c, 'p) File) \<times> 'p" where
  "move_out Q = (\<lambda>(r, s). (map_sum id (file_on Q) r, s))"

lemma move_simps [simp]:
  "move Q (x, f, s) = (x, file_on Q f, s)" "move_out Q (Inl e, s) = (Inl e, s)"
  "move_out Q (Inr f, s) = (Inr (file_on Q f), s)"
  by (simp_all add: move_def move_out_def)

locale proto_order =
  fixes P P' :: "('c, 'p) proto"
  assumes root_same: "pr_RootFH P = pr_RootFH P'"
    and lookup_ord: "option_ord (pr_Lookup P ctx fh name s) (pr_Lookup P' ctx fh name s)"
    and getattr_ord: "option_ord (pr_GetAttr P ctx fh bm s) (pr_GetAttr P' ctx fh bm s)"
    and read_ord: "option_ord (pr_Read P ctx fh off count s) (pr_Read P' ctx fh off count s)"
    and readdir_ord: "option_ord (pr_Readdir P ctx fh cookie verf bm s) (pr_Readdir P' ctx fh cookie verf bm s)"
    and readlink_ord: "option_ord (pr_Readlink P ctx fh s) (pr_Readlink P' ctx fh s)"
    and open_ord: "option_ord (pr_Open P ctx fh name share bm vals doCreate excl s)
      (pr_Open P' ctx fh name share bm vals doCreate excl s)"
    and write_ord: "option_ord (pr_Write P ctx fh sid off data how s) (pr_Write P' ctx fh sid off data how s)"
    and commit_ord: "option_ord (pr_Commit P ctx fh off count s) (pr_Commit P' ctx fh off count s)"
    and closefile_ord: "option_ord (pr_CloseFile P ctx fh sid s) (pr_CloseFile P' ctx fh sid s)"
    and setattr_ord: "option_ord (pr_SetAttr P ctx fh sid bm vals s) (pr_SetAttr P' ctx fh sid bm vals s)"
begin

lemma lookup_all_ord: "option_ord (lookup_all P ctx fh comps s) (lookup_all P' ctx fh comps s)"
proof (induction comps arbitrary: fh s)
  case Nil
  show ?case by (simp add: ord_refl)
next
  case (Cons name comps)
  show ?case unfolding lookup_all.simps by (intro ord_rules lookup_ord Cons.IH)
qed

lemma FS_stat_ord: "option_ord (FS_stat (fsys\<lparr>fs_proto := P\<rparr>) fh s) (FS_stat (fsys\<lparr>fs_proto := P'\<rparr>) fh s)"
  unfolding FS_stat_def by (simp, intro ord_rules getattr_ord)

lemma FS_resolve_ord:
  "option_ord (FS_resolve (fsys\<lparr>fs_proto := P\<rparr>) name s) (FS_resolve (fsys\<lparr>fs_proto := P'\<rparr>) name s)"
proof -
  have "option_ord (lookup_all P (fs_ctx fsys) (pr_RootFH P s) comps s) (lookup_all P' (fs_ctx fsys) (pr_RootFH P' s) comps s)"
    for comps unfolding root_same by (rule lookup_all_ord)
  then show ?thesis
    unfolding FS_resolve_def by (intro ord_rules FS_stat_ord) (simp_all add: ord_refl)
qed

lemma FS_stat_op_ord:
  "option_ord (FS_stat_op op (fsys\<lparr>fs_proto := P\<rparr>) name s) (FS_stat_op op (fsys\<lparr>fs_proto := P'\<rparr>) name s)"
  unfolding FS_stat_op_def by (intro ord_rules FS_resolve_ord)

lemma FS_Stat_ord: "option_ord (FS_Stat (fsys\<lparr>fs_proto := P\<rparr>) name s) (FS_Stat (fsys\<lparr>fs_proto := P'\<rparr>) name s)"
  unfolding FS_Stat_def by (rule FS_stat_op_ord)

lemma FS_ReadLink_ord:
  "option_ord (FS_ReadLink (fsys\<lparr>fs_proto := P\<rparr>) name s) (FS_ReadLink (fsys\<lparr>fs_proto := P'\<rparr>) name s)"
  unfolding FS_ReadLink_def
  by (intro ord_rules FS_resolve_ord) (simp_all add: readlink_ord)

lemma readDirAll_loop_ord:
  "option_ord (readDirAll_loop (fsys\<lparr>fs_proto := P\<rparr>) fh cookie verf out s)
     (readDirAll_loop (fsys\<lparr>fs_proto := P'\<rparr>) fh cookie verf out s)"
proof -
  have read: "pr_Readdir P ctx fh cookie verf bm s = Some x \<Longrightarrow> pr_Readdir P' ctx fh cookie verf bm s = Some x"
    for ctx fh cookie verf bm s x using readdir_ord [of ctx fh cookie verf bm s] by (simp add: flat_ord_def)
  have "G = fsys\<lparr>fs_proto := P\<rparr> \<longrightarrow> readDirAll_loop (fsys\<lparr>fs_proto := P'\<rparr>) fh cookie verf out s = Some r"
    if "readDirAll_loop G fh cookie verf out s = Some r" for G r
  proof (rule readDirAll_loop.raw_induct [OF _ that], intro impI, goal_cases)
    case (1 loop G fh cookie verf out s r)
    note IH = 1(1) and G = 1(3)
    from 1(2) G obtain q s1 where q: "pr_Readdir P (fs_ctx fsys) fh cookie verf StandardMask s = Some (q, s1)"
      by (cases "pr_Readdir P (fs_ctx fsys) fh cookie verf StandardMask s") auto
    note q' = read [OF q]
    show ?case
    proof (cases q)
      case (Inl e)
      then show ?thesis using 1(2) G q q' by (simp add: readDirAll_loop.simps)
    next
      case (Inr res)
      show ?thesis
      proof (cases "readDir_page (res_Entries res) cookie out")
        case (Inl e)
        then show ?thesis using 1(2) G q q' Inr by (simp add: readDirAll_loop.simps)
      next
        case page: (Inr pg)
        show ?thesis
        proof (cases "res_EOF res \<or> res_Entries res = []")
          case True
          then show ?thesis using 1(2) G q q' Inr page by (auto simp: readDirAll_loop.simps split: if_splits)
        next
          case False
          then have "loop G fh (fst pg) (res_Cookieverf res) (snd pg) s1 = Some r"
            using 1(2) G q Inr page by simp
          from IH [OF this] G False q' Inr page show ?thesis
            by (subst readDirAll_loop.simps) simp
        qed
      qed
    qed
  qed
  then show ?thesis
    by (cases "readDirAll_loop (fsys\<lparr>fs_proto := P\<rparr>) fh cookie verf out s") (simp_all add: flat_ord_def)
qed

lemma readDirAll_ord:
  "option_ord (readDirAll (fsys\<lparr>fs_proto := P\<rparr>) fh s) (readDirAll (fsys\<lparr>fs_proto := P'\<rparr>) fh s)"
  unfolding readDirAll_def by (rule readDirAll_loop_ord)

lemma FS_ReadDir_ord:
  "option_ord (FS_ReadDir (fsys\<lparr>fs_proto := P\<rparr>) name s) (FS_ReadDir (fsys\<lparr>fs_proto := P'\<rparr>) name s)"
  unfolding FS_ReadDir_def by (intro ord_rules FS_resolve_ord readDirAll_ord)

lemma ReadAt_loop_ord: "option_ord (ReadAt_loop (file_on P f) off tot p s) (ReadAt_loop (file_on P' f) off tot p s)"
proof (induction "length p - tot" arbitrary: tot p s rule: less_induct)
  case less
  show ?case
  proof (cases "tot \<ge> length p")
    case True
    then show ?thesis by (simp add: ReadAt_loop.simps ord_refl)
  next
    case False
    have "option_ord (ReadAt_loop (file_on P f) off (tot + n) (take tot p @ rest) s)
        (ReadAt_loop (file_on P' f) off (tot + n) (take tot p @ rest) s)"
      if "go_copy (drop tot p) data = (n, rest)" "data \<noteq> []" for n rest data s
    proof (rule less)
      have "n \<noteq> 0" "length (take tot p @ rest) = length p"
        using that False by (auto simp: go_copy_def Let_def)
      then show "length (take tot p @ rest) - (tot + n) < length p - tot" using False by linarith
    qed
    with False show ?thesis
      by (simp add: ReadAt_loop.simps [of "file_on P f"] ReadAt_loop.simps [of "file_on P' f"],
          intro ord_then read_ord) (auto simp: ord_refl split: prod.splits sum.splits)
  qed
qed

lemma File_ReadAt_ord: "option_ord (File_ReadAt p off (file_on P f) s) (File_ReadAt p off (file_on P' f) s)"
  by (simp add: File_ReadAt_def errClosed_def ReadAt_loop_ord ord_refl)

lemma writeAt_ord: "option_ord (writeAt (file_on P f) p off tot s) (writeAt (file_on P' f) p off tot s)"
proof (induction "length p - tot" arbitrary: tot s rule: less_induct)
  case less
  show ?case
  proof (cases "tot \<ge> length p")
    case True
    then show ?thesis by (simp add: writeAt.simps ord_refl)
  next
    case False
    have "option_ord (writeAt (file_on P f) p off (tot + unat n) s) (writeAt (file_on P' f) p off (tot + unat n) s)"
      if "n \<noteq> 0" for n :: u32 and s
    proof (rule less)
      have "0 < unat n" using that by (simp add: unat_gt_0)
      then show "length p - (tot + unat n) < length p - tot" using False by linarith
    qed
    with False show ?thesis
      by (simp add: writeAt.simps [of "file_on P f"] writeAt.simps [of "file_on P' f"],
          intro ord_then write_ord) (auto simp: ord_refl split: prod.splits sum.splits)
  qed
qed

lemma File_WriteAt_ord: "option_ord (File_WriteAt p off (file_on P f) s) (File_WriteAt p off (file_on P' f) s)"
  by (simp add: File_WriteAt_def errClosed_def writeAt_ord ord_refl)

lemma File_Truncate_ord: "option_ord (File_Truncate sz (file_on P f) s) (File_Truncate sz (file_on P' f) s)"
  unfolding File_Truncate_def errClosed_def file_on_simps rwfs_on_simps by (intro ord_rules setattr_ord)

lemma File_Sync_ord: "option_ord (File_Sync (file_on P f) s) (File_Sync (file_on P' f) s)"
  unfolding File_Sync_def errClosed_def file_on_simps rwfs_on_simps by (intro ord_rules commit_ord)

lemma File_attrs_ord: "option_ord (File_attrs (file_on P f) s) (File_attrs (file_on P' f) s)"
  unfolding File_attrs_def by (simp, intro ord_rules getattr_ord)

lemma File_Stat_ord: "option_ord (File_Stat (file_on P f) s) (File_Stat (file_on P' f) s)"
  unfolding File_Stat_def errClosed_def file_on_simps rwfs_on_simps by (intro ord_rules File_attrs_ord)

lemma File_Close_ord: "option_ord (map_option (move P') (File_Close (file_on P f) s)) (File_Close (file_on P' f) s)"
  unfolding File_Close_def errClosed_def file_on_simps rwfs_on_simps Let_def
  by (intro via_rules closefile_ord via_Some) simp_all

lemma File_size_ord: "option_ord (File_size (file_on P f) s) (File_size (file_on P' f) s)"
  unfolding File_size_def by (intro ord_rules File_attrs_ord)

lemma File_Write_ord: "option_ord (map_option (move P') (File_Write p (file_on P f) s)) (File_Write p (file_on P' f) s)"
  unfolding File_Write_def errClosed_def file_on_simps rwfs_on_simps
  by (intro via_rules ord_rules File_size_ord writeAt_ord via_Some) (simp_all add: flat_ord_def split: prod.splits)

lemma File_Seek_ord: "option_ord (map_option (move P') (File_Seek off whence (file_on P f) s)) (File_Seek off whence (file_on P' f) s)"
  unfolding File_Seek_def errClosed_def file_on_simps rwfs_on_simps
  by (intro via_rules ord_rules File_size_ord via_Some) simp_all

lemma resolveParent_ord:
  "option_ord (resolveParent (rwfs_on P fsys) ctx name s) (resolveParent (rwfs_on P' fsys) ctx name s)"
  unfolding resolveParent_def rwfs_on_simps root_same by (intro ord_rules lookup_all_ord)

lemma OpenFile_ord:
  "option_ord (map_option (move_out P') (OpenFile (rwfs_on P fsys) ctx name flag perm s)) (OpenFile (rwfs_on P' fsys) ctx name flag perm s)"
proof -
  define f where "f fsys fh sid = \<lparr>f_fsys = fsys, f_ctx = ctx, f_name = name, f_fh = fh, f_stateid = sid, f_flag = flag,
      f_share = shareFor flag, f_offset = 0, f_closed = False\<rparr>" for fsys :: "('c, 'p) RWFS" and fh sid
  have f: "f (rwfs_on Q fsys) fh sid = file_on Q (f fsys fh sid)" for Q fh sid by (simp add: f_def file_on_def)
  show ?thesis
    unfolding OpenFile_def Let_def f_def [symmetric] f rwfs_on_simps
    by (intro via_if via_prod via_sum via_option via_Some via_bind [OF resolveParent_ord] via_bind [OF open_ord]
        via_bind [OF File_Truncate_ord] via_via_bind [OF File_Close_ord]) (auto simp: ord_refl split: prod.splits)
qed

end

sublocale base_order \<subseteq> conn: proto_order "conn_proto (env\<lparr>ev_base := b\<rparr>)" "conn_proto (env\<lparr>ev_base := b'\<rparr>)" for env
  by unfold_locales
    (auto simp: conn_proto_def with_conn_def split: prod.splits
      intro!: ord_map Lookup_ord GetAttr_ord Read_ord Readdir_ord Readlink_ord Open_ord Write_ord Commit_ord
        CloseFile_ord SetAttr_ord)

context base_order
begin

lemma client_Mount_ord:
  "option_ord (client_Mount (env\<lparr>ev_base := b\<rparr>) ctx server export cred opts w)
     (client_Mount (env\<lparr>ev_base := b'\<rparr>) ctx server export cred opts w)"
  unfolding client_Mount_def by (intro ord_rules DialAuto_ord Dial_ord LookupPath_ord Close_ord)

end

subsection \<open>Over the bytes\<close>

text \<open>The abstract server for the calls whose messages fit; no answer to the others.\<close>

definition fits_base :: "'s server \<Rightarrow> 's wire goctx \<Rightarrow> 's wire call" where
  "fits_base sv ctx c results w = (if wire_fits sv ctx c results w then serve sv ctx c results w else None)"

interpretation on_bytes: base_order "fits_base sv" "rpc_base sv" for sv
  by unfold_locales (auto simp: fits_base_def rpc_base_serve flat_ord_def)

interpretation on_server: base_order "fits_base sv" "serve sv" for sv
  by unfold_locales (auto simp: fits_base_def flat_ord_def)

end
