(* ===== verification/Wire_Props.thy ===== *)
theory Wire_Props
  imports Stack
begin

text \<open>
  What a connection and the file systems promise over the bytes of the RPC connection: a condition
  on the operations and their results alone under which a call fits the wire formats, and the
  methods on such calls.
\<close>

subsection \<open>The size of the messages\<close>

definition args_size :: "arg list \<Rightarrow> nat" where
  "args_size ops = sum_list (map (\<lambda>a. length (encoded (EncodeArg a))) ops)"

definition outs_size :: "res list \<Rightarrow> nat" where
  "outs_size rs = sum_list (map (\<lambda>r. 4 + length (encoded (encode_outcome (res_zero r) (res_outcome r)))) rs)"

lemma length_wire_opaque: "length (wire_opaque p) \<le> length p + 7"
  using pad4_less [of "length p"] by (simp add: wire_opaque_def length_wire_fixed)

lemma length_request:
  "length (encoded (Compound_Encode \<lparr>cp_Tag = [], cp_MinorVersion = mv, cp_ops = ops\<rparr>)) = 12 + args_size ops"
proof -
  have "writes (Compound_Encode \<lparr>cp_Tag = [], cp_MinorVersion = mv, cp_ops = ops\<rparr>)
      (wire_string [] @ BigEndian_PutUint32 mv @ BigEndian_PutUint32 (word_of_nat (length ops)) @
       concat (map (\<lambda>a. encoded (EncodeArg a)) ops))"
    unfolding Compound_Encode_def by (simp, intro writes_bind writes_String writes_Uint32 argop.list_writes)
  then show ?thesis
    by (simp add: encoded_writes args_size_def wire_string_def wire_opaque_def wire_fixed_def length_concat comp_def)
qed

lemma length_request_msg:
  assumes "client_idle cl"
  shows "length (request_msg cl \<lparr>cp_Tag = [], cp_MinorVersion = mv, cp_ops = ops\<rparr>) \<le> 2 ^ 28 + args_size ops"
proof -
  have "length (wire_auth a) \<le> 64 * 2 ^ 20 + 11" if "auth_ok a" for a
    using that length_wire_opaque [of "oa_Body a"] by (simp add: wire_auth_def auth_ok_def opaque_ok_def)
  from this [of "co_Cred (cl_opts cl)"] this [of "co_Verf (cl_opts cl)"] assms
  show ?thesis
    by (simp add: client_idle_def request_msg_def wire_call_def length_request)
qed

lemma set_Status_same [simp]: "set_Status (res_Status r) r = r"
  by (cases r) simp_all

lemma length_outcomes:
  assumes "list_all2 answers ops rs" and "list_all (\<lambda>r. res_Status r = NFS4_OK \<longrightarrow> res_ok r) rs"
  shows "\<exists>bs. writes (encode_outcomes (map res_zero rs) (zip (map Arg_Op ops) (map res_outcome rs))) bs \<and>
           length bs = outs_size rs"
  using assms
proof (induction rule: list_all2_induct)
  case Nil
  show ?case by (auto simp: outs_size_def intro!: exI [of _ "[]"] writes_return)
next
  case (Cons a ops r rs)
  then obtain bs where bs: "writes (encode_outcomes (map res_zero rs) (zip (map Arg_Op ops) (map res_outcome rs))) bs"
    "length bs = outs_size rs" by auto
  have "fitting_struct a (res_zero r)" using Cons(1) by (simp add: fitting_struct_def answers_def)
  with answer_outcome [OF Cons(1)] Cons.prems have "outcome_ok (Arg_Op a) (res_zero r) (res_outcome r)" by simp
  from transports_outcome [OF this] obtain xs where xs: "writes (encode_outcome (res_zero r) (res_outcome r)) xs"
    by (auto simp: transports_def)
  have "writes (encode_outcomes (map res_zero (r # rs)) (zip (map Arg_Op (a # ops)) (map res_outcome (r # rs))))
      (BigEndian_PutUint32 (Arg_Op a) @ xs @ bs)"
    by (simp del: encode_outcome.simps) (intro writes_bind writes_Uint32 xs bs)
  then show ?case using bs(2) xs by (auto simp: outs_size_def encoded_writes)
qed

lemma zip_take_left: "zip (take (length ys) xs) ys = zip xs ys"
proof (induction ys arbitrary: xs)
  case (Cons y ys)
  then show ?case by (cases xs) simp_all
qed simp

lemma length_reply_msg:
  assumes "list_all2 answers (take (length rs) ops) rs" and "list_all (\<lambda>r. res_Status r = NFS4_OK \<longrightarrow> res_ok r) rs"
  shows "length (reply_msg cl \<lparr>cp_Tag = [], cp_MinorVersion = mv, cp_ops = ops\<rparr> rs) = 36 + outs_size rs"
proof -
  let ?c = "\<lparr>cp_Tag = [], cp_MinorVersion = mv, cp_ops = ops\<rparr>"
  have z: "zip (map Arg_Op ops) (map res_outcome rs) = zip (map Arg_Op (take (length rs) ops)) (map res_outcome rs)"
    using zip_take_left [of "map res_outcome rs" "map Arg_Op ops"] by (simp add: take_map)
  from length_outcomes [OF assms] obtain bs where
    bs: "writes (encode_outcomes (map res_zero rs) (zip (map Arg_Op ops) (map res_outcome rs))) bs" "length bs = outs_size rs"
    unfolding z [symmetric] by blast
  have "writes (encode_reply (final_status rs) [] (map res_zero rs) (zip (map Arg_Op ops) (map res_outcome rs)))
      (BigEndian_PutUint32 (final_status rs) @ wire_string [] @
       BigEndian_PutUint32 (word_of_nat (length (zip (map Arg_Op ops) (map res_outcome rs)))) @ bs)"
    unfolding encode_reply_def by (intro writes_bind writes_Uint32 writes_String bs)
  then have "length (reply_body ?c rs) = 12 + outs_size rs"
    using bs(2) by (simp add: reply_body_def encoded_writes wire_string_def wire_opaque_def wire_fixed_def)
  then show ?thesis
    by (simp add: reply_msg_def wire_auth_def wire_opaque_def wire_fixed_def AuthNull_def)
qed

subsection \<open>Calls that fit\<close>

text \<open>
  Operations with their result structs whose request and results, at a server in state \<open>s\<close>, are
  within the limits. Neither transaction ids, credentials nor SEQUENCE matter.
\<close>

definition conn_fits :: "'s server \<Rightarrow> arg list \<Rightarrow> res list \<Rightarrow> 's \<Rightarrow> bool" where
  "conn_fits sv ops results s \<longleftrightarrow>
     list_all arg_ok ops \<and> length ops < 2 ^ 31 \<and> args_size ops \<le> 2 ^ 30 \<and> list_all2 fitting_struct ops results \<and>
     (let out = fst (run_ops sv (None, None) ops s)
      in list_all (\<lambda>r. res_Status r = NFS4_OK \<longrightarrow> res_ok r) out \<and> outs_size out \<le> 2 ^ 27)"

text \<open>A connection in use whose RPC client is between two calls.\<close>

definition conn_ready :: "'s wire Conn \<Rightarrow> 's wire store \<Rightarrow> bool" where
  "conn_ready c w \<longleftrightarrow>
     conn_on c w \<and> client_idle (wi_rpc (st_world w)) \<and>
     (case wi_sid (st_world w) of None \<Rightarrow> True | Some sid \<Rightarrow> length sid = 16)"

lemma wire_fits_plain:
  assumes fits: "conn_fits sv ops results (wi_fs (st_world w))" and idle: "client_idle (wi_rpc (st_world w))"
  shows "wire_fits sv calm_ctx \<lparr>cp_Tag = [], cp_MinorVersion = 0, cp_ops = ops\<rparr> results w"
proof -
  let ?c = "\<lparr>cp_Tag = [], cp_MinorVersion = 0, cp_ops = ops\<rparr>"
  obtain out fs where out: "run_ops sv (None, None) ops (wi_fs (st_world w)) = (out, fs)" by (metis prod.exhaust)
  from fits out have ok: "list_all (\<lambda>r. res_Status r = NFS4_OK \<longrightarrow> res_ok r) out" "outs_size out \<le> 2 ^ 27"
    and ops: "list_all arg_ok ops" "length ops < 2 ^ 31" "args_size ops \<le> 2 ^ 30" "list_all2 fitting_struct ops results"
    by (simp_all add: conn_fits_def)
  have "length (reply_msg (wi_rpc (st_world w)) ?c out) = 36 + outs_size out"
    using length_reply_msg run_ops_answers [OF out] ok(1) by blast
  then have "length (reply_msg (wi_rpc (st_world w)) ?c out) \<le> maxFragmentSize"
    using ok(2) by (simp add: maxFragmentSize_def)
  moreover have "length (request_msg (wi_rpc (st_world w)) ?c) < 2 ^ 31"
    using length_request_msg [OF idle, of 0 ops] ops(3) by simp
  moreover have "compound_ok ?c" using ops by (simp add: compound_ok_def string_ok_def opaque_ok_def)
  ultimately show ?thesis
    using idle ops(4) ok(1) out by (simp add: wire_fits_def calm_ctx_def)
qed

lemma wire_fits_sequence:
  assumes fits: "conn_fits sv ops results (wi_fs (st_world w))" and idle: "client_idle (wi_rpc (st_world w))"
    and sid: "wi_sid (st_world w) = Some (sq_SessionID q)" "length (sq_SessionID q) = 16"
    and slot: "unat (sq_SlotID q) < length (wi_slots (st_world w))"
      "sq_SequenceID q = wi_slots (st_world w) ! unat (sq_SlotID q) + 1"
  shows "wire_fits sv calm_ctx \<lparr>cp_Tag = [], cp_MinorVersion = 1, cp_ops = ASequence q # ops\<rparr> (SequenceRes_zero # results) w"
proof -
  let ?c = "\<lparr>cp_Tag = [], cp_MinorVersion = 1, cp_ops = ASequence q # ops\<rparr>"
  let ?r = "SequenceRes 0 (sq_SessionID q) (sq_SequenceID q) (sq_SlotID q) (sq_HighestSlotID q) (sq_HighestSlotID q) 0"
  obtain out fs where out: "run_ops sv (None, None) ops (wi_fs (st_world w)) = (out, fs)" by (metis prod.exhaust)
  from fits out have ok: "list_all (\<lambda>r. res_Status r = NFS4_OK \<longrightarrow> res_ok r) out" "outs_size out \<le> 2 ^ 27"
    and ops: "list_all arg_ok ops" "length ops < 2 ^ 31" "args_size ops \<le> 2 ^ 30" "list_all2 fitting_struct ops results"
    by (simp_all add: conn_fits_def)
  obtain s' where run: "wire_ops sv 1 (ASequence q # ops) (st_world w) = (?r # out, s')"
    using out sid slot by (simp add: wire_sequence_def Let_def)
  have "writes (do { Encoder_Uint32 NFS4_OK; encode_res no_extras ?r })
      (BigEndian_PutUint32 0 @ wire_fixed (sq_SessionID q) @ BigEndian_PutUint32 (sq_SequenceID q) @
       BigEndian_PutUint32 (sq_SlotID q) @ BigEndian_PutUint32 (sq_HighestSlotID q) @
       BigEndian_PutUint32 (sq_HighestSlotID q) @ BigEndian_PutUint32 0)"
    unfolding encode_res.simps by (intro writes_bind wire_writes)
  then have "outs_size (?r # out) = 44 + outs_size out"
    using sid(2) by (simp add: outs_size_def res_outcome_def encoded_writes length_wire_fixed pad4_def Unit_def del: encode_res.simps)
  moreover have "length (reply_msg (wi_rpc (st_world w)) ?c (?r # out)) = 36 + outs_size (?r # out)"
    using length_reply_msg [of "?r # out" "ASequence q # ops"] wire_ops_answers [OF run] ok(1) sid(2) by simp
  ultimately have "length (reply_msg (wi_rpc (st_world w)) ?c (?r # out)) \<le> maxFragmentSize"
    using ok(2) by (simp add: maxFragmentSize_def)
  moreover have "writes (EncodeArg (ASequence q)) (BigEndian_PutUint32 OpSequence @ wire_fixed (sq_SessionID q) @
      BigEndian_PutUint32 (sq_SequenceID q) @ BigEndian_PutUint32 (sq_SlotID q) @
      BigEndian_PutUint32 (sq_HighestSlotID q) @ wire_bool (sq_CacheThis q))"
    unfolding EncodeArg.simps SequenceArgs_EncodeArg_def by (intro writes_bind wire_writes)
  then have "args_size (ASequence q # ops) = 36 + args_size ops"
    using sid(2) by (simp add: args_size_def encoded_writes length_wire_fixed wire_bool_def pad4_def Unit_def)
  then have "length (request_msg (wi_rpc (st_world w)) ?c) < 2 ^ 31"
    using length_request_msg [OF idle, of 1 "ASequence q # ops"] ops(3) by simp
  moreover have "compound_ok ?c" using ops sid(2) by (simp add: compound_ok_def string_ok_def opaque_ok_def)
  moreover have "fitting_struct (ASequence q) SequenceRes_zero"
    by (simp add: fitting_struct_def zero_for_def SequenceRes_zero_def)
  ultimately show ?thesis
    using idle ops(4) ok(1) run sid(2) by (simp add: wire_fits_def calm_ctx_def del: wire_ops.simps)
qed

text \<open>What lies below the callers is ready for the next call.\<close>

lemma conn_ready_tick:
  assumes "conn_ready c w" and "conn_on c w'" and "wi_sid (st_world w') = wi_sid (st_world w)"
    and "wi_rpc (st_world w') = snd (allocXID (wi_rpc (st_world w)))"
  shows "conn_ready c w'"
  using assms by (simp add: conn_ready_def client_idle_def allocXID_eq)

lemma ready_call_fits:
  assumes ready: "conn_ready c w" and sv: "never_delays sv" and fits: "conn_fits sv ops results (wi_fs (st_world w))"
  shows "\<exists>x w'. Conn_call (env\<lparr>ev_base := fits_base sv\<rparr>) calm_ctx c ops results w = Some (x, w') \<and> conn_ready c w'"
proof -
  obtain out fs where out: "run_ops sv (None, None) ops (wi_fs (st_world w)) = (out, fs)" by (metis prod.exhaust)
  let ?r = "(Some \<lparr>cr_Status = final_status out, cr_Tag = [], cr_NumResults = length out\<rparr>, None) :: cresult"
  have nr: "\<not> retriable ?r" using run_ops_prompt [OF sv out] by simp
  have on: "conn_on c w" and idle: "client_idle (wi_rpc (st_world w))" using ready by (simp_all add: conn_ready_def)
  show ?thesis
    using on
  proof (unfold conn_on_def [of c w], elim disjE exE conjE)
    fix cfg assume c: "cc_MinorVersion (cn_cfg c) = 0" "cn_caller c = newRetryCaller BaseCaller cfg"
    let ?c = "\<lparr>cp_Tag = [], cp_MinorVersion = 0, cp_ops = ops\<rparr>"
    let ?w' = "w\<lparr>st_world := wire_tick ((st_world w)\<lparr>wi_fs := fs\<rparr>)\<rparr>"
    have "CallCompound (fits_base sv) BaseCaller calm_ctx ?c results w = Some ((?r, out @ drop (length out) results), ?w')"
      using wire_fits_plain [OF fits idle] out by (simp add: fits_base_def serve_def)
    from retry_first [OF this nr, of cfg] c
    have "Conn_call (env\<lparr>ev_base := fits_base sv\<rparr>) calm_ctx c ops results w =
        Some ((?r, out @ drop (length out) results), ?w')"
      by (simp add: Conn_call_compound)
    moreover have "conn_ready c ?w'"
      by (rule conn_ready_tick [OF ready conn_onI40 [OF c]]) (simp_all add: wire_tick_def)
    ultimately show ?thesis by blast
  next
    fix cfg i
    assume c: "cc_MinorVersion (cn_cfg c) = 1" "cn_caller c = newRetryCaller (newSessionCaller BaseCaller i) cfg"
      and step: "in_step i w"
    let ?c = "\<lparr>cp_Tag = [], cp_MinorVersion = 1, cp_ops = ops\<rparr>"
    have same: "fits_base sv calm_ctx \<lparr>cp_Tag = [], cp_MinorVersion = 1, cp_ops = ASequence q # ops\<rparr> (SequenceRes_zero # results) w1 =
        serve sv calm_ctx \<lparr>cp_Tag = [], cp_MinorVersion = 1, cp_ops = ASequence q # ops\<rparr> (SequenceRes_zero # results) w1"
      if "wi_sid (st_world w) = Some (sq_SessionID q)" "unat (sq_SlotID q) < length (wi_slots (st_world w))"
        "sq_SequenceID q = wi_slots (st_world w) ! unat (sq_SlotID q) + 1" "st_world w1 = st_world w" for q w1
    proof -
      have "length (sq_SessionID q) = 16" using ready that(1) by (simp add: conn_ready_def)
      with wire_fits_sequence [of sv ops results w1 q] that fits idle show ?thesis by (simp add: fits_base_def)
    qed
    obtain w' where w': "CallCompound (fits_base sv) (newSessionCaller BaseCaller i) calm_ctx ?c results w =
          Some ((?r, out @ drop (length out) results), w')"
        "in_step i w'" "wi_sid (st_world w') = wi_sid (st_world w)" "wi_rpc (st_world w') = snd (allocXID (wi_rpc (st_world w)))"
      using in_step_call_via [OF step one_neq_zero out, of "fits_base sv" results, OF same] by blast
    from retry_first [OF w'(1) nr, of cfg] c
    have "Conn_call (env\<lparr>ev_base := fits_base sv\<rparr>) calm_ctx c ops results w = Some ((?r, out @ drop (length out) results), w')"
      by (simp add: Conn_call_compound)
    moreover have "conn_ready c w'" by (rule conn_ready_tick [OF ready conn_onI41 [OF c w'(2)] w'(3,4)])
    ultimately show ?thesis by blast
  qed
qed

text \<open>As \<open>performs\<close>, and the connection stays ready.\<close>

definition performs_bytes :: "'s wire Conn \<Rightarrow> ('a \<times> 's wire store) option \<Rightarrow> 'a \<times> 's \<Rightarrow> bool" where
  "performs_bytes c m spec \<longleftrightarrow> (\<exists>w'. m = Some (fst spec, w') \<and> wi_fs (st_world w') = snd spec \<and> conn_ready c w')"

lemma performs_bytes_ord: "performs_bytes c m spec \<Longrightarrow> option_ord m m' \<Longrightarrow> performs_bytes c m' spec"
  unfolding performs_bytes_def by (elim exE conjE, intro exI conjI, rule ord_Some)

lemma performs_fits:
  assumes "performs c (Option.bind (Conn_ops (env\<lparr>ev_base := serve sv\<rparr>) calm_ctx c msg args ops results w) k) spec"
    and "conn_ready c w" and "never_delays sv" and "conn_fits sv ops results (wi_fs (st_world w))"
    and keep: "\<And>y w1 z w2. k (y, w1) = Some (z, w2) \<Longrightarrow> w2 = w1"
  shows "performs_bytes c (Option.bind (Conn_ops (env\<lparr>ev_base := fits_base sv\<rparr>) calm_ctx c msg args ops results w) k) spec"
proof -
  from ready_call_fits [OF assms(2-4), of env] obtain x w1 where
    x: "Conn_call (env\<lparr>ev_base := fits_base sv\<rparr>) calm_ctx c ops results w = Some (x, w1)" "conn_ready c w1" by blast
  obtain r e rs where rs: "x = ((r, e), rs)" by (metis prod.exhaust)
  from x(1) obtain y where y: "Conn_ops (env\<lparr>ev_base := fits_base sv\<rparr>) calm_ctx c msg args ops results w = Some (y, w1)"
    unfolding rs by (cases e; cases "result_Err r") (simp_all add: Conn_ops_def)
  from assms(1) obtain w2 where
    w2: "k (y, w1) = Some (fst spec, w2)" "wi_fs (st_world w2) = snd spec"
    unfolding performs_def ord_Some [OF on_server.Conn_ops_ord y] bind.bind_lunit by blast
  with keep [OF w2(1)] x(2) y show ?thesis by (simp add: performs_bytes_def)
qed

subsection \<open>Sizes of some operations\<close>

lemma opaque_length: "opaque_ok p \<Longrightarrow> length (wire_opaque p) \<le> 64 * 2 ^ 20 + 7"
  using length_wire_opaque [of p] by (simp add: opaque_ok_def)

lemma string_length: "string_ok s \<Longrightarrow> length (wire_string s) \<le> 64 * 2 ^ 20 + 7"
  using opaque_length by (simp add: string_ok_def wire_string_def)

lemma args_size_simps [simp]: "args_size [] = 0" "args_size (a # ops) = length (encoded (EncodeArg a)) + args_size ops"
  by (simp_all add: args_size_def)

lemma outs_size_simps [simp]:
  "outs_size [] = 0"
  "outs_size (r # rs) = 4 + length (encoded (encode_outcome (res_zero r) (res_outcome r))) + outs_size rs"
  by (simp_all add: outs_size_def)

lemma encoded_arg:
  "encoded (EncodeArg (PutfhArgs (Some h))) = BigEndian_PutUint32 OpPutfh @ wire_opaque h"
  "encoded (EncodeArg GetfhArgs) = BigEndian_PutUint32 OpGetfh"
  "encoded (EncodeArg (ReadArgs sid off count)) =
     BigEndian_PutUint32 OpRead @ wire_stateid sid @ BigEndian_PutUint64 off @ BigEndian_PutUint32 count"
  "encoded (EncodeArg (WriteArgs sid off how data)) =
     BigEndian_PutUint32 OpWrite @ wire_stateid sid @ BigEndian_PutUint64 off @ BigEndian_PutUint32 how @ wire_opaque data"
  by (rule encoded_writes; simp; intro writes_bind wire_writes)+

lemma length_failed:
  assumes "res_Status r \<noteq> NFS4_OK" and "expectedOp r \<noteq> OpSetattr" and "expectedOp r \<noteq> OpSetclientid"
  shows "length (encoded (encode_outcome (res_zero r) (res_outcome r))) = 4"
proof -
  have "encode_failure no_extras (res_Status r) (res_zero r) = State_Monad.return ()"
    using assms(2,3) by (cases r) (simp_all add: encode_failure_def)
  then have "writes (encode_outcome (res_zero r) (res_outcome r)) (BigEndian_PutUint32 (res_Status r) @ [])"
    using assms(1) by (simp only: res_outcome_def if_False encode_outcome.simps) (intro writes_bind wire_writes)
  then show ?thesis by (simp add: encoded_writes)
qed

lemma encoded_done:
  "encoded (encode_outcome r0 (res_outcome (StatusRes 0))) = BigEndian_PutUint32 0"
  "encoded (encode_outcome r0 (res_outcome (GetfhRes 0 (Some h)))) = BigEndian_PutUint32 0 @ wire_opaque h"
  "encoded (encode_outcome r0 (res_outcome (ReadRes 0 eof data))) = BigEndian_PutUint32 0 @ wire_bool eof @ wire_opaque data"
  "encoded (encode_outcome r0 (res_outcome (WriteRes 0 count committed verf))) =
     BigEndian_PutUint32 0 @ BigEndian_PutUint32 count @ BigEndian_PutUint32 committed @ wire_fixed verf"
proof -
  have "writes (do { Encoder_Uint32 0; State_Monad.return () }) (BigEndian_PutUint32 0 @ [])"
    by (intro writes_bind wire_writes)
  then show "encoded (encode_outcome r0 (res_outcome (StatusRes 0))) = BigEndian_PutUint32 0"
    by (simp add: res_outcome_def encoded_writes)
qed (rule encoded_writes; simp add: res_outcome_def no_extras_def; intro writes_bind wire_writes)+

lemma length_put: "length (encoded (encode_outcome (StatusRes 0) (res_outcome (StatusRes st)))) = 4"
  using length_failed [of "StatusRes st"] by (cases "st = NFS4_OK") (simp_all add: encoded_done)

lemma stateid_ok_Anon: "stateid_ok AnonStateid"
  by (simp add: AnonStateid_def Stateid_zero_def stateid_ok_def)

lemma read_fits:
  assumes "opaque_ok h" and "opaque_ok (fst (snd (sv_read sv h AnonStateid off count s)))"
  shows "conn_fits sv [PutfhArgs (Some h), ReadArgs AnonStateid off count] [StatusRes 0, ReadRes 0 False []] s"
proof -
  obtain st data eof where rd: "sv_read sv h AnonStateid off count s = (st, data, eof)" by (metis prod.exhaust)
  let ?r = "if st = NFS4_OK then ReadRes 0 eof data else ReadRes st False []"
  have len: "length (encoded (encode_outcome (res_zero ?r) (res_outcome ?r))) \<le> 64 * 2 ^ 20 + 15"
    using opaque_length [of data] assms(2) length_failed [of "ReadRes st False []"]
    by (auto simp: rd encoded_done wire_bool_def)
  have sz: "args_size [PutfhArgs (Some h), ReadArgs AnonStateid off count] \<le> 2 ^ 30"
    using opaque_length [OF assms(1)] unfolding args_size_simps encoded_arg
    by (simp add: wire_stateid_def length_wire_fixed AnonStateid_def Stateid_zero_def pad4_def Unit_def)
  show ?thesis
    using assms len length_put sz stateid_ok_Anon
    by (auto simp: conn_fits_def rd Let_def fitting_struct_def zero_for_def simp del: args_size_simps)
qed

lemma write_fits:
  assumes "opaque_ok h" and "opaque_ok data" and "stateid_ok sid"
  shows "conn_fits sv [PutfhArgs (Some h), WriteArgs sid off how data] [StatusRes 0, WriteRes 0 0 0 (zeros 8)] s"
proof -
  obtain st count committed s' where wr: "sv_write sv h sid off how data s = ((st, count, committed), s')"
    by (metis prod.exhaust)
  let ?r = "if st = NFS4_OK then WriteRes 0 count committed (zeros 8) else WriteRes st 0 0 (zeros 8)"
  have len: "length (encoded (encode_outcome (res_zero ?r) (res_outcome ?r))) \<le> 20"
    using length_failed [of "WriteRes st 0 0 (zeros 8)"]
    by (auto simp: encoded_done length_wire_fixed pad4_def Unit_def)
  have sz: "args_size [PutfhArgs (Some h), WriteArgs sid off how data] \<le> 2 ^ 30"
    using opaque_length [OF assms(1)] opaque_length [OF assms(2)] assms(3) unfolding args_size_simps encoded_arg
    by (simp add: wire_stateid_def length_wire_fixed stateid_ok_def pad4_def Unit_def)
  show ?thesis
    using assms len length_put sz
    by (auto simp: conn_fits_def wr Let_def fitting_struct_def zero_for_def simp del: args_size_simps)
qed

subsection \<open>Some operations on fitting calls\<close>

lemma Read_fits:
  assumes "conn_ready c w" "never_delays sv" and "s = wi_fs (st_world w)"
    and "opaque_ok h" "opaque_ok (fst (snd (sv_read sv h AnonStateid off count s)))"
  shows "performs_bytes c (Read (env\<lparr>ev_base := fits_base sv\<rparr>) calm_ctx c (Some h) off count w)
    (at_fh sv (Some h) s (sv_read sv h AnonStateid off count s, s))"
proof -
  have on: "conn_on c w" using assms(1) by (simp add: conn_ready_def)
  note spec = Read_refines [OF on assms(2,3), of env "Some h" off count, unfolded Read_def nilb_Some]
  show ?thesis
    unfolding Read_def
    by (rule performs_fits [OF spec assms(1,2) read_fits [OF assms(4,5), unfolded assms(3)]]) (auto simp: Let_def split: sum.splits if_splits)
qed

lemma Write_fits:
  assumes "conn_ready c w" "never_delays sv" and "s = wi_fs (st_world w)"
    and "opaque_ok h" "opaque_ok data" "stateid_ok sid"
  shows "performs_bytes c (Write (env\<lparr>ev_base := fits_base sv\<rparr>) calm_ctx c (Some h) sid off data how w)
    (at_fh sv (Some h) s (sv_write sv h sid off how data s))"
proof -
  have on: "conn_on c w" using assms(1) by (simp add: conn_ready_def)
  note spec = Write_refines [OF on assms(2,3), of env "Some h" sid off data how, unfolded Write_def nilb_Some]
  show ?thesis
    unfolding Write_def
    by (rule performs_fits [OF spec assms(1,2) write_fits [OF assms(4-6), unfolded assms(3)]]) (auto simp: Let_def split: sum.splits if_splits)
qed

subsection \<open>Open files over the bytes\<close>

context file_server
begin

text \<open>One READ or WRITE of at most 64 MiB.\<close>

lemma proto_read_fits:
  assumes "conn_ready c w" and "content (wi_fs (st_world w)) h = Some bs" and "opaque_ok h" and "unat n \<le> 64 * 2 ^ 20"
  shows "\<exists>data eof w'. pr_Read (conn_proto (env\<lparr>ev_base := fits_base sv\<rparr>)) calm_ctx (Some h) off n (c, w) =
           Some (Inr (data, eof), c, w') \<and> length data \<le> unat n \<and> conn_ready c w' \<and> wi_fs (st_world w') = wi_fs (st_world w)"
proof -
  from sv_rd [OF assms(2), of off n] obtain k eof where
    r: "sv_read sv h AnonStateid off n (wi_fs (st_world w)) = (NFS4_OK, chunk (unat off) k bs, eof)" "k \<le> unat n"
    by (elim exE conjE) (rule that)
  have len: "length (chunk (unat off) k bs) \<le> unat n" using r(2) by simp
  then have "opaque_ok (chunk (unat off) k bs)" using assms(4) unfolding opaque_ok_def by (rule le_trans)
  then have "opaque_ok (fst (snd (sv_read sv h AnonStateid off n (wi_fs (st_world w)))))" by (simp add: r(1))
  from Read_fits [OF assms(1) prompt refl assms(3) this, of env]
  have "performs_bytes c (Read (env\<lparr>ev_base := fits_base sv\<rparr>) calm_ctx c (Some h) off n w)
      (Inr (chunk (unat off) k bs, eof), wi_fs (st_world w))"
    by (simp add: at_fh_def put [OF assms(2)] r(1))
  then obtain w' where "Read (env\<lparr>ev_base := fits_base sv\<rparr>) calm_ctx c (Some h) off n w = Some (Inr (chunk (unat off) k bs, eof), w')"
      "conn_ready c w'" "wi_fs (st_world w') = wi_fs (st_world w)"
    unfolding performs_bytes_def by auto
  with len show ?thesis
    by (intro exI [of _ "chunk (unat off) k bs"] exI [of _ eof] exI [of _ w']) (simp add: conn_proto_def with_conn_def)
qed

lemma proto_write_fits:
  assumes "conn_ready c w" and "content (wi_fs (st_world w)) h = Some bs" and "opaque_ok h" and "stateid_ok sid"
    and "data \<noteq> []" and "opaque_ok data"
  shows "\<exists>n how' w' bs'. pr_Write (conn_proto (env\<lparr>ev_base := fits_base sv\<rparr>)) calm_ctx (Some h) sid off data how (c, w) =
           Some (Inr (n, how'), c, w') \<and> conn_ready c w' \<and> content (wi_fs (st_world w')) h = Some bs'"
proof -
  from sv_wr [OF assms(2,5), of sid off how] obtain n how' s' where
    r: "sv_write sv h sid off how data (wi_fs (st_world w)) = ((NFS4_OK, n, how'), s')"
      "content s' = (content (wi_fs (st_world w)))(h \<mapsto> splice (unat off) (take (unat n) data) bs)" by blast
  from Write_fits [OF assms(1) prompt refl assms(3,6,4), of env off how]
  have "performs_bytes c (Write (env\<lparr>ev_base := fits_base sv\<rparr>) calm_ctx c (Some h) sid off data how w) (Inr (n, how'), s')"
    by (simp add: at_fh_def put [OF assms(2)] r(1))
  then obtain w' where "Write (env\<lparr>ev_base := fits_base sv\<rparr>) calm_ctx c (Some h) sid off data how w = Some (Inr (n, how'), w')"
      "conn_ready c w'" "wi_fs (st_world w') = s'"
    unfolding performs_bytes_def by auto
  with r(2) show ?thesis
    by (intro exI [of _ n] exI [of _ how'] exI [of _ w']) (simp add: conn_proto_def with_conn_def)
qed

lemma ReadAt_loop_fits:
  assumes f: "f_fh f = Some h" "f_ctx f = calm_ctx" "opaque_ok h" and len: "length p \<le> 64 * 2 ^ 20"
  shows "conn_ready c w \<Longrightarrow> content (wi_fs (st_world w)) h = Some bs \<Longrightarrow>
    ReadAt_loop (file_on (conn_proto (env\<lparr>ev_base := fits_base sv\<rparr>)) f) off tot p (c, w) \<noteq> None"
  using len
proof (induction "length p - tot" arbitrary: tot p w rule: less_induct)
  case less
  let ?f = "file_on (conn_proto (env\<lparr>ev_base := fits_base sv\<rparr>)) f"
  show ?case
  proof (cases "tot < length p")
    case False
    then show ?thesis by (simp add: ReadAt_loop.simps)
  next
    case True
    let ?n = "word_of_nat (length p - tot) :: u32"
    have n: "unat ?n = length p - tot" using less.prems(3) by (intro unat_word_of_nat_u32) simp
    then have "unat ?n \<le> 64 * 2 ^ 20" using less.prems(3) by simp
    from proto_read_fits [OF less.prems(1,2) f(3) this, of "word_of_int off + word_of_nat tot"] obtain data eof w' where
      r: "pr_Read (conn_proto (env\<lparr>ev_base := fits_base sv\<rparr>)) calm_ctx (Some h) (word_of_int off + word_of_nat tot) ?n (c, w) =
          Some (Inr (data, eof), c, w')" "length data \<le> length p - tot" "conn_ready c w'" "wi_fs (st_world w') = wi_fs (st_world w)"
      unfolding n by blast
    from r(1) have "pr_Read (f_proto ?f) (f_ctx ?f) (f_fh ?f) (word_of_int off + word_of_nat tot) ?n (c, w) =
        Some (Inr (data, eof), c, w')" by (simp add: f)
    note step = ReadAt_loop_step [OF True this r(2)]
    show ?thesis
    proof (cases "eof \<or> data = []")
      case True
      then show ?thesis by (simp add: step Let_def)
    next
      case False
      let ?p = "take tot p @ data @ drop (tot + length data) p"
      have len': "length ?p = length p" using r(2) True by simp
      have "0 < length data" using False by simp
      then have "length ?p - (tot + length data) < length p - tot" unfolding len' using True by arith
      from less.hyps [OF this r(3)] r(4) less.prems(2,3) False show ?thesis unfolding len' by (simp add: step)
    qed
  qed
qed

lemma writeAt_fits:
  assumes f: "f_fh f = Some h" "f_ctx f = calm_ctx" "opaque_ok h" "stateid_ok (f_stateid f)" and p: "opaque_ok p"
  shows "conn_ready c w \<Longrightarrow> content (wi_fs (st_world w)) h = Some bs \<Longrightarrow>
    \<exists>x w' bs'. writeAt (file_on (conn_proto (env\<lparr>ev_base := fits_base sv\<rparr>)) f) p off tot (c, w) = Some (x, c, w') \<and>
      conn_ready c w' \<and> content (wi_fs (st_world w')) h = Some bs'"
proof (induction "length p - tot" arbitrary: tot w bs rule: less_induct)
  case less
  let ?f = "file_on (conn_proto (env\<lparr>ev_base := fits_base sv\<rparr>)) f"
  show ?case
  proof (cases "tot < length p")
    case False
    then show ?thesis using less.prems by (simp add: writeAt.simps)
  next
    case True
    then have "drop tot p \<noteq> []" "opaque_ok (drop tot p)" using p by (simp_all add: opaque_ok_def)
    from proto_write_fits [OF less.prems f(3,4) this] obtain n how' w' bs' where
      r: "pr_Write (conn_proto (env\<lparr>ev_base := fits_base sv\<rparr>)) calm_ctx (Some h) (f_stateid f)
            (word_of_int off + word_of_nat tot) (drop tot p) FileSync4 (c, w) = Some (Inr (n, how'), c, w')"
        "conn_ready c w'" "content (wi_fs (st_world w')) h = Some bs'" by blast
    show ?thesis
    proof (cases "n = 0")
      case True
      then show ?thesis using r f \<open>tot < length p\<close> by (subst writeAt.simps) simp
    next
      case False
      then have "0 < unat n" by (simp add: unat_gt_0)
      then have "length p - (tot + unat n) < length p - tot" using \<open>tot < length p\<close> by arith
      from less.hyps [OF this r(2,3)] False r(1) f \<open>tot < length p\<close> show ?thesis
        by (subst writeAt.simps) simp
    qed
  qed
qed

end

lemma sample_ready: "conn_ready sample_conn sample_store"
  using sample_conn_on
  by (simp add: conn_ready_def sample_store_def idle_client_def NewClient_def client_idle_def auth_ok_def AuthNull_def opaque_ok_def)

text \<open>What \<open>WriteAt\<close> writes to an open file, up to 64 MiB, is what \<open>ReadAt\<close> reads back.\<close>

lemma File_write_read_bytes:
  assumes "file_server sv content" and "conn_ready c w" and "content (wi_fs (st_world w)) h = Some bs"
    and "f_fh f = Some h" and "f_ctx f = calm_ctx" and "\<not> f_closed f"
    and "opaque_ok h" and "stateid_ok (f_stateid f)" and "opaque_ok p"
    and "0 \<le> off" and "nat off + length p < 2 ^ 63" and "length q = length p"
    and "P = conn_proto (env\<lparr>ev_base := rpc_base sv\<rparr>)"
  shows "\<exists>s1 err s2. File_WriteAt p off (file_on P f) (c, w) = Some ((length p, None), s1) \<and>
    over_conn content s1 = (content (wi_fs (st_world w)))(h \<mapsto> splice (nat off) p bs) \<and>
    File_ReadAt q off (file_on P f) s1 = Some ((length p, err), p, s2) \<and>
    (err = None \<or> err = Some (Sentinel EOF))"
proof -
  let ?F = "conn_proto (env\<lparr>ev_base := fits_base sv\<rparr>)" and ?S = "conn_proto (env\<lparr>ev_base := serve sv\<rparr>)"
  have fs: "file_store ?S calm_ctx in_use (over_conn content)" using assms(1) by (rule file_server.conn_file_store)
  have h: "nilb (f_fh (file_on ?S f)) = h" using assms(4) by simp
  have on: "in_use (c, w)" "over_conn content (c, w) h = Some bs"
    using assms(2,3) by (simp_all add: conn_ready_def in_use_def over_conn_def)
  from file_server.writeAt_fits [OF assms(1,4,5,7,8,9,2,3), of env off 0] obtain x w1 bs1 where
    w: "writeAt (file_on ?F f) p off 0 (c, w) = Some (x, c, w1)" "conn_ready c w1" "content (wi_fs (st_world w1)) h = Some bs1"
    by blast
  then have wF: "File_WriteAt p off (file_on ?F f) (c, w) = Some (x, c, w1)"
    using assms(6,10) by (simp add: File_WriteAt_def)
  note wP = ord_Some [OF on_bytes.conn.File_WriteAt_ord wF] and wS = ord_Some [OF on_server.conn.File_WriteAt_ord wF]
  from file_store.File_WriteAt_writes [OF fs, of "file_on ?S f" "(c, w)" bs off p] on assms(5,6,10,11) wS
  have x: "x = (length p, None)" "over_conn content (c, w1) = (over_conn content (c, w))(h \<mapsto> splice (nat off) p bs)"
    unfolding h by auto
  have q: "length q \<le> 64 * 2 ^ 20" "length q < 2 ^ 32" "nat off + length q < 2 ^ 63"
    using assms(9,11,12) by (simp_all add: opaque_ok_def)
  from file_server.ReadAt_loop_fits [OF assms(1,4,5,7) q(1) w(2,3), of env off 0] obtain y where
    "ReadAt_loop (file_on ?F f) off 0 q (c, w1) = Some y" by blast
  then have rF: "File_ReadAt q off (file_on ?F f) (c, w1) = Some y"
    using assms(6,10) by (simp add: File_ReadAt_def)
  note rP = ord_Some [OF on_bytes.conn.File_ReadAt_ord rF] and rS = ord_Some [OF on_server.conn.File_ReadAt_ord rF]
  have on1: "in_use (c, w1)" "over_conn content (c, w1) h = Some (splice (nat off) p bs)"
    using w(2) x(2) by (simp_all add: conn_ready_def in_use_def)
  have pq: "chunk (nat off) (length q) (splice (nat off) p bs) = p" "drop (length p) q = []"
    using assms(12) by (simp_all add: chunk_splice)
  from file_store.File_ReadAt_reads [OF fs, of "file_on ?S f" "(c, w1)" "splice (nat off) p bs" off q]
    on1 assms(5,6,10) q(2,3) rS
  obtain err s2 where "y = ((length p, err), p, s2)" "err = None \<or> err = Some (Sentinel EOF)"
    unfolding h pq(1) by (auto simp: pq(2))
  then show ?thesis
    using wP rP x unfolding assms(13) by (auto simp: over_conn_def)
qed

text \<open>The same when the server takes the bytes in one WRITE: it is left as that WRITE leaves it.\<close>

lemma File_write_read_whole_bytes:
  assumes "file_server sv content" and "conn_ready c w" and "s = wi_fs (st_world w)" and "content s h = Some bs"
    and P: "file_on (conn_proto (env\<lparr>ev_base := rpc_base sv\<rparr>)) f = f"
    and "f_fh f = Some h" and "f_ctx f = calm_ctx" and "\<not> f_closed f"
    and "opaque_ok h" and "stateid_ok (f_stateid f)" and "opaque_ok p"
    and "0 \<le> off" and "nat off + length p < 2 ^ 63" and "length q = length p" and "p \<noteq> []"
    and "sv_write sv h (f_stateid f) (word_of_int off) FileSync4 p s = ((NFS4_OK, n, how), s')" and "unat n = length p"
  shows "\<exists>w1 err s2. File_WriteAt p off f (c, w) = Some ((length p, None), c, w1) \<and> wi_fs (st_world w1) = s' \<and>
    content s' = (content s)(h \<mapsto> splice (nat off) p bs) \<and>
    File_ReadAt q off f (c, w1) = Some ((length p, err), p, s2) \<and> (err = None \<or> err = Some (Sentinel EOF))"
proof -
  let ?E = "env\<lparr>ev_base := rpc_base sv\<rparr>"
  have proto: "f_proto f = conn_proto ?E" by (subst P [symmetric]) simp
  have "content (wi_fs (st_world w)) h = Some bs" using assms(3,4) by simp
  from File_write_read_bytes [OF assms(1,2) this assms(6-14) refl, of env, unfolded P] obtain s1 err s2 where
    parts: "File_WriteAt p off f (c, w) = Some ((length p, None), s1)" "over_conn content s1 = (content s)(h \<mapsto> splice (nat off) p bs)"
      "File_ReadAt q off f s1 = Some ((length p, err), p, s2)" "err = None \<or> err = Some (Sentinel EOF)"
    unfolding assms(3) by auto
  have "performs_bytes c (Write ?E calm_ctx c (Some h) (f_stateid f) (word_of_int off) p FileSync4 w) (Inr (n, how), s')"
    using performs_bytes_ord [OF Write_fits [OF assms(2) file_server.prompt [OF assms(1)] assms(3,9,11,10), of env "word_of_int off" FileSync4]
        on_bytes.Write_ord] assms(16) file_server.put [OF assms(1,4)]
    by (simp add: at_fh_def)
  then obtain w1 where w1: "Write ?E calm_ctx c (Some h) (f_stateid f) (word_of_int off) p FileSync4 w = Some (Inr (n, how), w1)"
      "wi_fs (st_world w1) = s'"
    unfolding performs_bytes_def by auto
  then have "pr_Write (f_proto f) (f_ctx f) (f_fh f) (f_stateid f) (word_of_int off) p FileSync4 (c, w) = Some (Inr (n, how), c, w1)"
    by (simp add: proto assms(6,7) conn_proto_def with_conn_def)
  from File_WriteAt_whole [OF this assms(17,15,8,12)] parts(1) have s1: "s1 = (c, w1)" by simp
  have "over_conn content (c, w1) = content s'" using w1(2) by (simp add: over_conn_def)
  with parts(2,3) have "content s' = (content s)(h \<mapsto> splice (nat off) p bs)"
    "File_ReadAt q off f (c, w1) = Some ((length p, err), p, s2)" unfolding s1 by simp_all
  with parts(1,4) w1(2) s1 show ?thesis by blast
qed

end
