(* ===== verification/Conn_Bytes.thy ===== *)
theory Conn_Bytes
  imports Wire_Props
begin

text \<open>
  The remaining methods of a connection (\<open>src/nfs4/conn.go\<close>, \<open>src/nfs4/conn_write.go\<close>) over the bytes, and
  the property for all of them. Here the limits are those of the wire formats, on the compound and
  its results.
\<close>

definition call_fits :: "'s server \<Rightarrow> arg list \<Rightarrow> 's \<Rightarrow> bool" where
  "call_fits sv ops s \<longleftrightarrow>
     list_all arg_ok ops \<and> length ops < 2 ^ 31 \<and> args_size ops \<le> 2 ^ 30 \<and>
     (let out = fst (run_ops sv (None, None) ops s)
      in list_all (\<lambda>r. res_Status r = NFS4_OK \<longrightarrow> res_ok r) out \<and> outs_size out \<le> 2 ^ 27)"

lemma call_fits_conn: "call_fits sv ops s \<Longrightarrow> list_all2 fitting_struct ops results \<Longrightarrow> conn_fits sv ops results s"
  by (simp add: call_fits_def conn_fits_def)

text \<open>What holds for a method at the server holds over the bytes if its call fits.\<close>

lemma method_over_bytes:
  assumes spec: "performs c (Option.bind (Conn_ops (env\<lparr>ev_base := serve sv\<rparr>) calm_ctx c msg args ops results w) k) spec"
    and "conn_ready c w" and "never_delays sv" and "s = wi_fs (st_world w)" and "call_fits sv ops s"
    and "list_all2 fitting_struct ops results" and keep: "\<And>y w1 z w2. k (y, w1) = Some (z, w2) \<Longrightarrow> w2 = w1"
  shows "performs_bytes c (Option.bind (Conn_ops (env\<lparr>ev_base := rpc_base sv\<rparr>) calm_ctx c msg args ops results w) k) spec"
proof -
  have "conn_fits sv ops results (wi_fs (st_world w))" using assms(4-6) by (simp add: call_fits_conn)
  from performs_fits [OF spec assms(2,3) this] keep
  have "performs_bytes c (Option.bind (Conn_ops (env\<lparr>ev_base := fits_base sv\<rparr>) calm_ctx c msg args ops results w) k) spec"
    by blast
  then show ?thesis by (rule performs_bytes_ord) (intro ord_rules on_bytes.Conn_ops_ord)
qed

lemma conn_ready_on: "conn_ready c w \<Longrightarrow> conn_on c w"
  by (simp add: conn_ready_def)

lemmas method_simps = fitting_struct_def zero_for_def last_status_def Let_def

lemma Lookup_bytes:
  assumes "conn_ready c w" and "never_delays sv" and "s = wi_fs (st_world w)"
    and "call_fits sv [PutfhArgs dir, LookupArgs name, GetfhArgs] s"
  shows "performs_bytes c (Lookup (env\<lparr>ev_base := rpc_base sv\<rparr>) calm_ctx c dir name w)
    (at_fh sv dir s (case sv_lookup sv (nilb dir) name s of (st, fh) \<Rightarrow> ((st, Some fh), s)))"
  unfolding Lookup_def
  by (rule method_over_bytes [OF Lookup_refines [OF conn_ready_on [OF assms(1)] assms(2,3), unfolded Lookup_def] assms])
    (auto simp: method_simps split: sum.splits if_splits)

lemma GetAttr_bytes:
  assumes "conn_ready c w" and "never_delays sv" and "s = wi_fs (st_world w)"
    and "call_fits sv [PutfhArgs fh, GetattrArgs bm] s"
  shows "performs_bytes c (GetAttr (env\<lparr>ev_base := rpc_base sv\<rparr>) calm_ctx c fh bm w)
    (at_fh sv fh s (sv_getattr sv (nilb fh) bm s, s))"
  unfolding GetAttr_def
  by (rule method_over_bytes [OF GetAttr_refines [OF conn_ready_on [OF assms(1)] assms(2,3), unfolded GetAttr_def] assms])
    (auto simp: method_simps split: sum.splits if_splits)

lemma Read_bytes:
  assumes "conn_ready c w" and "never_delays sv" and "s = wi_fs (st_world w)"
    and "call_fits sv [PutfhArgs fh, ReadArgs AnonStateid off count] s"
  shows "performs_bytes c (Read (env\<lparr>ev_base := rpc_base sv\<rparr>) calm_ctx c fh off count w)
    (at_fh sv fh s (sv_read sv (nilb fh) AnonStateid off count s, s))"
  unfolding Read_def
  by (rule method_over_bytes [OF Read_refines [OF conn_ready_on [OF assms(1)] assms(2,3), unfolded Read_def] assms])
    (auto simp: method_simps split: sum.splits if_splits)

lemma Readdir_bytes:
  assumes "conn_ready c w" and "never_delays sv" and "s = wi_fs (st_world w)"
    and "call_fits sv [PutfhArgs dir, ReaddirArgs cookie verf 8192 65536 bm] s"
  shows "performs_bytes c (Readdir (env\<lparr>ev_base := rpc_base sv\<rparr>) calm_ctx c dir cookie verf bm w)
    (at_fh sv dir s (case sv_readdir sv (nilb dir) cookie verf 8192 65536 bm s of
       (st, verf', entries, eof) \<Rightarrow> ((st, ReaddirRes 0 verf' entries eof), s)))"
  unfolding Readdir_def
  by (rule method_over_bytes [OF Readdir_refines [OF conn_ready_on [OF assms(1)] assms(2,3), unfolded Readdir_def] assms])
    (auto simp: method_simps split: sum.splits if_splits)

lemma Readlink_bytes:
  assumes "conn_ready c w" and "never_delays sv" and "s = wi_fs (st_world w)"
    and "call_fits sv [PutfhArgs fh, ReadlinkArgs] s"
  shows "performs_bytes c (Readlink (env\<lparr>ev_base := rpc_base sv\<rparr>) calm_ctx c fh w)
    (at_fh sv fh s (sv_readlink sv (nilb fh) s, s))"
  unfolding Readlink_def
  by (rule method_over_bytes [OF Readlink_refines [OF conn_ready_on [OF assms(1)] assms(2,3), unfolded Readlink_def] assms])
    (auto simp: method_simps split: sum.splits if_splits)

lemma Write_bytes:
  assumes "conn_ready c w" and "never_delays sv" and "s = wi_fs (st_world w)"
    and "call_fits sv [PutfhArgs fh, WriteArgs sid off how data] s"
  shows "performs_bytes c (Write (env\<lparr>ev_base := rpc_base sv\<rparr>) calm_ctx c fh sid off data how w)
    (at_fh sv fh s (sv_write sv (nilb fh) sid off how data s))"
  unfolding Write_def
  by (rule method_over_bytes [OF Write_refines [OF conn_ready_on [OF assms(1)] assms(2,3), unfolded Write_def] assms])
    (auto simp: method_simps split: sum.splits if_splits)

lemma Commit_bytes:
  assumes "conn_ready c w" and "never_delays sv" and "s = wi_fs (st_world w)"
    and "call_fits sv [PutfhArgs fh, CommitArgs off count] s"
  shows "performs_bytes c (Commit (env\<lparr>ev_base := rpc_base sv\<rparr>) calm_ctx c fh off count w)
    (at_fh_err sv fh s (sv_commit sv (nilb fh) off count s))"
  unfolding Commit_def
  by (rule method_over_bytes [OF Commit_refines [OF conn_ready_on [OF assms(1)] assms(2,3), unfolded Commit_def] assms])
    (auto simp: method_simps split: sum.splits if_splits)

lemma create_bytes:
  assumes "conn_ready c w" and "never_delays sv" and "s = wi_fs (st_world w)"
    and "call_fits sv [PutfhArgs dir, ACreate args, GetfhArgs] s"
  shows "performs_bytes c (create (env\<lparr>ev_base := rpc_base sv\<rparr>) calm_ctx c dir args w)
    (at_fh sv dir s (case sv_create sv (nilb dir) args s of ((st, fh), s') \<Rightarrow> ((st, Some fh), s')))"
  unfolding create_def
  by (rule method_over_bytes [OF create_refines [OF conn_ready_on [OF assms(1)] assms(2,3), unfolded create_def] assms])
    (auto simp: method_simps split: sum.splits if_splits)

lemma Remove_bytes:
  assumes "conn_ready c w" and "never_delays sv" and "s = wi_fs (st_world w)"
    and "call_fits sv [PutfhArgs dir, RemoveArgs name] s"
  shows "performs_bytes c (Remove (env\<lparr>ev_base := rpc_base sv\<rparr>) calm_ctx c dir name w)
    (at_fh_err sv dir s (sv_remove sv (nilb dir) name s))"
  unfolding Remove_def
  by (rule method_over_bytes [OF Remove_refines [OF conn_ready_on [OF assms(1)] assms(2,3), unfolded Remove_def] assms])
    (auto simp: method_simps split: sum.splits if_splits)

lemma Rename_bytes:
  assumes "conn_ready c w" and "never_delays sv" and "s = wi_fs (st_world w)"
    and "call_fits sv [PutfhArgs src, SavefhArgs, PutfhArgs dst, RenameArgs oldname newname] s"
  shows "performs_bytes c (Rename (env\<lparr>ev_base := rpc_base sv\<rparr>) calm_ctx c src oldname dst newname w)
    (if sv_putfh sv (nilb src) s \<noteq> NFS4_OK then (Some (StatusError (sv_putfh sv (nilb src) s)), s)
     else at_fh_err sv dst s (sv_rename sv (nilb src) oldname (nilb dst) newname s))"
  unfolding Rename_def
  by (rule method_over_bytes [OF Rename_refines [OF conn_ready_on [OF assms(1)] assms(2,3), unfolded Rename_def] assms])
    (auto simp: method_simps split: sum.splits if_splits)

lemma Link_bytes:
  assumes "conn_ready c w" and "never_delays sv" and "s = wi_fs (st_world w)"
    and "call_fits sv [PutfhArgs src, SavefhArgs, PutfhArgs dst, LinkArgs newname] s"
  shows "performs_bytes c (Link (env\<lparr>ev_base := rpc_base sv\<rparr>) calm_ctx c src dst newname w)
    (if sv_putfh sv (nilb src) s \<noteq> NFS4_OK then (Some (StatusError (sv_putfh sv (nilb src) s)), s)
     else at_fh_err sv dst s (sv_link sv (nilb src) (nilb dst) newname s))"
  unfolding Link_def
  by (rule method_over_bytes [OF Link_refines [OF conn_ready_on [OF assms(1)] assms(2,3), unfolded Link_def] assms])
    (auto simp: method_simps split: sum.splits if_splits)

lemma SetAttr_bytes:
  assumes "conn_ready c w" and "never_delays sv" and "s = wi_fs (st_world w)"
    and "call_fits sv [PutfhArgs fh, SetattrArgs sid bm vals] s"
  shows "performs_bytes c (SetAttr (env\<lparr>ev_base := rpc_base sv\<rparr>) calm_ctx c fh sid bm vals w)
    (at_fh_err sv fh s (sv_setattr sv (nilb fh) sid bm vals s))"
  unfolding SetAttr_def
  by (rule method_over_bytes [OF SetAttr_refines [OF conn_ready_on [OF assms(1)] assms(2,3), unfolded SetAttr_def] assms])
    (auto simp: method_simps split: sum.splits if_splits)

text \<open>RENEW has a compound of its own.\<close>

lemma Renew_bytes:
  assumes "conn_ready c w" and "never_delays sv" and "s = wi_fs (st_world w)" and "call_fits sv [RenewArgs (ClientID c)] s"
  shows "performs_bytes c (Renew (env\<lparr>ev_base := rpc_base sv\<rparr>) calm_ctx c w)
    (case sv_renew sv (cn_clientID c) s of (st, s') \<Rightarrow> (Status_Err st, s'))"
proof -
  have "conn_fits sv [RenewArgs (ClientID c)] [StatusRes 0] (wi_fs (st_world w))"
    by (rule call_fits_conn [OF assms(4) [unfolded assms(3)]]) (simp add: method_simps)
  from ready_call_fits [OF assms(1,2) this, of env] obtain x w1 where
    x: "Conn_call (env\<lparr>ev_base := fits_base sv\<rparr>) calm_ctx c [RenewArgs (ClientID c)] [StatusRes 0] w = Some (x, w1)" "conn_ready c w1"
    by blast
  obtain r e rs where "x = ((r, e), rs)" by (metis prod.exhaust)
  with x(1) obtain z where z: "Renew (env\<lparr>ev_base := fits_base sv\<rparr>) calm_ctx c w = Some (z, w1)"
    by (cases e) (simp_all add: Renew_def Conn_one_def)
  note zP = ord_Some [OF on_bytes.Renew_ord z] and zS = ord_Some [OF on_server.Renew_ord z]
  from Renew_refines [OF conn_ready_on [OF assms(1)] assms(2,3), of env] zP zS x(2)
  show ?thesis by (auto simp: performs_def performs_bytes_def)
qed

subsection \<open>Operations with a sequence id of the open owner\<close>

definition performs_seq_bytes :: "'s wire Conn \<Rightarrow> ('a \<times> 's wire Conn \<times> 's wire store) option \<Rightarrow> 'a \<times> u32 \<times> 's \<Rightarrow> bool" where
  "performs_seq_bytes c m spec \<longleftrightarrow>
     (case spec of (out, n, s) \<Rightarrow>
        \<exists>w'. m = Some (out, c\<lparr>cn_openSeqid := n\<rparr>, w') \<and> wi_fs (st_world w') = s \<and> conn_ready c w')"

lemma conn_ready_cong [simp]:
  "conn_ready (c\<lparr>cn_openSeqid := n\<rparr>) w = conn_ready c w"
  "conn_ready (c\<lparr>cn_rootFH := fh\<rparr>) w = conn_ready c w"
  "conn_ready (c\<lparr>cn_clientID := cid\<rparr>) w = conn_ready c w"
  "conn_ready (c\<lparr>cn_confirm := verf\<rparr>) w = conn_ready c w"
  "conn_ready (c\<lparr>cn_rpc := b\<rparr>) w = conn_ready c w"
  by (simp_all add: conn_ready_def conn_on_def)

text \<open>The run whose calls fit ends as the one at the server does, and so does the one over the bytes.\<close>

lemma seq_over_bytes:
  assumes "performs_seq c mS spec" and "mF = Some (z, c', w1)" and "conn_ready c w1"
    and "option_ord mF mS" and "option_ord mF mP"
  shows "performs_seq_bytes c mP spec"
proof -
  have "mS = Some (z, c', w1)" "mP = Some (z, c', w1)" using ord_Some [OF assms(4,2)] ord_Some [OF assms(5,2)] by simp_all
  with assms(1,3) show ?thesis by (auto simp: performs_seq_def performs_seq_bytes_def)
qed

lemma ready_ops_fits:
  assumes "conn_ready c w" and "never_delays sv" and "call_fits sv ops (wi_fs (st_world w))" and "list_all2 fitting_struct ops results"
  shows "\<exists>y w1. Conn_ops (env\<lparr>ev_base := fits_base sv\<rparr>) calm_ctx c msg args ops results w = Some (y, w1) \<and> conn_ready c w1"
proof -
  from ready_call_fits [OF assms(1,2) call_fits_conn [OF assms(3,4)], of env] obtain x w1 where
    x: "Conn_call (env\<lparr>ev_base := fits_base sv\<rparr>) calm_ctx c ops results w = Some (x, w1)" "conn_ready c w1" by blast
  obtain r e rs where "x = ((r, e), rs)" by (metis prod.exhaust)
  with x show ?thesis by (cases e; cases "result_Err r") (simp_all add: Conn_ops_def)
qed

lemma openConfirm_fits:
  assumes "conn_ready c w" and "never_delays sv"
    and "call_fits sv [PutfhArgs fh, OpenConfirmArgs sid (cn_openSeqid c + 1)] (wi_fs (st_world w))"
  shows "\<exists>z w1. openConfirm (env\<lparr>ev_base := fits_base sv\<rparr>) calm_ctx c fh sid w =
    Some (z, c\<lparr>cn_openSeqid := cn_openSeqid c + 1\<rparr>, w1) \<and> conn_ready c w1"
proof -
  let ?c = "c\<lparr>cn_openSeqid := cn_openSeqid c + 1\<rparr>"
  have "conn_ready ?c w" using assms(1) by simp
  from ready_ops_fits [OF this assms(2,3), of "[StatusRes 0, OpenConfirmRes 0 Stateid_zero]" env "''nfs4: OPEN_CONFIRM: %w''" "[]"]
  obtain y w1 where
    y: "Conn_ops (env\<lparr>ev_base := fits_base sv\<rparr>) calm_ctx ?c ''nfs4: OPEN_CONFIRM: %w'' []
          [PutfhArgs fh, OpenConfirmArgs sid (cn_openSeqid c + 1)] [StatusRes 0, OpenConfirmRes 0 Stateid_zero] w = Some (y, w1)"
      "conn_ready ?c w1" by (auto simp: method_simps)
  then show ?thesis by (cases y) (simp_all add: openConfirm_def nextSeqid_def Let_def)
qed

lemma CloseFile_bytes:
  assumes "conn_ready c w" and "never_delays sv" and "s = wi_fs (st_world w)" and "n = cn_openSeqid c + 1"
    and "call_fits sv [PutfhArgs fh, CloseArgs n sid] s"
  shows "performs_seq_bytes c (CloseFile (env\<lparr>ev_base := rpc_base sv\<rparr>) calm_ctx c fh sid w)
    (case at_fh_err sv fh s (sv_close sv (nilb fh) n sid s) of
       (err, s') \<Rightarrow> (err, n, s'))"
proof -
  let ?c = "c\<lparr>cn_openSeqid := n\<rparr>"
  have "conn_ready ?c w" using assms(1) by simp
  from ready_ops_fits [OF this assms(2) assms(5) [unfolded assms(3)], of "[StatusRes 0, CloseRes 0 Stateid_zero]" env "''nfs4: CLOSE: %w''" "[]"]
  obtain y w1 where
    y: "Conn_ops (env\<lparr>ev_base := fits_base sv\<rparr>) calm_ctx ?c ''nfs4: CLOSE: %w'' []
          [PutfhArgs fh, CloseArgs n sid] [StatusRes 0, CloseRes 0 Stateid_zero] w = Some (y, w1)"
      "conn_ready c w1" by (auto simp: method_simps)
  obtain z where "CloseFile (env\<lparr>ev_base := fits_base sv\<rparr>) calm_ctx c fh sid w = Some (z, ?c, w1)"
    using y(1) assms(4) by (cases y) (simp_all add: CloseFile_def nextSeqid_def last_status_def Let_def)
  from seq_over_bytes [OF CloseFile_refines [OF conn_ready_on [OF assms(1)] assms(2,3), folded assms(4)] this y(2) on_server.CloseFile_ord on_bytes.CloseFile_ord]
  show ?thesis .
qed

lemma Open_bytes:
  assumes "conn_ready c w" and "never_delays sv" and "s = wi_fs (st_world w)" and n: "n = cn_openSeqid c + 1"
    and a: "a = Open_args c n name share bm vals doCreate excl"
    and fits: "call_fits sv [PutfhArgs dir, AOpen a, GetfhArgs] s"
    and confirm: "\<And>fh sid rflags s1. sv_open sv (nilb dir) a s = ((NFS4_OK, fh, sid, rflags), s1) \<Longrightarrow>
      rflags AND OpenResultConfirm \<noteq> 0 \<Longrightarrow> call_fits sv [PutfhArgs (Some fh), OpenConfirmArgs sid (n + 1)] s1"
  shows "performs_seq_bytes c (Open (env\<lparr>ev_base := rpc_base sv\<rparr>) calm_ctx c dir name share bm vals doCreate excl w)
    (open_spec sv dir a n s)"
proof -
  let ?c = "c\<lparr>cn_openSeqid := n\<rparr>" and ?F = "env\<lparr>ev_base := fits_base sv\<rparr>"
  let ?m = "\<lambda>env. Open env calm_ctx c dir name share bm vals doCreate excl w"
  have ready: "conn_ready ?c w" using assms(1) by simp
  obtain st fh sid rflags s1 where op: "sv_open sv (nilb dir) a s = ((st, fh, sid, rflags), s1)" by (metis prod.exhaust)
  from ready_ops_fits [OF ready assms(2) fits [unfolded assms(3)], of "[StatusRes 0, OpenRes 0 Stateid_zero 0 [], GetfhRes 0 None]"
      env "''nfs4: OPEN: %w''" "[]"]
  obtain y w1 where
    y: "Conn_ops ?F calm_ctx ?c ''nfs4: OPEN: %w'' [] [PutfhArgs dir, AOpen a, GetfhArgs]
          [StatusRes 0, OpenRes 0 Stateid_zero 0 [], GetfhRes 0 None] w = Some (y, w1)" "conn_ready c w1" by (auto simp: method_simps)
  from Open_call_refines [OF conn_ready_on [OF ready] assms(2,3) op, of env] ord_Some [OF on_server.Conn_ops_ord y(1)]
  have y': "y = (if sv_putfh sv (nilb dir) s \<noteq> NFS4_OK then Inl (StatusError (sv_putfh sv (nilb dir) s))
            else if st = NFS4_OK then Inr [StatusRes 0, OpenRes 0 sid rflags [], GetfhRes 0 (Some fh)]
            else Inl (StatusError st))"
      "sv_putfh sv (nilb dir) s = NFS4_OK \<Longrightarrow> wi_fs (st_world w1) = s1" by auto
  have "\<exists>z c' w2. ?m ?F = Some (z, c', w2) \<and> conn_ready c w2"
  proof (cases "sv_putfh sv (nilb dir) s = NFS4_OK \<and> st = NFS4_OK \<and> rflags AND OpenResultConfirm \<noteq> 0")
    case True
    with op confirm y'(2) have fits2: "call_fits sv [PutfhArgs (Some fh), OpenConfirmArgs sid (cn_openSeqid ?c + 1)] (wi_fs (st_world w1))"
      by simp
    have "conn_ready ?c w1" using y(2) by simp
    from openConfirm_fits [OF this assms(2) fits2, of env] obtain z w2 where
      "openConfirm ?F calm_ctx ?c (Some fh) sid w1 = Some (z, ?c\<lparr>cn_openSeqid := cn_openSeqid ?c + 1\<rparr>, w2)" "conn_ready ?c w2" by blast
    then show ?thesis
      using True y(1) y'(1) n a by (cases z) (simp_all add: Open_def nextSeqid_def Let_def NeedsConfirm_def)
  next
    case False
    then show ?thesis
      using y y'(1) n a by (auto simp: Open_def nextSeqid_def Let_def NeedsConfirm_def)
  qed
  then obtain z c' w2 where z: "?m ?F = Some (z, c', w2)" "conn_ready c w2" by blast
  from seq_over_bytes [OF Open_refines [OF conn_ready_on [OF assms(1)] assms(2,3) n] z on_server.Open_ord on_bytes.Open_ord]
  show ?thesis unfolding a .
qed

subsection \<open>Properties\<close>

text \<open>C8: Over the bytes of an RPC connection, with record marking, call and reply headers, encoded
  arguments and results, every method of a connection does what the server does to the file handles: it
  returns the result or the first error of the server, advances the sequence id of the open owner where
  there is one, and leaves the connection ready for the next call. This holds for both
  minor versions whenever the compound and its results are within the limits of the formats.\<close>

theorem conn_over_bytes:
  assumes "conn_ready c w" and "never_delays sv" and "s = wi_fs (st_world w)" and "E = env\<lparr>ev_base := rpc_base sv\<rparr>"
    and "n = cn_openSeqid c + 1" and "a = Open_args c n name share bm vals doCreate excl"
  shows "(call_fits sv [PutfhArgs dir, LookupArgs name, GetfhArgs] s \<longrightarrow>
      performs_bytes c (Lookup E calm_ctx c dir name w)
        (at_fh sv dir s (case sv_lookup sv (nilb dir) name s of (st, fh) \<Rightarrow> ((st, Some fh), s)))) \<and>
    (call_fits sv [PutfhArgs fh, GetattrArgs bm] s \<longrightarrow>
      performs_bytes c (GetAttr E calm_ctx c fh bm w)
        (at_fh sv fh s (sv_getattr sv (nilb fh) bm s, s))) \<and>
    (call_fits sv [PutfhArgs fh, ReadArgs AnonStateid off count] s \<longrightarrow>
      performs_bytes c (Read E calm_ctx c fh off count w)
        (at_fh sv fh s (sv_read sv (nilb fh) AnonStateid off count s, s))) \<and>
    (call_fits sv [PutfhArgs dir, ReaddirArgs cookie verf 8192 65536 bm] s \<longrightarrow>
      performs_bytes c (Readdir E calm_ctx c dir cookie verf bm w)
        (at_fh sv dir s (case sv_readdir sv (nilb dir) cookie verf 8192 65536 bm s of
           (st, verf', entries, eof) \<Rightarrow> ((st, ReaddirRes 0 verf' entries eof), s)))) \<and>
    (call_fits sv [PutfhArgs fh, ReadlinkArgs] s \<longrightarrow>
      performs_bytes c (Readlink E calm_ctx c fh w)
        (at_fh sv fh s (sv_readlink sv (nilb fh) s, s))) \<and>
    (call_fits sv [RenewArgs (ClientID c)] s \<longrightarrow>
      performs_bytes c (Renew E calm_ctx c w)
        (case sv_renew sv (cn_clientID c) s of (st, s') \<Rightarrow> (Status_Err st, s'))) \<and>
    (call_fits sv [PutfhArgs fh, WriteArgs sid off how data] s \<longrightarrow>
      performs_bytes c (Write E calm_ctx c fh sid off data how w)
        (at_fh sv fh s (sv_write sv (nilb fh) sid off how data s))) \<and>
    (call_fits sv [PutfhArgs fh, CommitArgs off count] s \<longrightarrow>
      performs_bytes c (Commit E calm_ctx c fh off count w)
        (at_fh_err sv fh s (sv_commit sv (nilb fh) off count s))) \<and>
    (call_fits sv [PutfhArgs dir, ACreate args, GetfhArgs] s \<longrightarrow>
      performs_bytes c (create E calm_ctx c dir args w)
        (at_fh sv dir s (case sv_create sv (nilb dir) args s of ((st, fh), s') \<Rightarrow> ((st, Some fh), s')))) \<and>
    (call_fits sv [PutfhArgs dir, RemoveArgs name] s \<longrightarrow>
      performs_bytes c (Remove E calm_ctx c dir name w)
        (at_fh_err sv dir s (sv_remove sv (nilb dir) name s))) \<and>
    (call_fits sv [PutfhArgs src, SavefhArgs, PutfhArgs dst, RenameArgs oldname newname] s \<longrightarrow>
      performs_bytes c (Rename E calm_ctx c src oldname dst newname w)
        (if sv_putfh sv (nilb src) s \<noteq> NFS4_OK then (Some (StatusError (sv_putfh sv (nilb src) s)), s)
         else at_fh_err sv dst s (sv_rename sv (nilb src) oldname (nilb dst) newname s))) \<and>
    (call_fits sv [PutfhArgs src, SavefhArgs, PutfhArgs dst, LinkArgs newname] s \<longrightarrow>
      performs_bytes c (Link E calm_ctx c src dst newname w)
        (if sv_putfh sv (nilb src) s \<noteq> NFS4_OK then (Some (StatusError (sv_putfh sv (nilb src) s)), s)
         else at_fh_err sv dst s (sv_link sv (nilb src) (nilb dst) newname s))) \<and>
    (call_fits sv [PutfhArgs fh, SetattrArgs sid bm vals] s \<longrightarrow>
      performs_bytes c (SetAttr E calm_ctx c fh sid bm vals w)
        (at_fh_err sv fh s (sv_setattr sv (nilb fh) sid bm vals s))) \<and>
    (call_fits sv [PutfhArgs dir, AOpen a, GetfhArgs] s \<and>
     (\<forall>fh sid rflags s1. sv_open sv (nilb dir) a s = ((NFS4_OK, fh, sid, rflags), s1) \<and> rflags AND OpenResultConfirm \<noteq> 0 \<longrightarrow>
        call_fits sv [PutfhArgs (Some fh), OpenConfirmArgs sid (n + 1)] s1) \<longrightarrow>
      performs_seq_bytes c (Open E calm_ctx c dir name share bm vals doCreate excl w) (open_spec sv dir a n s)) \<and>
    (call_fits sv [PutfhArgs fh, CloseArgs n sid] s \<longrightarrow>
      performs_seq_bytes c (CloseFile E calm_ctx c fh sid w)
        (case at_fh_err sv fh s (sv_close sv (nilb fh) n sid s) of (err, s') \<Rightarrow> (err, n, s')))"
  unfolding assms(4)
  by (intro conjI impI; (elim conjE)?)
    (rule Lookup_bytes GetAttr_bytes Read_bytes Readdir_bytes Readlink_bytes Renew_bytes Write_bytes Commit_bytes create_bytes
        Remove_bytes Rename_bytes Link_bytes SetAttr_bytes Open_bytes CloseFile_bytes;
      use assms in blast)+

theorem conn_over_bytes_witness:
  "\<exists>w'. Read (sample_env\<lparr>ev_base := rpc_base mem_server\<rparr>) calm_ctx sample_conn (Some [2]) 1 5 sample_store =
     Some (Inr ([11, 12], True), w') \<and> conn_ready sample_conn w'"
proof -
  have r: "sv_read mem_server [2] AnonStateid 1 5 sample_mem = (0, [11, 12], True)" "sv_putfh mem_server [2] sample_mem = 0"
    by (simp_all add: mem_server_def mem_read_def sample_mem_def)
  have "conn_fits mem_server [PutfhArgs (Some [2]), ReadArgs AnonStateid 1 5] [StatusRes 0, ReadRes 0 False []] sample_mem"
    by (rule read_fits) (simp_all add: opaque_ok_def r)
  then have "call_fits mem_server [PutfhArgs (Some [2]), ReadArgs AnonStateid 1 5] sample_mem"
    by (simp add: conn_fits_def call_fits_def del: args_size_simps outs_size_simps)
  with conn_over_bytes [OF sample_ready never_delays_mem sample_simps(1) [symmetric] refl refl refl, where env = sample_env]
  have "performs_bytes sample_conn (Read (sample_env\<lparr>ev_base := rpc_base mem_server\<rparr>) calm_ctx sample_conn (Some [2]) 1 5 sample_store)
      (at_fh mem_server (Some [2]) sample_mem (sv_read mem_server [2] AnonStateid 1 5 sample_mem, sample_mem))"
    by (metis nilb_Some)
  then show ?thesis by (auto simp: r at_fh_def performs_bytes_def)
qed

end
