(* ===== verification/Open_Props.thy ===== *)
theory Open_Props
  imports FS_Props
begin

text \<open>
  Opening files for reading and writing: the composition of path resolution, OPEN with its
  confirmation, and truncation, over a connection.
\<close>

lemma conn_lookup_all:
  assumes "never_delays sv"
  shows "conn_on c w \<Longrightarrow> s = wi_fs (st_world w) \<Longrightarrow>
    \<exists>w'. lookup_all (conn_proto (env\<lparr>ev_base := serve sv\<rparr>)) calm_ctx fh comps (c, w) =
      Some (resolves (server_lookup sv s) fh comps, c, w') \<and> conn_on c w' \<and> wi_fs (st_world w') = s"
proof (induction comps arbitrary: fh w)
  case Nil
  then show ?case by simp
next
  case (Cons name comps)
  from Lookup_refines [OF Cons.prems(1) assms Cons.prems(2), of env fh name] obtain w1 where
    w1: "Lookup (env\<lparr>ev_base := serve sv\<rparr>) calm_ctx c fh name w = Some (server_lookup sv s fh name, w1)"
      "conn_on c w1" "wi_fs (st_world w1) = s"
    by (auto simp: performs_def server_lookup_def split_beta)
  then have "pr_Lookup (conn_proto (env\<lparr>ev_base := serve sv\<rparr>)) calm_ctx fh name (c, w) = Some (server_lookup sv s fh name, c, w1)"
    by (simp add: conn_proto_def with_conn_def)
  with w1 Cons.IH [OF w1(2) w1(3) [symmetric]] show ?case by (cases "server_lookup sv s fh name") auto
qed

text \<open>The directory part of a path, as components, and the last component.\<close>

definition parent_comps :: "string \<Rightarrow> string list" where
  "parent_comps name =
     (let dir = strings_TrimSuffix (fst (path_Split name)) (CHR ''/'') in if dir = [] \<or> dir = ''.'' then [] else strings_Split dir (CHR ''/''))"

lemma conn_resolveParent:
  assumes "never_delays sv" and "conn_on c w" and "s = wi_fs (st_world w)"
    and "rw_proto fsys = conn_proto (env\<lparr>ev_base := serve sv\<rparr>)"
  shows "\<exists>w'. resolveParent fsys calm_ctx name (c, w) =
      Some (case resolves (server_lookup sv s) (RootFH c) (parent_comps name) of
              Inl err \<Rightarrow> Inl err | Inr fh \<Rightarrow> Inr (fh, snd (path_Split name)), c, w') \<and>
      conn_on c w' \<and> wi_fs (st_world w') = s"
proof -
  obtain dir base where p: "path_Split name = (dir, base)" by (metis prod.exhaust)
  have "pr_RootFH (rw_proto fsys) (c, w) = RootFH c" by (simp add: assms(4) conn_proto_def)
  with conn_lookup_all [OF assms(1-3), of env "RootFH c" "parent_comps name"] p show ?thesis
    by (auto simp: resolveParent_def parent_comps_def Let_def assms(4) split: sum.splits)
qed

text \<open>What \<open>OpenFile\<close> asks the server for.\<close>

definition open_request :: "'s Conn \<Rightarrow> u32 \<Rightarrow> string \<Rightarrow> int \<Rightarrow> u32 \<Rightarrow> OpenArgs" where
  "open_request c n base flag perm =
     (let attrs = (if flag AND O_CREATE \<noteq> 0 then EncodeFattr (mode_attrs (FileMode_Perm perm)) else ([], []))
      in Open_args c n base (shareFor flag) (fst attrs) (snd attrs) (flag AND O_CREATE \<noteq> 0) (flag AND O_EXCL \<noteq> 0))"

definition opened_file :: "('c, 'p) RWFS \<Rightarrow> 'c \<Rightarrow> string \<Rightarrow> OpenResult \<Rightarrow> int \<Rightarrow> ('c, 'p) File" where
  "opened_file fsys ctx name res flag =
     \<lparr>f_fsys = fsys, f_ctx = ctx, f_name = name, f_fh = or_FH res, f_stateid = or_Stateid res,
      f_flag = flag, f_share = shareFor flag, f_offset = 0, f_closed = False\<rparr>"

lemma OpenFile_opened:
  assumes nd: "never_delays sv" and "conn_on c w" and "s = wi_fs (st_world w)"
    and P: "rw_proto fsys = conn_proto (env\<lparr>ev_base := serve sv\<rparr>)" and "fs_ValidPath name"
    and "resolves (server_lookup sv s) (RootFH c) (parent_comps name) = Inr parent"
    and "open_spec sv parent (open_request c (cn_openSeqid c + 1) (snd (path_Split name)) flag perm) (cn_openSeqid c + 1) s = (Inr res, n, s1)"
    and f: "f = opened_file fsys calm_ctx name res flag"
  shows "\<exists>w2. OpenFile fsys calm_ctx name flag perm (c, w) =
      (if flag AND O_TRUNC \<noteq> 0 \<and> shareFor flag \<noteq> OpenShareAccessRead
       then do {
         (err, s) \<leftarrow> File_Truncate 0 f (c\<lparr>cn_openSeqid := n\<rparr>, w2);
         (case err of
            None \<Rightarrow> Some (Inr f, s)
          | Some err \<Rightarrow> do { (_, _, s) \<leftarrow> File_Close f s; Some (Inl (pathError ''open'' name err), s) })
       }
       else Some (Inr f, c\<lparr>cn_openSeqid := n\<rparr>, w2)) \<and> wi_fs (st_world w2) = s1 \<and> conn_on c w2"
proof -
  let ?attrs = "if flag AND O_CREATE \<noteq> 0 then EncodeFattr (mode_attrs (FileMode_Perm perm)) else ([], [])"
  from conn_resolveParent [OF nd assms(2-4), of name] assms(6) obtain w1 where
    w1: "resolveParent fsys calm_ctx name (c, w) = Some (Inr (parent, snd (path_Split name)), c, w1)" "conn_on c w1"
      "s = wi_fs (st_world w1)" by auto
  from Open_refines [OF w1(2) nd w1(3) refl, of env parent "snd (path_Split name)" "shareFor flag" "fst ?attrs" "snd ?attrs"
      "flag AND O_CREATE \<noteq> 0" "flag AND O_EXCL \<noteq> 0"] assms(7)
  obtain w2 where
    w2: "Open (env\<lparr>ev_base := serve sv\<rparr>) calm_ctx c parent (snd (path_Split name)) (shareFor flag) (fst ?attrs) (snd ?attrs)
        (flag AND O_CREATE \<noteq> 0) (flag AND O_EXCL \<noteq> 0) w1 = Some (Inr res, c\<lparr>cn_openSeqid := n\<rparr>, w2)"
      "wi_fs (st_world w2) = s1" "conn_on c w2"
    unfolding open_request_def Let_def by (auto simp: performs_seq_def)
  then show ?thesis
    unfolding f using assms(5) w1(1)
    by (intro exI [of _ w2]) (simp add: OpenFile_def P conn_proto_def opened_file_def [symmetric] Let_def)
qed

lemma shareFor_writes: "shareFor flag \<noteq> OpenShareAccessRead \<longleftrightarrow> flag AND O_WRONLY \<noteq> 0 \<or> flag AND O_RDWR \<noteq> 0"
  by (simp add: shareFor_def)

text \<open>C2: Opening a file by path over a connection: the directory is resolved from the root and the
  last component is opened there, with the share mode of the flags, creation with the permission bits
  exactly when asked for, and a confirmation when the server wants one. The result is an open file at
  position 0 with the handle and stateid the server gave; when truncation is asked for and the file is
  open for writing, the file is empty, and otherwise it is as OPEN left it. No other file changes.\<close>

theorem OpenFile_opens:
  assumes "file_server sv content" and "conn_on c w" and "s = wi_fs (st_world w)"
    and "rw_proto fsys = conn_proto (env\<lparr>ev_base := serve sv\<rparr>)" and "fs_ValidPath name"
    and "resolves (server_lookup sv s) (RootFH c) (parent_comps name) = Inr parent"
    and "open_spec sv parent (open_request c (cn_openSeqid c + 1) (snd (path_Split name)) flag perm) (cn_openSeqid c + 1) s = (Inr res, n, s1)"
    and "content s1 (nilb (or_FH res)) = Some bs"
  shows "\<exists>f s'. OpenFile fsys calm_ctx name flag perm (c, w) = Some (Inr f, s') \<and> in_use s' \<and>
    f_name f = name \<and> f_fh f = or_FH res \<and> f_stateid f = or_Stateid res \<and> f_offset f = 0 \<and> \<not> f_closed f \<and> f_flag f = flag \<and>
    over_conn content s' =
      (if flag AND O_TRUNC \<noteq> 0 \<and> (flag AND O_WRONLY \<noteq> 0 \<or> flag AND O_RDWR \<noteq> 0)
       then (content s1)(nilb (or_FH res) \<mapsto> []) else content s1)"
proof -
  let ?f = "opened_file fsys calm_ctx name res flag"
  from OpenFile_opened [OF file_server.prompt [OF assms(1)] assms(2-7) refl] obtain w2 where
    op: "OpenFile fsys calm_ctx name flag perm (c, w) =
      (if flag AND O_TRUNC \<noteq> 0 \<and> shareFor flag \<noteq> OpenShareAccessRead
       then do {
         (err, s) \<leftarrow> File_Truncate 0 ?f (c\<lparr>cn_openSeqid := n\<rparr>, w2);
         (case err of
            None \<Rightarrow> Some (Inr ?f, s)
          | Some err \<Rightarrow> do { (_, _, s) \<leftarrow> File_Close ?f s; Some (Inl (pathError ''open'' name err), s) })
       }
       else Some (Inr ?f, c\<lparr>cn_openSeqid := n\<rparr>, w2))" and w2: "wi_fs (st_world w2) = s1" "conn_on c w2" by blast
  let ?s2 = "(c\<lparr>cn_openSeqid := n\<rparr>, w2)"
  have s2: "in_use ?s2" "over_conn content ?s2 = content s1" using w2 by (simp_all add: in_use_def over_conn_def)
  have fields: "f_name ?f = name" "f_fh ?f = or_FH res" "f_stateid ?f = or_Stateid res" "f_offset ?f = 0" "\<not> f_closed ?f" "f_flag ?f = flag"
    "rw_proto (f_fsys ?f) = conn_proto (env\<lparr>ev_base := serve sv\<rparr>)" "f_ctx ?f = calm_ctx" using assms(4) by (simp_all add: opened_file_def)
  show ?thesis
  proof (cases "flag AND O_TRUNC \<noteq> 0 \<and> (flag AND O_WRONLY \<noteq> 0 \<or> flag AND O_RDWR \<noteq> 0)")
    case True
    have "over_conn content ?s2 (nilb (f_fh ?f)) = Some bs" using s2(2) assms(8) fields by simp
    from file_store.File_Truncate_resizes [OF file_server.conn_file_store [OF assms(1)] fields(7,8,5) s2(1) this, of 0] obtain s3 where
      "File_Truncate 0 ?f ?s2 = Some (None, s3)" "in_use s3" "over_conn content s3 = (content s1)(nilb (or_FH res) \<mapsto> [])"
      using s2(2) fields(2) by (auto simp: resize_def zeros_def)
    then show ?thesis using op True shareFor_writes fields by auto
  next
    case False
    then have "OpenFile fsys calm_ctx name flag perm (c, w) = Some (Inr ?f, ?s2)" using op shareFor_writes by auto
    then show ?thesis using False fields s2 by auto
  qed
qed

theorem OpenFile_opens_witness:
  "\<exists>f s'. OpenFile sample_rw calm_ctx ''d/b'' 0x202 0 (sample_conn, sample_store) = Some (Inr f, s') \<and> f_fh f = Some [2] \<and>
     over_conn mem_content s' [2] = Some []"
proof -
  have p: "path_Split ''d/b'' = (''d/'', ''b'')" by code_simp
  have r: "resolves (server_lookup mem_server sample_mem) (RootFH sample_conn) (parent_comps ''d/b'') = Inr (Some [3])"
    by (simp add: parent_comps_def p strings_TrimSuffix_def server_lookup_def at_fh_def mem_server_def mem_lookup_def
        sample_mem_def nilb_def RootFH_def sample_conn_def)
  have o: "open_spec mem_server (Some [3]) (open_request sample_conn (cn_openSeqid sample_conn + 1) (snd (path_Split ''d/b'')) 0x202 0)
      (cn_openSeqid sample_conn + 1) sample_mem = (Inr \<lparr>or_FH = Some [2], or_Stateid = mem_stateid sample_mem\<rparr>, cn_openSeqid sample_conn + 1, sample_mem)"
    by (simp add: open_request_def Open_args_def p open_spec_def at_fh_def mem_server_def sample_mem_def mem_open_def mem_lookup_def
        nilb_def mem_stateid_def Let_def)
  have b: "mem_content sample_mem (nilb (or_FH \<lparr>or_FH = Some [2], or_Stateid = mem_stateid sample_mem\<rparr>)) = Some [10, 11, 12]"
    by (simp add: nilb_def)
  have P: "rw_proto sample_rw = conn_proto (sample_env\<lparr>ev_base := serve mem_server\<rparr>)" by (simp add: sample_rw_def NewRW_def)
  have v: "fs_ValidPath ''d/b''" by code_simp
  from OpenFile_opens [OF mem_files.file_server_axioms sample_conn_on sample_simps(1) [symmetric] P v r o b]
  show ?thesis by (auto simp: nilb_def)
qed

end
