(* ===== verification/Open_Bytes.thy ===== *)
theory Open_Bytes
  imports Conn_Bytes Open_Props
begin

text \<open>
  From a path to the bytes of a file and back, over the bytes of the connection: opening a file
  (\<open>OpenFile\<close> of \<open>src/client/file.go\<close>), writing and reading it.
\<close>

text \<open>The lookups from a handle fit.\<close>

fun walk_fits :: "'s server \<Rightarrow> 's \<Rightarrow> FileHandle \<Rightarrow> string list \<Rightarrow> bool" where
  "walk_fits sv s fh [] = True"
| "walk_fits sv s fh (name # comps) =
     (call_fits sv [PutfhArgs fh, LookupArgs name, GetfhArgs] s \<and>
      (case server_lookup sv s fh name of Inl err \<Rightarrow> True | Inr fh' \<Rightarrow> walk_fits sv s fh' comps))"

lemma lookup_all_bytes:
  assumes "never_delays sv"
  shows "conn_ready c w \<Longrightarrow> s = wi_fs (st_world w) \<Longrightarrow> walk_fits sv s fh comps \<Longrightarrow>
    \<exists>w'. lookup_all (conn_proto (env\<lparr>ev_base := rpc_base sv\<rparr>)) calm_ctx fh comps (c, w) =
      Some (resolves (server_lookup sv s) fh comps, c, w') \<and> conn_ready c w' \<and> wi_fs (st_world w') = s"
proof (induction comps arbitrary: fh w)
  case Nil
  then show ?case by simp
next
  case (Cons name comps)
  from Lookup_bytes [OF Cons.prems(1) assms Cons.prems(2), of fh name env] Cons.prems(3) obtain w1 where
    w1: "Lookup (env\<lparr>ev_base := rpc_base sv\<rparr>) calm_ctx c fh name w = Some (server_lookup sv s fh name, w1)"
      "conn_ready c w1" "wi_fs (st_world w1) = s"
    by (auto simp: performs_bytes_def server_lookup_def split_beta)
  then have "pr_Lookup (conn_proto (env\<lparr>ev_base := rpc_base sv\<rparr>)) calm_ctx fh name (c, w) = Some (server_lookup sv s fh name, c, w1)"
    by (simp add: conn_proto_def with_conn_def)
  with w1 Cons.IH [OF w1(2) w1(3) [symmetric]] Cons.prems(3) show ?case by (cases "server_lookup sv s fh name") auto
qed

lemma resolveParent_bytes:
  assumes "never_delays sv" and "conn_ready c w" and "s = wi_fs (st_world w)"
    and "rw_proto fsys = conn_proto (env\<lparr>ev_base := rpc_base sv\<rparr>)" and "walk_fits sv s (RootFH c) (parent_comps name)"
  shows "\<exists>w'. resolveParent fsys calm_ctx name (c, w) =
      Some (case resolves (server_lookup sv s) (RootFH c) (parent_comps name) of
              Inl err \<Rightarrow> Inl err | Inr fh \<Rightarrow> Inr (fh, snd (path_Split name)), c, w') \<and>
      conn_ready c w' \<and> wi_fs (st_world w') = s"
proof -
  obtain dir base where p: "path_Split name = (dir, base)" by (metis prod.exhaust)
  have "pr_RootFH (rw_proto fsys) (c, w) = RootFH c" by (simp add: assms(4) conn_proto_def)
  with lookup_all_bytes [OF assms(1-3,5), of env] p show ?thesis
    by (auto simp: resolveParent_def parent_comps_def Let_def assms(4) split: sum.splits)
qed

text \<open>OPEN and, if the server asks for it, OPEN_CONFIRM fit.\<close>

definition open_fits :: "'s server \<Rightarrow> FileHandle \<Rightarrow> OpenArgs \<Rightarrow> u32 \<Rightarrow> 's \<Rightarrow> bool" where
  "open_fits sv dir a n s \<longleftrightarrow>
     call_fits sv [PutfhArgs dir, AOpen a, GetfhArgs] s \<and>
     (case sv_open sv (nilb dir) a s of
        ((st, fh, sid, rflags), s1) \<Rightarrow>
          st = NFS4_OK \<and> rflags AND OpenResultConfirm \<noteq> 0 \<longrightarrow>
          call_fits sv [PutfhArgs (Some fh), OpenConfirmArgs sid (n + 1)] s1)"

lemma OpenFile_bytes:
  assumes nd: "never_delays sv" and "conn_ready c w" and "s = wi_fs (st_world w)"
    and P: "rw_proto fsys = conn_proto (env\<lparr>ev_base := rpc_base sv\<rparr>)" and "fs_ValidPath name" and trunc: "flag AND O_TRUNC = 0"
    and "walk_fits sv s (RootFH c) (parent_comps name)"
    and "resolves (server_lookup sv s) (RootFH c) (parent_comps name) = Inr parent"
    and n: "n = cn_openSeqid c + 1" and a: "a = open_request c n (snd (path_Split name)) flag perm"
    and fits: "open_fits sv parent a n s" and spec: "open_spec sv parent a n s = (Inr res, n', s1)"
  shows "\<exists>w2. OpenFile fsys calm_ctx name flag perm (c, w) =
      Some (Inr (opened_file fsys calm_ctx name res flag), c\<lparr>cn_openSeqid := n'\<rparr>, w2) \<and>
    wi_fs (st_world w2) = s1 \<and> conn_ready c w2"
proof -
  let ?attrs = "if flag AND O_CREATE \<noteq> 0 then EncodeFattr (mode_attrs (FileMode_Perm perm)) else ([], [])"
  from resolveParent_bytes [OF nd assms(2-4,7)] assms(8) obtain w1 where
    w1: "resolveParent fsys calm_ctx name (c, w) = Some (Inr (parent, snd (path_Split name)), c, w1)" "conn_ready c w1"
      "s = wi_fs (st_world w1)" by auto
  have "performs_seq_bytes c (Open (env\<lparr>ev_base := rpc_base sv\<rparr>) calm_ctx c parent (snd (path_Split name)) (shareFor flag) (fst ?attrs) (snd ?attrs)
      (flag AND O_CREATE \<noteq> 0) (flag AND O_EXCL \<noteq> 0) w1) (open_spec sv parent a n s)"
    by (rule Open_bytes [OF w1(2) nd w1(3) n]) (use fits in \<open>auto simp: a open_request_def Let_def open_fits_def\<close>)
  then obtain w2 where
    w2: "Open (env\<lparr>ev_base := rpc_base sv\<rparr>) calm_ctx c parent (snd (path_Split name)) (shareFor flag) (fst ?attrs) (snd ?attrs)
        (flag AND O_CREATE \<noteq> 0) (flag AND O_EXCL \<noteq> 0) w1 = Some (Inr res, c\<lparr>cn_openSeqid := n'\<rparr>, w2)"
      "wi_fs (st_world w2) = s1" "conn_ready c w2"
    unfolding spec by (auto simp: performs_seq_bytes_def)
  then show ?thesis
    using assms(5) trunc w1(1)
    by (intro exI [of _ w2]) (simp add: OpenFile_def P conn_proto_def opened_file_def [symmetric] Let_def)
qed

subsection \<open>Sizes\<close>

lemma encoded_open_args:
  "encoded (EncodeArg (LookupArgs name)) = BigEndian_PutUint32 OpLookup @ wire_string name"
  "oa_OpenType a \<noteq> Open4Create \<Longrightarrow> encoded (EncodeArg (AOpen a)) =
     BigEndian_PutUint32 OpOpen @ BigEndian_PutUint32 (oa_Seqid a) @ BigEndian_PutUint32 (oa_ShareAccess a) @
     BigEndian_PutUint32 (oa_ShareDeny a) @ BigEndian_PutUint64 (oa_ClientID a) @ wire_opaque (oa_Owner a) @
     BigEndian_PutUint32 (oa_OpenType a) @ [] @ BigEndian_PutUint32 ClaimNull @ wire_string (oa_Name a)"
  by (rule encoded_writes; simp add: OpenArgs_EncodeArg_def; intro writes_bind wire_writes)+

lemma encoded_opened:
  "encoded (encode_outcome r0 (res_outcome (OpenRes 0 sid rflags []))) =
     BigEndian_PutUint32 0 @ wire_stateid sid @ (wire_bool False @ BigEndian_PutUint64 0 @ BigEndian_PutUint64 0) @
     BigEndian_PutUint32 rflags @ wire_bitmap [] @ BigEndian_PutUint32 0"
  by (rule encoded_writes; simp add: res_outcome_def no_extras_def; intro writes_bind wire_writes)

lemma length_fh_done:
  "opaque_ok h \<Longrightarrow> length (encoded (encode_outcome (GetfhRes 0 None) (res_outcome (GetfhRes 0 (Some h))))) \<le> 64 * 2 ^ 20 + 11"
  using opaque_length [of h] by (simp add: encoded_done)

lemma lookup_call_fits:
  assumes "opaque_ok h" and "string_ok name" and "opaque_ok (snd (sv_lookup sv h name s))"
  shows "call_fits sv [PutfhArgs (Some h), LookupArgs name, GetfhArgs] s"
proof -
  obtain st h' where lk: "sv_lookup sv h name s = (st, h')" by (metis prod.exhaust)
  have sz: "args_size [PutfhArgs (Some h), LookupArgs name, GetfhArgs] \<le> 2 ^ 30"
    using opaque_length [OF assms(1)] string_length [OF assms(2)] unfolding args_size_simps encoded_arg encoded_open_args by simp
  show ?thesis
    using assms length_fh_done [of h'] length_put sz
    by (auto simp: call_fits_def lk Let_def simp del: args_size_simps)
qed

text \<open>Opening without creating.\<close>

lemma open_call_fits:
  assumes "opaque_ok h" and "arg_ok (AOpen a)" "oa_OpenType a \<noteq> Open4Create"
    and op: "sv_open sv h a s = ((st, fh, sid, rflags), s1)" and ok: "st = NFS4_OK \<Longrightarrow> opaque_ok fh \<and> stateid_ok sid"
  shows "call_fits sv [PutfhArgs (Some h), AOpen a, GetfhArgs] s"
proof -
  have names: "opaque_ok (oa_Owner a)" "string_ok (oa_Name a)" using assms(2) by simp_all
  have sz: "args_size [PutfhArgs (Some h), AOpen a, GetfhArgs] \<le> 2 ^ 30"
    using opaque_length [OF assms(1)] opaque_length [OF names(1)] string_length [OF names(2)]
    unfolding args_size_simps encoded_arg encoded_open_args(2) [OF assms(3)] by simp
  have opened: "length (encoded (encode_outcome (OpenRes 0 Stateid_zero 0 []) (res_outcome (OpenRes 0 sid rflags [])))) \<le> 60"
    if "stateid_ok sid" using that
    by (simp add: encoded_opened wire_stateid_def wire_bool_def wire_bitmap_def length_wire_fixed stateid_ok_def pad4_def Unit_def)
  have failed: "length (encoded (encode_outcome (OpenRes 0 Stateid_zero 0 []) (res_outcome (OpenRes st Stateid_zero 0 [])))) = 4"
    if "st \<noteq> NFS4_OK" using that length_failed [of "OpenRes st Stateid_zero 0 []"] by simp
  show ?thesis
    using assms(1,2) ok length_fh_done [of fh] length_put sz opened failed
    by (auto simp: call_fits_def op Let_def bitmap_ok_def simp del: args_size_simps arg_ok.simps(8))
qed

subsection \<open>Properties\<close>

text \<open>C9: Through the whole stack and over the bytes of the connection: a path is resolved and the file
  opened, without O_TRUNC. When the server takes all of a WRITE of up to 64 MiB at an offset of the file,
  \<open>WriteAt\<close> leaves the server as that WRITE does, which changes those bytes of the file and nothing else, and returns
  their number without an error; \<open>ReadAt\<close> there gives the bytes back. The lookups, the opening and the
  handles are within the limits of the formats.\<close>

theorem open_write_read_bytes:
  assumes "file_server sv content" and "conn_ready c w" and "s = wi_fs (st_world w)"
    and P: "fsys = NewRW bg (conn_proto (env\<lparr>ev_base := rpc_base sv\<rparr>))" and "fs_ValidPath name" and "flag AND O_TRUNC = 0"
    and "walk_fits sv s (RootFH c) (parent_comps name)"
    and "resolves (server_lookup sv s) (RootFH c) (parent_comps name) = Inr parent"
    and "n = cn_openSeqid c + 1" and "a = open_request c n (snd (path_Split name)) flag perm"
    and "open_fits sv parent a n s" and "open_spec sv parent a n s = (Inr res, n', s1)"
    and h: "or_FH res = Some h" and "content s1 h = Some bs" and "opaque_ok h" and "stateid_ok (or_Stateid res)"
    and "opaque_ok p" and "0 \<le> off" and "nat off + length p < 2 ^ 63" and "length q = length p" and "p \<noteq> []"
    and "sv_write sv h (or_Stateid res) (word_of_int off) FileSync4 p s1 = ((NFS4_OK, k, how), s2)" and "unat k = length p"
  shows "\<exists>f c' w1 w2 err s3. OpenFile fsys calm_ctx name flag perm (c, w) = Some (Inr f, c', w1) \<and> f_fh f = Some h \<and>
    wi_fs (st_world w1) = s1 \<and>
    File_WriteAt p off f (c', w1) = Some ((length p, None), c', w2) \<and> wi_fs (st_world w2) = s2 \<and>
    content s2 = (content s1)(h \<mapsto> splice (nat off) p bs) \<and>
    File_ReadAt q off f (c', w2) = Some ((length p, err), p, s3) \<and> (err = None \<or> err = Some (Sentinel EOF))"
proof -
  let ?f = "opened_file fsys calm_ctx name res flag" and ?c = "c\<lparr>cn_openSeqid := n'\<rparr>"
  have rw: "rw_proto fsys = conn_proto (env\<lparr>ev_base := rpc_base sv\<rparr>)" by (simp add: P NewRW_def)
  from OpenFile_bytes [OF file_server.prompt [OF assms(1)] assms(2,3) rw assms(5-12)] obtain w1 where
    w1: "OpenFile fsys calm_ctx name flag perm (c, w) = Some (Inr ?f, ?c, w1)" "wi_fs (st_world w1) = s1" "conn_ready c w1" by blast
  have ready: "conn_ready ?c w1" using w1(3) by simp
  have f: "file_on (conn_proto (env\<lparr>ev_base := rpc_base sv\<rparr>)) ?f = ?f" "f_fh ?f = Some h" "f_ctx ?f = calm_ctx"
      "\<not> f_closed ?f" "f_stateid ?f = or_Stateid res"
    using h by (simp_all add: opened_file_def file_on_def rwfs_on_def P NewRW_def FS_New_def)
  from File_write_read_whole_bytes [OF assms(1) ready w1(2) [symmetric] assms(14) f(1-4) assms(15), of p off q k how s2]
    assms(16-23) f(5)
  obtain w2 err s3 where "File_WriteAt p off ?f (?c, w1) = Some ((length p, None), ?c, w2)" "wi_fs (st_world w2) = s2"
    "content s2 = (content s1)(h \<mapsto> splice (nat off) p bs)"
    "File_ReadAt q off ?f (?c, w2) = Some ((length p, err), p, s3)" "err = None \<or> err = Some (Sentinel EOF)" by auto
  with w1(1,2) f(2) show ?thesis by blast
qed

theorem open_write_read_bytes_witness:
  "\<exists>f c' w1 w2 err s3. OpenFile (NewRW calm_ctx (conn_proto (sample_env\<lparr>ev_base := rpc_base mem_server\<rparr>))) calm_ctx ''d/b'' 0x2 0
       (sample_conn, sample_store) = Some (Inr f, c', w1) \<and>
     File_WriteAt [7, 8] 5 f (c', w1) = Some ((2, None), c', w2) \<and>
     mem_content (wi_fs (st_world w2)) [2] = Some [10, 11, 12, 0, 0, 7, 8] \<and>
     File_ReadAt [0, 0] 5 f (c', w2) = Some ((2, err), [7, 8], s3)"
proof -
  let ?n = "cn_openSeqid sample_conn + 1" and ?res = "\<lparr>or_FH = Some [2], or_Stateid = mem_stateid sample_mem\<rparr>"
  let ?a = "open_request sample_conn ?n (snd (path_Split ''d/b'')) 0x2 0"
  note mem = mem_server_def mem_lookup_def sample_mem_def at_fh_def nilb_def
  have p: "path_Split ''d/b'' = (''d/'', ''b'')" and v: "fs_ValidPath ''d/b''" by code_simp+
  have comps: "parent_comps ''d/b'' = [''d'']" by (simp add: parent_comps_def p strings_TrimSuffix_def)
  have root: "RootFH sample_conn = Some [1]" by (simp add: RootFH_def sample_conn_def)
  have look: "sv_lookup mem_server [1] ''d'' sample_mem = (0, [3])" "server_lookup mem_server sample_mem (Some [1]) ''d'' = Inr (Some [3])"
    by (simp_all add: server_lookup_def mem)
  have "call_fits mem_server [PutfhArgs (Some [1]), LookupArgs ''d'', GetfhArgs] sample_mem"
    by (rule lookup_call_fits) (simp_all add: look opaque_ok_def string_ok_def)
  then have walk: "walk_fits mem_server sample_mem (RootFH sample_conn) (parent_comps ''d/b'')"
    and r: "resolves (server_lookup mem_server sample_mem) (RootFH sample_conn) (parent_comps ''d/b'') = Inr (Some [3])"
    by (simp_all add: comps root look)
  have op: "sv_open mem_server [3] ?a sample_mem = ((0, [2], mem_stateid sample_mem, 0), sample_mem)"
    by (simp add: open_request_def Open_args_def p mem mem_open_def Let_def)
  have "call_fits mem_server [PutfhArgs (Some [3]), AOpen ?a, GetfhArgs] sample_mem"
    by (rule open_call_fits [OF _ _ _ op])
      (simp_all add: opaque_ok_def string_ok_def open_request_def Open_args_def ownerID_def p stateid_ok_def mem_stateid_def Let_def
        ClientID_def sample_conn_def NewConn_def dec_string.simps)
  then have fits: "open_fits mem_server (Some [3]) ?a ?n sample_mem" using op by (simp add: open_fits_def nilb_def)
  have spec: "open_spec mem_server (Some [3]) ?a ?n sample_mem = (Inr ?res, ?n, sample_mem)"
    using op by (simp add: open_spec_def at_fh_def nilb_def) (simp add: mem)
  have ok: "opaque_ok [2]" "stateid_ok (or_Stateid ?res)" "opaque_ok [7, 8]" "mem_content sample_mem [2] = Some [10, 11, 12]" "or_FH ?res = Some [2]"
    by (simp_all add: opaque_ok_def stateid_ok_def mem_stateid_def)
  have n: "(0 :: int) \<le> 5" "nat 5 + length [7, 8 :: u8] < 2 ^ 63" "length [0, 0 :: u8] = length [7, 8 :: u8]" "(0x2 :: int) AND O_TRUNC = 0" by simp_all
  from open_write_read_bytes [OF mem_files.file_server_axioms sample_ready sample_simps(1) [symmetric] refl v n(4) walk r refl refl fits spec
      ok(5,4,1,2,3) n(1-3) _ sample_write, where bg = calm_ctx and env = sample_env]
  obtain f c' w1 w2 err s3 where
    "OpenFile (NewRW calm_ctx (conn_proto (sample_env\<lparr>ev_base := rpc_base mem_server\<rparr>))) calm_ctx ''d/b'' 0x2 0 (sample_conn, sample_store) =
      Some (Inr f, c', w1)" "File_WriteAt [7, 8] 5 f (c', w1) = Some ((length [7, 8 :: u8], None), c', w2)"
    "wi_fs (st_world w2) = mem_set [2] (Reg [10, 11, 12, 0, 0, 7, 8]) sample_mem"
    "File_ReadAt [0, 0] 5 f (c', w2) = Some ((length [7, 8 :: u8], err), [7, 8], s3)"
    by auto
  then show ?thesis
    by (intro exI [of _ f] exI [of _ c'] exI [of _ w1] exI [of _ w2] exI [of _ err] exI [of _ s3]) (simp add: mem_content_set)
qed

end
