(* ===== verification/Dial_Bytes.thy ===== *)
theory Dial_Bytes
  imports Conn_Bytes
begin

text \<open>
  From a dialled socket to a mounted connection, over the bytes: \<open>rpc.Dial\<close> of \<open>src/rpc/client.go\<close>
  below \<open>Dial\<close> of \<open>src/nfs4/transport.go\<close>. The package \<open>net\<close> remains a parameter.
\<close>

subsection \<open>Dialling and closing with the RPC client\<close>

definition net_dial :: "('s wire goctx, 's wire store, unit) netpkg \<Rightarrow> u32 \<Rightarrow>
    's wire goctx \<Rightarrow> string \<Rightarrow> OpaqueAuth \<Rightarrow> OpaqueAuth \<Rightarrow> 's wire store \<Rightarrow> goerror option \<times> 's wire store" where
  "net_dial np rnd ctx address cred verf w =
     (case rpc_Dial np ctx address \<lparr>co_Cred = cred, co_Verf = verf\<rparr> rnd w of
        (Inl err, w) \<Rightarrow> (Some err, w)
      | (Inr cl, w) \<Rightarrow> (None, w\<lparr>st_world := (st_world w)\<lparr>wi_rpc := cl\<rparr>\<rparr>))"

definition net_close :: "'s wire store \<Rightarrow> goerror option \<times> 's wire store" where
  "net_close w =
     (case Client_Close (wi_rpc (st_world w)) of
        (err, cl) \<Rightarrow> (err, w\<lparr>st_world := (st_world w)\<lparr>wi_rpc := cl\<rparr>\<rparr>))"

text \<open>The program over the network \<open>np\<close> and the server \<open>sv\<close>.\<close>

definition net_env :: "'s server \<Rightarrow> ('s wire goctx, 's wire store, unit) netpkg \<Rightarrow> u32 \<Rightarrow> 's wire env \<Rightarrow> 's wire env" where
  "net_env sv np rnd env = env\<lparr>ev_dial := net_dial np rnd, ev_close := net_close, ev_base := rpc_base sv\<rparr>"

text \<open>A socket on which nothing has been received.\<close>

definition fresh_conn :: "'t netconn \<Rightarrow> bool" where
  "fresh_conn conn \<longleftrightarrow> nc_in conn = bytes_reader [] \<and> \<not> nc_closed conn"

text \<open>Dialling gives a fresh socket, and the option that is set on it leaves it so.\<close>

definition dials :: "('c, 'w, 't) netpkg \<Rightarrow> 'c \<Rightarrow> string \<Rightarrow> 'w \<Rightarrow> 'w \<Rightarrow> bool" where
  "dials np ctx address w w0 \<longleftrightarrow>
     (\<exists>conn. np_DialContext np ctx ''tcp'' address w = (Inr conn, w0) \<and> fresh_conn conn \<and>
        (\<forall>f. np_SetNoDelay np conn = Some f \<longrightarrow> fresh_conn (snd (f True))))"

lemma net_dial_idle:
  assumes "dials np ctx address w w0" and "auth_ok cred" and "auth_ok verf"
  shows "\<exists>cl. net_dial np rnd ctx address cred verf w = (None, w0\<lparr>st_world := (st_world w0)\<lparr>wi_rpc := cl\<rparr>\<rparr>) \<and> client_idle cl"
proof -
  from assms(1) obtain conn where
    conn: "np_DialContext np ctx ''tcp'' address w = (Inr conn, w0)" "fresh_conn conn"
      "\<And>f. np_SetNoDelay np conn = Some f \<Longrightarrow> fresh_conn (snd (f True))"
    unfolding dials_def by blast
  let ?conn = "case np_SetNoDelay np conn of None \<Rightarrow> conn | Some SetNoDelay \<Rightarrow> snd (SetNoDelay True)"
  have "fresh_conn ?conn" using conn(2,3) by (auto split: option.split)
  then have "client_idle (NewClient ?conn \<lparr>co_Cred = cred, co_Verf = verf\<rparr> rnd)"
    using assms(2,3) by (simp add: client_idle_def NewClient_def fresh_conn_def)
  then show ?thesis
    by (intro exI [of _ "NewClient ?conn \<lparr>co_Cred = cred, co_Verf = verf\<rparr> rnd"]) (simp add: net_dial_def rpc_Dial_def conn(1))
qed

subsection \<open>The calls of mounting\<close>

text \<open>Verifiers and session ids of the server have the sizes of their types (RFC 7530 and 5661).\<close>

definition sized_ids :: "'s server \<Rightarrow> bool" where
  "sized_ids sv \<longleftrightarrow>
     (\<forall>a s. length (snd (snd (fst (sv_setclientid sv a s)))) = 8) \<and>
     (\<forall>a s. length (fst (snd (fst (sv_create_session sv a s)))) = 16)"

lemma sized_idsD:
  "sized_ids sv \<Longrightarrow> sv_setclientid sv a s = ((st, cid, confirm), s') \<Longrightarrow> length confirm = 8"
  "sized_ids sv \<Longrightarrow> sv_create_session sv b s = ((st, sid, n), s') \<Longrightarrow> length sid = 16"
  unfolding sized_ids_def by (metis fst_conv snd_conv)+

lemma ready_call:
  assumes "conn_ready c w" and "never_delays sv" and "conn_fits sv ops results (wi_fs (st_world w))"
    and "run_ops sv (None, None) ops (wi_fs (st_world w)) = (out, fs)"
  shows "\<exists>w'. Conn_call (env\<lparr>ev_base := rpc_base sv\<rparr>) calm_ctx c ops results w =
           Some (((Some \<lparr>cr_Status = final_status out, cr_Tag = [], cr_NumResults = length out\<rparr>, None),
                  out @ drop (length out) results), w') \<and>
         wi_fs (st_world w') = fs \<and> conn_ready c w'"
proof -
  have on: "conn_on c w" using assms(1) by (simp add: conn_ready_def)
  from ready_call_fits [OF assms(1-3), of env] obtain x w' where
    x: "Conn_call (env\<lparr>ev_base := fits_base sv\<rparr>) calm_ctx c ops results w = Some (x, w')" "conn_ready c w'" by blast
  note xP = ord_Some [OF on_bytes.Conn_call_ord x(1)] and xS = ord_Some [OF on_server.Conn_call_ord x(1)]
  from conn_on_call [OF on assms(2,4), of env results] xS xP x(2) show ?thesis by auto
qed

lemma ready_one:
  assumes "conn_ready c w" and "never_delays sv" and "conn_fits sv [a] [r0] (wi_fs (st_world w))"
    and "serve_op sv (None, None) a (wi_fs (st_world w)) = (r, fhs, fs)"
  shows "\<exists>w'. Conn_one (env\<lparr>ev_base := rpc_base sv\<rparr>) calm_ctx c msg a r0 w = Some (Inr r, w') \<and>
         wi_fs (st_world w') = fs \<and> conn_ready c w'"
proof -
  have "run_ops sv (None, None) [a] (wi_fs (st_world w)) = ([r], fs)" using assms(4) by simp
  from ready_call [OF assms(1-3) this, of env] show ?thesis by (auto simp: Conn_one_def)
qed

lemma encoded_mount_arg:
  "encoded (EncodeArg PutrootfhArgs) = BigEndian_PutUint32 OpPutrootfh"
  "encoded (EncodeArg (SetclientidConfirmArgs cid verf)) =
     BigEndian_PutUint32 OpSetclientidConfirm @ BigEndian_PutUint64 cid @ wire_fixed verf"
  "encoded (EncodeArg (ASetclientid a)) =
     BigEndian_PutUint32 OpSetclientid @ wire_fixed (sc_Verifier a) @ wire_opaque (sc_ID a) @
     BigEndian_PutUint32 (sc_CallbackProg a) @ wire_string (sc_CallbackNetID a) @ wire_string (sc_CallbackAddr a) @
     BigEndian_PutUint32 (sc_CallbackIdent a)"
  "encoded (EncodeArg (ExchangeIDArgs verf owner flags)) =
     BigEndian_PutUint32 OpExchangeID @ wire_fixed verf @ wire_opaque owner @ BigEndian_PutUint32 flags @
     BigEndian_PutUint32 spNone @ BigEndian_PutUint32 0"
  "encoded (EncodeArg (ReclaimCompleteArgs onefs)) = BigEndian_PutUint32 OpReclaimComplete @ wire_bool onefs"
  by (rule encoded_writes; simp add: SetclientidArgs_EncodeArg_def; intro writes_bind wire_writes)+

definition wire_chan :: "ChannelAttrs \<Rightarrow> bytes" where
  "wire_chan c =
     BigEndian_PutUint32 (ca_HeaderPadSize c) @ BigEndian_PutUint32 (ca_MaxRequestSize c) @
     BigEndian_PutUint32 (ca_MaxResponseSize c) @ BigEndian_PutUint32 (ca_MaxResponseSizeCach c) @
     BigEndian_PutUint32 (ca_MaxOperations c) @ BigEndian_PutUint32 (ca_MaxRequests c) @ BigEndian_PutUint32 0"

lemma length_wire_chan [simp]: "length (wire_chan c) = 28"
  by (simp add: wire_chan_def)

lemma writes_chan [wire_writes]: "writes (ChannelAttrs_encode c) (wire_chan c)"
  unfolding ChannelAttrs_encode_def wire_chan_def by (intro writes_bind wire_writes)

lemma encode_chan_plain: "encode_chan [] c = ChannelAttrs_encode c"
  by (simp add: encode_chan_def ChannelAttrs_encode_def)

lemma encoded_create_session:
  "encoded (EncodeArg (ACreateSession a)) =
     BigEndian_PutUint32 OpCreateSession @ BigEndian_PutUint64 (cs_ClientID a) @ BigEndian_PutUint32 (cs_SequenceID a) @
     BigEndian_PutUint32 (cs_Flags a) @ wire_chan (cs_ForeChan a) @ wire_chan (cs_BackChan a) @
     BigEndian_PutUint32 (cs_CBProgram a) @ BigEndian_PutUint32 0"
  by (rule encoded_writes; simp add: CreateSessionArgs_EncodeArg_def; intro writes_bind wire_writes)

lemma encoded_mount_done:
  "encoded (encode_outcome r0 (res_outcome (SetclientidRes 0 cid confirm [] []))) =
     BigEndian_PutUint32 0 @ BigEndian_PutUint64 cid @ wire_fixed confirm"
  "encoded (encode_outcome r0 (res_outcome (ExchangeIDRes 0 cid seq flags))) =
     BigEndian_PutUint32 0 @ BigEndian_PutUint64 cid @ BigEndian_PutUint32 seq @ BigEndian_PutUint32 flags @
     BigEndian_PutUint32 0 @ BigEndian_PutUint64 0 @ wire_opaque [] @ wire_opaque [] @ BigEndian_PutUint32 0"
  "encoded (encode_outcome r0 (res_outcome (CreateSessionRes 0 sid seq flags fore bk))) =
     BigEndian_PutUint32 0 @ wire_fixed sid @ BigEndian_PutUint32 seq @ BigEndian_PutUint32 flags @
     wire_chan fore @ wire_chan bk"
  by (rule encoded_writes; simp add: res_outcome_def no_extras_def encode_chan_plain; intro writes_bind wire_writes)+

lemma length_reclaim: "length (encoded (encode_outcome (ReclaimCompleteRes 0) (res_outcome (ReclaimCompleteRes st)))) = 4"
proof (cases "st = NFS4_OK")
  case True
  have "writes (do { Encoder_Uint32 0; State_Monad.return () }) (BigEndian_PutUint32 0 @ [])" by (intro writes_bind wire_writes)
  with True show ?thesis by (simp add: res_outcome_def encoded_writes)
next
  case False
  then show ?thesis using length_failed [of "ReclaimCompleteRes st"] by simp
qed

lemmas mount_sizes = length_wire_fixed pad4_def Unit_def wire_bool_def

lemma setClientID_bytes:
  assumes ready: "conn_ready c w" and sv: "never_delays sv" "sized_ids sv"
    and verf: "ev_rand env w = (Inr verf, w)" "length verf = 8" and name: "opaque_ok (bytes_of_string (clientName env c))"
    and set: "sv_setclientid sv (setclientid_args env c verf) (wi_fs (st_world w)) = ((NFS4_OK, cid, confirm), s1)"
  shows "\<exists>w'. setClientID (env\<lparr>ev_base := rpc_base sv\<rparr>) calm_ctx c w =
      Some (None, c\<lparr>cn_clientID := cid, cn_confirm := confirm\<rparr>, w') \<and> wi_fs (st_world w') = s1 \<and> conn_ready c w'"
proof -
  let ?a = "setclientid_args env c verf" and ?r = "SetclientidRes 0 cid confirm [] []"
  have op: "serve_op sv (None, None) (ASetclientid ?a) (wi_fs (st_world w)) = (?r, (None, None), s1)" using set by simp
  have confirm: "length confirm = 8" by (rule sized_idsD(1) [OF sv(2) set])
  have strs: "string_ok ''tcp''" "string_ok ''0.0.0.0.0.0''" by (simp_all add: string_ok_def opaque_ok_def)
  have ok: "arg_ok (ASetclientid ?a)"
    using verf(2) name strs by (simp add: setclientid_args_def)
  have "args_size [ASetclientid ?a] \<le> 2 ^ 30"
    using opaque_length [OF name] string_length [OF strs(1)] string_length [OF strs(2)] verf(2)
    unfolding args_size_simps encoded_mount_arg by (simp add: setclientid_args_def mount_sizes)
  moreover have "outs_size [?r] \<le> 2 ^ 27" using confirm by (simp add: encoded_mount_done mount_sizes)
  ultimately have "conn_fits sv [ASetclientid ?a] [SetclientidRes 0 0 (zeros 8) [] []] (wi_fs (st_world w))"
    using op ok confirm by (simp add: conn_fits_def fitting_struct_def zero_for_def del: args_size_simps outs_size_simps serve_op.simps)
  from ready_one [OF ready sv(1) this op, of env "''nfs4: SETCLIENTID: %w''"] show ?thesis
    using verf(1) by (auto simp: setClientID_def setclientid_args_def Status_Err_def)
qed

lemma confirmClientID_bytes:
  assumes ready: "conn_ready c w" and sv: "never_delays sv" and len: "length (cn_confirm c) = 8"
    and conf: "sv_confirm sv (cn_clientID c) (cn_confirm c) (wi_fs (st_world w)) = (NFS4_OK, s1)"
  shows "\<exists>w'. confirmClientID (env\<lparr>ev_base := rpc_base sv\<rparr>) calm_ctx c w = Some (None, c, w') \<and>
    wi_fs (st_world w') = s1 \<and> conn_ready c w'"
proof -
  let ?a = "SetclientidConfirmArgs (cn_clientID c) (cn_confirm c)"
  have op: "serve_op sv (None, None) ?a (wi_fs (st_world w)) = (StatusRes 0, (None, None), s1)" using conf by simp
  have "args_size [?a] \<le> 2 ^ 30" using len unfolding args_size_simps encoded_mount_arg by (simp add: mount_sizes)
  then have "conn_fits sv [?a] [StatusRes 0] (wi_fs (st_world w))"
    using op len length_put [of 0] by (simp add: conn_fits_def fitting_struct_def zero_for_def del: args_size_simps serve_op.simps)
  from ready_one [OF ready sv this op, of env "''nfs4: SETCLIENTID_CONFIRM: %w''"] show ?thesis
    by (auto simp: confirmClientID_def Status_Err_def)
qed

lemma fetchRootFH_bytes:
  assumes ready: "conn_ready c w" and sv: "never_delays sv" and s: "s = wi_fs (st_world w)" and root: "opaque_ok (sv_root sv s)"
  shows "\<exists>w'. fetchRootFH (env\<lparr>ev_base := rpc_base sv\<rparr>) calm_ctx c w = Some (None, c\<lparr>cn_rootFH := Some (sv_root sv s)\<rparr>, w') \<and>
    wi_fs (st_world w') = s \<and> conn_ready c w'"
proof -
  have run: "run_ops sv (None, None) [PutrootfhArgs, GetfhArgs] (wi_fs (st_world w)) =
      ([StatusRes 0, GetfhRes 0 (Some (sv_root sv s))], s)" using s by simp
  have "length (encoded (encode_outcome (GetfhRes 0 None) (res_outcome (GetfhRes 0 (Some (sv_root sv s)))))) \<le> 64 * 2 ^ 20 + 11"
    using opaque_length [OF root] by (simp add: encoded_done)
  moreover have "args_size [PutrootfhArgs, GetfhArgs] \<le> 2 ^ 30" unfolding args_size_simps encoded_mount_arg encoded_arg by simp
  ultimately have "conn_fits sv [PutrootfhArgs, GetfhArgs] [StatusRes 0, GetfhRes 0 None] (wi_fs (st_world w))"
    using run root length_put [of 0]
    by (simp add: conn_fits_def fitting_struct_def zero_for_def del: args_size_simps run_ops.simps)
  from ready_call [OF ready sv this run, of env] show ?thesis
    by (auto simp: fetchRootFH_def result_Err_def CompoundResult_Err_def final_status_def)
qed

text \<open>An operation before there is a session.\<close>

lemma presession_one_bytes:
  assumes c: "cc_MinorVersion (cn_cfg c) = 1" "cn_caller c = newRetryCaller BaseCaller cfg"
    and idle: "client_idle (wi_rpc (st_world w))"
    and run: "wire_ops sv 1 [a] (st_world w) = ([r], s')" and nr: "\<not> isRetriableStatus (res_Status r)"
    and ok: "arg_ok a" "args_size [a] \<le> 2 ^ 30" "fitting_struct a r0" "res_Status r = NFS4_OK \<Longrightarrow> res_ok r" "outs_size [r] \<le> 2 ^ 27"
  shows "Conn_one (env\<lparr>ev_base := rpc_base sv\<rparr>) calm_ctx c msg a r0 w = Some (Inr r, w\<lparr>st_world := wire_tick s'\<rparr>)"
proof -
  let ?c = "\<lparr>cp_Tag = [], cp_MinorVersion = 1, cp_ops = [a]\<rparr>"
  have "length (reply_msg (wi_rpc (st_world w)) ?c [r]) = 36 + outs_size [r]"
    using wire_ops_answers [OF run] ok(4) by (intro length_reply_msg) auto
  then have "length (reply_msg (wi_rpc (st_world w)) ?c [r]) \<le> maxFragmentSize" using ok(5) by (simp add: maxFragmentSize_def)
  moreover have "length (request_msg (wi_rpc (st_world w)) ?c) < 2 ^ 31"
    using length_request_msg [OF idle, of 1 "[a]"] ok(2) by simp
  moreover have "compound_ok ?c" using ok(1) by (simp add: compound_ok_def string_ok_def opaque_ok_def)
  ultimately have "wire_fits sv calm_ctx ?c [r0] w"
    using idle ok(3,4) run by (simp add: wire_fits_def calm_ctx_def del: wire_ops.simps)
  from rpc_base_serve [OF this] have
    "CallCompound (rpc_base sv) BaseCaller calm_ctx ?c [r0] w =
      Some (((Some \<lparr>cr_Status = res_Status r, cr_Tag = [], cr_NumResults = 1\<rparr>, None), [r]), w\<lparr>st_world := wire_tick s'\<rparr>)"
    using run by (simp add: serve_def final_status_def del: wire_ops.simps)
  from retry_first [OF this, of cfg] nr c show ?thesis
    by (simp add: Conn_one_def Conn_call_compound)
qed

lemma exchangeID_bytes:
  assumes c: "cc_MinorVersion (cn_cfg c) = 1" "cn_caller c = newRetryCaller BaseCaller cfg"
    and idle: "client_idle (wi_rpc (st_world w))"
    and verf: "ev_rand env w = (Inr verf, w)" "length verf = 8" and name: "opaque_ok (bytes_of_string (clientName env c))"
    and ex: "sv_exchange_id sv verf (bytes_of_string (clientName env c)) ExchgIDFlagUseNonPNFS (wi_fs (st_world w)) =
           ((NFS4_OK, cid, seqid), s1)"
  shows "exchangeID (env\<lparr>ev_base := rpc_base sv\<rparr>) calm_ctx c w =
    Some (None, c\<lparr>cn_clientID := cid, cn_eirSequence := seqid\<rparr>, w\<lparr>st_world := wire_tick ((st_world w)\<lparr>wi_fs := s1\<rparr>)\<rparr>)"
proof -
  let ?a = "ExchangeIDArgs verf (bytes_of_string (clientName env c)) ExchgIDFlagUseNonPNFS" and ?r = "ExchangeIDRes 0 cid seqid 0"
  have run: "wire_ops sv 1 [?a] (st_world w) = ([?r], (st_world w)\<lparr>wi_fs := s1\<rparr>)" using ex by simp
  have nr: "\<not> isRetriableStatus (res_Status ?r)" by (simp add: isRetriableStatus_def)
  have args: "arg_ok ?a" using verf(2) name by simp
  have size: "args_size [?a] \<le> 2 ^ 30"
    using opaque_length [OF name] verf(2) unfolding args_size_simps encoded_mount_arg by (simp add: mount_sizes)
  have fit: "fitting_struct ?a (ExchangeIDRes 0 0 0 0)" by (simp add: fitting_struct_def zero_for_def)
  have res: "res_ok ?r" "outs_size [?r] \<le> 2 ^ 27"
    by (simp_all add: encoded_mount_done wire_opaque_def mount_sizes)
  from presession_one_bytes [OF c idle run nr args size fit res, of env "''nfs4: EXCHANGE_ID: %w''"] verf(1)
  show ?thesis by (simp add: exchangeID_def Status_Err_def)
qed

lemma createSession_bytes:
  assumes c: "cc_MinorVersion (cn_cfg c) = 1" "cn_caller c = newRetryCaller BaseCaller cfg"
    and idle: "client_idle (wi_rpc (st_world w))" and sv: "never_delays sv" "sized_ids sv"
    and cs: "sv_create_session sv (session_args (cn_clientID c) (cn_eirSequence c)) (wi_fs (st_world w)) = ((NFS4_OK, sid, n), s1)"
  shows "\<exists>c' w'. createSession (env\<lparr>ev_base := rpc_base sv\<rparr>) calm_ctx c w = Some (None, c', w') \<and>
    wi_fs (st_world w') = s1 \<and> cn_clientID c' = cn_clientID c \<and> cn_cfg c' = cn_cfg c \<and> conn_ready c' w'"
proof -
  let ?a = "session_args (cn_clientID c) (cn_eirSequence c)"
  let ?r = "CreateSessionRes 0 sid (cn_eirSequence c) 0 (session_chan\<lparr>ca_MaxRequests := n\<rparr>) session_chan"
  let ?s = "(st_world w)\<lparr>wi_fs := s1, wi_sid := Some sid, wi_slots := replicate (max 1 (unat n)) 0\<rparr>"
  have sid: "length sid = 16" by (rule sized_idsD(2) [OF sv(2) cs])
  have run: "wire_ops sv 1 [ACreateSession ?a] (st_world w) = ([?r], ?s)" using cs by (simp add: session_args_def)
  have nr: "\<not> isRetriableStatus (res_Status ?r)" by (simp add: isRetriableStatus_def)
  have args: "arg_ok (ACreateSession ?a)" by simp
  have size: "args_size [ACreateSession ?a] \<le> 2 ^ 30" unfolding args_size_simps encoded_create_session by simp
  have fit: "fitting_struct (ACreateSession ?a) (CreateSessionRes 0 (zeros 16) 0 0 ChannelAttrs_zero ChannelAttrs_zero)"
    by (simp add: fitting_struct_def zero_for_def)
  have res: "res_ok ?r" "outs_size [?r] \<le> 2 ^ 27" using sid by (simp_all add: encoded_mount_done mount_sizes)
  note bytes = presession_one_bytes [OF c idle run nr args size fit res, of env "''nfs4: CREATE_SESSION: %w''", unfolded session_args_def]
  note served = presession_one [OF c run nr, of env "''nfs4: CREATE_SESSION: %w''"
      "CreateSessionRes 0 (zeros 16) 0 0 ChannelAttrs_zero ChannelAttrs_zero", unfolded session_args_def]
  have same: "createSession (env\<lparr>ev_base := rpc_base sv\<rparr>) calm_ctx c w = createSession (env\<lparr>ev_base := serve sv\<rparr>) calm_ctx c w"
    unfolding createSession_def bytes served by simp
  from createSession_refines [OF c sv(1) cs, of env] obtain c' w' where
    w': "createSession (env\<lparr>ev_base := serve sv\<rparr>) calm_ctx c w = Some (None, c', w')" "wi_fs (st_world w') = s1"
      "cn_clientID c' = cn_clientID c" "conn_on c' w'" by auto
  from w'(1) have "st_world w' = wire_tick ?s" "cn_cfg c' = cn_cfg c"
    unfolding createSession_def served by (auto simp: Let_def)
  with w' same idle sid show ?thesis
    by (intro exI [of _ c'] exI [of _ w']) (simp add: conn_ready_def wire_tick_def client_idle_def allocXID_eq)
qed

lemma reclaimComplete_bytes:
  assumes ready: "conn_ready c w" and sv: "never_delays sv" and rc: "sv_reclaim sv False (wi_fs (st_world w)) = (st, s1)"
    and st: "st = NFS4_OK \<or> st = NFS4ERR_COMPLETE_ALREADY"
  shows "\<exists>w'. reclaimComplete (env\<lparr>ev_base := rpc_base sv\<rparr>) calm_ctx c w = Some (None, c, w') \<and>
    wi_fs (st_world w') = s1 \<and> conn_ready c w'"
proof -
  have op: "serve_op sv (None, None) (ReclaimCompleteArgs False) (wi_fs (st_world w)) = (ReclaimCompleteRes st, (None, None), s1)"
    using rc by simp
  have "args_size [ReclaimCompleteArgs False] \<le> 2 ^ 30" unfolding args_size_simps encoded_mount_arg by (simp add: mount_sizes)
  then have "conn_fits sv [ReclaimCompleteArgs False] [ReclaimCompleteRes 0] (wi_fs (st_world w))"
    using op length_reclaim [of st] length_reclaim [of 0] by (simp add: conn_fits_def fitting_struct_def zero_for_def del: args_size_simps serve_op.simps)
  from ready_one [OF ready sv this op, of env "''nfs4: RECLAIM_COMPLETE: %w''"] st show ?thesis
    by (auto simp: reclaimComplete_def)
qed

subsection \<open>Mounting over the bytes\<close>

lemma Mount_v40_bytes:
  assumes c: "cc_MinorVersion (cn_cfg c) = 0" and ready: "conn_ready c w" and sv: "never_delays sv" "sized_ids sv"
    and verf: "ev_rand env w = (Inr verf, w)" "length verf = 8" and name: "opaque_ok (bytes_of_string (clientName env c))"
    and spec: "mount40_spec sv (setclientid_args env c verf) (wi_fs (st_world w)) = (None, cid, s')"
    and root: "opaque_ok (sv_root sv s')"
  shows "\<exists>c' w'. Mount (env\<lparr>ev_base := rpc_base sv\<rparr>) calm_ctx c w = Some (None, c', w') \<and> wi_fs (st_world w') = s' \<and>
    conn_ready c' w' \<and> cn_cfg c' = cn_cfg c \<and> ClientID c' = cid \<and> RootFH c' = Some (sv_root sv s')"
proof -
  let ?E = "env\<lparr>ev_base := rpc_base sv\<rparr>"
  from spec obtain confirm s1 where
    set: "sv_setclientid sv (setclientid_args env c verf) (wi_fs (st_world w)) = ((NFS4_OK, cid, confirm), s1)"
    and conf: "sv_confirm sv cid confirm s1 = (NFS4_OK, s')"
    by (auto simp: mount40_spec_def split: prod.splits if_splits)
  let ?c1 = "c\<lparr>cn_clientID := cid, cn_confirm := confirm\<rparr>"
  from setClientID_bytes [OF ready sv verf name set] obtain w1 where
    w1: "setClientID ?E calm_ctx c w = Some (None, ?c1, w1)" "wi_fs (st_world w1) = s1" "conn_ready c w1" by blast
  have ready1: "conn_ready ?c1 w1" using w1(3) by simp
  have confirm: "length (cn_confirm ?c1) = 8" "sv_confirm sv (cn_clientID ?c1) (cn_confirm ?c1) (wi_fs (st_world w1)) = (NFS4_OK, s')"
    using sized_idsD(1) [OF sv(2) set] conf w1(2) by simp_all
  from confirmClientID_bytes [OF ready1 sv(1) confirm, of env] obtain w2 where
    w2: "confirmClientID ?E calm_ctx ?c1 w1 = Some (None, ?c1, w2)" "wi_fs (st_world w2) = s'" "conn_ready ?c1 w2" by blast
  from fetchRootFH_bytes [OF w2(3) sv(1) w2(2) [symmetric] root, of env] obtain w3 where
    w3: "fetchRootFH ?E calm_ctx ?c1 w2 = Some (None, ?c1\<lparr>cn_rootFH := Some (sv_root sv s')\<rparr>, w3)"
      "wi_fs (st_world w3) = s'" "conn_ready ?c1 w3" by blast
  show ?thesis
    using c w1(1) w2(1) w3 by (simp add: Mount_def ClientID_def RootFH_def)
qed

lemma Mount_v41_bytes:
  assumes c: "cc_MinorVersion (cn_cfg c) = 1" "cn_caller c = newRetryCaller BaseCaller cfg"
    and idle: "client_idle (wi_rpc (st_world w))" and sv: "never_delays sv" "sized_ids sv"
    and verf: "ev_rand env w = (Inr verf, w)" "length verf = 8" and name: "opaque_ok (bytes_of_string (clientName env c))"
    and spec: "mount41_spec sv verf (bytes_of_string (clientName env c)) (wi_fs (st_world w)) = (None, cid, s')"
    and root: "opaque_ok (sv_root sv s')"
  shows "\<exists>c' w'. Mount (env\<lparr>ev_base := rpc_base sv\<rparr>) calm_ctx c w = Some (None, c', w') \<and> wi_fs (st_world w') = s' \<and>
    conn_ready c' w' \<and> cn_cfg c' = cn_cfg c \<and> ClientID c' = cid \<and> RootFH c' = Some (sv_root sv s')"
proof -
  let ?E = "env\<lparr>ev_base := rpc_base sv\<rparr>"
  from spec obtain seqid s1 sid n s2 st where
    ex: "sv_exchange_id sv verf (bytes_of_string (clientName env c)) ExchgIDFlagUseNonPNFS (wi_fs (st_world w)) = ((NFS4_OK, cid, seqid), s1)"
    and cs: "sv_create_session sv (session_args cid seqid) s1 = ((NFS4_OK, sid, n), s2)"
    and rc: "sv_reclaim sv False s2 = (st, s')" "st = NFS4_OK \<or> st = NFS4ERR_COMPLETE_ALREADY"
    by (auto simp: mount41_spec_def split: prod.splits if_splits)
  let ?c1 = "c\<lparr>cn_clientID := cid, cn_eirSequence := seqid\<rparr>"
  let ?w1 = "w\<lparr>st_world := wire_tick ((st_world w)\<lparr>wi_fs := s1\<rparr>)\<rparr>"
  note w1 = exchangeID_bytes [OF c idle verf name ex]
  have c1: "cc_MinorVersion (cn_cfg ?c1) = 1" "cn_caller ?c1 = newRetryCaller BaseCaller cfg" "client_idle (wi_rpc (st_world ?w1))"
    using c idle by (simp_all add: wire_tick_def client_idle_def allocXID_eq)
  have "sv_create_session sv (session_args (cn_clientID ?c1) (cn_eirSequence ?c1)) (wi_fs (st_world ?w1)) = ((NFS4_OK, sid, n), s2)"
    using cs by simp
  from createSession_bytes [OF c1 sv this, of env] obtain c2 w2 where
    w2: "createSession ?E calm_ctx ?c1 ?w1 = Some (None, c2, w2)" "wi_fs (st_world w2) = s2" "cn_clientID c2 = cid"
      "cn_cfg c2 = cn_cfg c" "conn_ready c2 w2" by auto
  from reclaimComplete_bytes [OF w2(5) sv(1) _ rc(2), of s' env] rc(1) w2(2) obtain w3 where
    w3: "reclaimComplete ?E calm_ctx c2 w2 = Some (None, c2, w3)" "wi_fs (st_world w3) = s'" "conn_ready c2 w3" by blast
  from fetchRootFH_bytes [OF w3(3) sv(1) w3(2) [symmetric] root, of env] obtain w4 where
    w4: "fetchRootFH ?E calm_ctx c2 w3 = Some (None, c2\<lparr>cn_rootFH := Some (sv_root sv s')\<rparr>, w4)"
      "wi_fs (st_world w4) = s'" "conn_ready c2 w4" by blast
  show ?thesis
    using c(1) w1 w2(1,3,4) w3(1) w4 by (simp add: Mount_def mountV41_def ClientID_def RootFH_def)
qed

lemma Mount_new_bytes:
  assumes mv: "cc_MinorVersion cfg = 0 \<or> cc_MinorVersion cfg = 1" and c: "c = NewConn BaseCaller cfg"
    and idle: "client_idle (wi_rpc (st_world w))" "wi_sid (st_world w) = None" and sv: "never_delays sv" "sized_ids sv"
    and verf: "ev_rand env w = (Inr verf, w)" "length verf = 8" and name: "opaque_ok (bytes_of_string (clientName env c))"
    and spec: "mount_spec sv env c verf (wi_fs (st_world w)) = (None, cid, s')" and root: "opaque_ok (sv_root sv s')"
  shows "\<exists>c' w'. Mount (env\<lparr>ev_base := rpc_base sv\<rparr>) calm_ctx c w = Some (None, c', w') \<and> wi_fs (st_world w') = s' \<and>
    conn_ready c' w' \<and> cn_cfg c' = cfg \<and> ClientID c' = cid \<and> RootFH c' = Some (sv_root sv s')"
proof -
  have new: "cn_caller c = newRetryCaller BaseCaller (cc_Retry cfg)" "cn_cfg c = cfg" by (simp_all add: c NewConn_def)
  show ?thesis
  proof (cases "cc_MinorVersion cfg = 0")
    case True
    then have v: "cc_MinorVersion (cn_cfg c) = 0" using new by simp
    have "conn_ready c w" using conn_onI40 [OF v new(1)] idle by (simp add: conn_ready_def)
    moreover have "mount40_spec sv (setclientid_args env c verf) (wi_fs (st_world w)) = (None, cid, s')"
      using spec v by (simp add: mount_spec_def MinorVersion_def)
    ultimately show ?thesis using Mount_v40_bytes [OF v _ sv verf name _ root] new(2) by simp
  next
    case False
    then have v: "cc_MinorVersion (cn_cfg c) = 1" using mv new by simp
    have "mount41_spec sv verf (bytes_of_string (clientName env c)) (wi_fs (st_world w)) = (None, cid, s')"
      using spec v by (simp add: mount_spec_def MinorVersion_def)
    with Mount_v41_bytes [OF v new(1) idle(1) sv verf name _ root] new(2) show ?thesis by simp
  qed
qed

subsection \<open>Properties\<close>

text \<open>C10: From a dialled socket to a mounted connection, over the bytes. A failing dialler gives its
  error with the address and sends nothing. Otherwise the RPC client is set up on the
  socket, the requests of mounting and their replies travel over it, and the result is a connection that
  is ready for use, with the client id and the root the server gave; this holds for both minor versions
  whenever the server accepts the client and its handles and ids have their sizes.\<close>

theorem Dial_over_bytes:
  assumes "cc_MinorVersion cfg = 0 \<or> cc_MinorVersion cfg = 1"
    and "\<And>w. ev_rand env w = (Inr verf, w)" and "length verf = 8" and "auth_ok cred"
    and "opaque_ok (bytes_of_string (clientName env (NewConn BaseCaller cfg)))"
  shows "(\<forall>err w0. np_DialContext np calm_ctx ''tcp'' address w = (Inl err, w0) \<longrightarrow>
      Dial (net_env sv np rnd env) calm_ctx address cred cfg w =
        Some (Inl (WrapF ''rpc: dialing %s: %w'' [FStr address] err), w0)) \<and>
    (\<forall>w0 cid s'. dials np calm_ctx address w w0 \<and> wi_sid (st_world w0) = None \<and> never_delays sv \<and> sized_ids sv \<and>
      mount_spec sv env (NewConn BaseCaller cfg) verf (wi_fs (st_world w0)) = (None, cid, s') \<and> opaque_ok (sv_root sv s') \<longrightarrow>
      (\<exists>c w'. Dial (net_env sv np rnd env) calm_ctx address cred cfg w = Some (Inr c, w') \<and> wi_fs (st_world w') = s' \<and>
        conn_ready c w' \<and> MinorVersion c = cc_MinorVersion cfg \<and> ClientID c = cid \<and> RootFH c = Some (sv_root sv s')))"
proof (intro conjI allI impI; (elim conjE)?)
  fix err w0 assume "np_DialContext np calm_ctx ''tcp'' address w = (Inl err, w0)"
  then show "Dial (net_env sv np rnd env) calm_ctx address cred cfg w =
      Some (Inl (WrapF ''rpc: dialing %s: %w'' [FStr address] err), w0)"
    by (simp add: Dial_def net_env_def net_dial_def rpc_Dial_def)
next
  fix w0 cid s'
  assume dial: "dials np calm_ctx address w w0" and sid: "wi_sid (st_world w0) = None"
    and sv: "never_delays sv" "sized_ids sv" and root: "opaque_ok (sv_root sv s')"
    and spec: "mount_spec sv env (NewConn BaseCaller cfg) verf (wi_fs (st_world w0)) = (None, cid, s')"
  let ?env = "env\<lparr>ev_dial := net_dial np rnd, ev_close := net_close\<rparr>" and ?c = "NewConn BaseCaller cfg"
  have env: "net_env sv np rnd env = ?env\<lparr>ev_base := rpc_base sv\<rparr>" "clientName ?env ?c = clientName env ?c"
    by (simp_all add: net_env_def clientName_def)
  have "auth_ok AuthNull" by (simp add: auth_ok_def AuthNull_def opaque_ok_def)
  from net_dial_idle [OF dial assms(4) this, of rnd] obtain cl where
    cl: "net_dial np rnd calm_ctx address cred AuthNull w = (None, w0\<lparr>st_world := (st_world w0)\<lparr>wi_rpc := cl\<rparr>\<rparr>)" "client_idle cl"
    by blast
  let ?w = "w0\<lparr>st_world := (st_world w0)\<lparr>wi_rpc := cl\<rparr>\<rparr>"
  have idle: "client_idle (wi_rpc (st_world ?w))" "wi_sid (st_world ?w) = None" and rand: "ev_rand ?env ?w = (Inr verf, ?w)"
    using cl(2) sid assms(2) by simp_all
  have name: "opaque_ok (bytes_of_string (clientName ?env ?c))" using assms(5) env(2) by simp
  have "mount_spec sv ?env ?c verf (wi_fs (st_world ?w)) = (None, cid, s')"
    using spec env(2) by (simp add: mount_spec_def setclientid_args_def split: if_splits)
  from Mount_new_bytes [OF assms(1) refl idle sv rand assms(3) name this root] obtain c' w' where
    m: "Mount (?env\<lparr>ev_base := rpc_base sv\<rparr>) calm_ctx ?c ?w = Some (None, c', w')" "wi_fs (st_world w') = s'"
      "conn_ready c' w'" "cn_cfg c' = cfg" "ClientID c' = cid" "RootFH c' = Some (sv_root sv s')" by blast
  have "Dial (net_env sv np rnd env) calm_ctx address cred cfg w = Some (Inr (c'\<lparr>cn_rpc := True\<rparr>), w')"
    unfolding Dial_def env(1) using cl(1) m(1) by simp
  with m show "\<exists>c w'. Dial (net_env sv np rnd env) calm_ctx address cred cfg w = Some (Inr c, w') \<and> wi_fs (st_world w') = s' \<and>
      conn_ready c w' \<and> MinorVersion c = cc_MinorVersion cfg \<and> ClientID c = cid \<and> RootFH c = Some (sv_root sv s')"
    by (intro exI [of _ "c'\<lparr>cn_rpc := True\<rparr>"] exI [of _ w']) (simp add: MinorVersion_def ClientID_def RootFH_def)
qed

text \<open>A network on which every address leads to the server.\<close>

definition open_net :: "('c, 'w, unit) netpkg" where
  "open_net =
     \<lparr>np_DialContext = (\<lambda>ctx network address w. (Inr \<lparr>nc_in = bytes_reader [], nc_srv = (), nc_closed = False, nc_closeErr = None\<rparr>, w)),
      np_SetNoDelay = (\<lambda>conn. Some (\<lambda>b. (None, conn))), np_SetDeadline = (\<lambda>conn. Some (\<lambda>t. (None, conn)))\<rparr>"

theorem Dial_over_bytes_witness:
  "\<exists>c w'. Dial (net_env mem_server open_net 5 sample_env) calm_ctx ''h:2049'' AuthNull (sample_cfg 1) sample_store = Some (Inr c, w') \<and>
     conn_ready c w' \<and> MinorVersion c = 1 \<and> ClientID c = 7 \<and> RootFH c = Some [1]"
proof -
  let ?c = "NewConn BaseCaller (sample_cfg 1) :: mem wire Conn"
  have mv: "cc_MinorVersion (sample_cfg 1) = 0 \<or> cc_MinorVersion (sample_cfg 1) = 1" by (simp add: sample_cfg_def)
  have rand: "\<And>w. ev_rand sample_env w = (Inr (zeros 8), w)" "length (zeros 8) = 8" "auth_ok AuthNull"
    "opaque_ok (bytes_of_string (clientName sample_env ?c))"
    by (simp_all add: sample_env_def auth_ok_def AuthNull_def opaque_ok_def clientName_def NewConn_def sample_cfg_def)
  have "dials open_net calm_ctx ''h:2049'' sample_store sample_store" by (simp add: dials_def open_net_def fresh_conn_def)
  moreover have "wi_sid (st_world sample_store) = None" by (simp add: sample_store_def)
  moreover have "sized_ids mem_server" by (simp add: sized_ids_def mem_server_def)
  moreover have "mount_spec mem_server sample_env ?c (zeros 8) (wi_fs (st_world sample_store)) = (None, 7, sample_mem)"
    by (simp add: mount_spec_def MinorVersion_def NewConn_def sample_cfg_def mount41_spec_def mem_server_def session_args_def)
  moreover have root: "sv_root mem_server sample_mem = [1]" by (simp add: mem_server_def sample_mem_def)
  moreover have "opaque_ok (sv_root mem_server sample_mem)" unfolding root by (simp add: opaque_ok_def)
  ultimately have "\<exists>c w'. Dial (net_env mem_server open_net 5 sample_env) calm_ctx ''h:2049'' AuthNull (sample_cfg 1) sample_store = Some (Inr c, w') \<and>
      wi_fs (st_world w') = sample_mem \<and> conn_ready c w' \<and> MinorVersion c = cc_MinorVersion (sample_cfg 1) \<and> ClientID c = 7 \<and>
      RootFH c = Some (sv_root mem_server sample_mem)"
    using conjunct2 [OF Dial_over_bytes [OF mv rand, of open_net "''h:2049''" sample_store mem_server 5]] never_delays_mem by blast
  moreover have "cc_MinorVersion (sample_cfg 1) = 1" by (simp add: sample_cfg_def)
  ultimately show ?thesis unfolding root by auto
qed

end
