(* ===== verification/Delay_Props.thy ===== *)
theory Delay_Props
  imports Transport
begin

text \<open>
  A server that asks for time: it answers NFS4ERR_DELAY or NFS4ERR_GRACE, having done part of a
  compound or nothing. The retry caller of \<open>src/nfs4/retry.go\<close> sends the compound again, through the
  session and with a new sequence id where there is one (\<open>src/nfs4/session.go\<close>). The methods of a
  connection then see the outcome of the last attempt only.
\<close>

subsection \<open>Attempts\<close>

text \<open>The compound at the server, sent again up to \<open>k\<close> times while it asks for time.\<close>

fun served :: "'s server \<Rightarrow> arg list \<Rightarrow> nat \<Rightarrow> 's \<Rightarrow> res list \<times> 's" where
  "served sv ops 0 s = run_ops sv (None, None) ops s"
| "served sv ops (Suc k) s =
     (case run_ops sv (None, None) ops s of
        (out, s') \<Rightarrow> if isRetriableStatus (final_status out) then served sv ops k s' else (out, s'))"

lemma run_ops_complete:
  "run_ops sv fhs ops s = (out, fs) \<Longrightarrow>
   length out \<le> length ops \<and> (final_status out = NFS4_OK \<longrightarrow> length out = length ops)"
proof (induction ops arbitrary: fhs s out fs)
  case Nil
  then show ?case by simp
next
  case (Cons a ops)
  obtain r fhs' s1 where r: "serve_op sv fhs a s = (r, fhs', s1)" by (metis prod.exhaust)
  obtain rs s2 where rs: "run_ops sv fhs' ops s1 = (rs, s2)" by (metis prod.exhaust)
  from Cons.IH [OF rs] Cons.prems r rs show ?case
    by (auto simp: final_status_def split: if_splits)
qed

lemma served_prompt:
  "\<not> isRetriableStatus (final_status (fst (run_ops sv (None, None) ops s))) \<Longrightarrow> served sv ops k s = run_ops sv (None, None) ops s"
  by (cases k) (auto split: prod.splits)

subsection \<open>The caller under the retries\<close>

locale inner_server =
  fixes sv :: "'s server" and ops :: "arg list" and base :: "'s wire call" and c :: Compound and I :: "'s wire store \<Rightarrow> bool"
  assumes inner: "I w \<Longrightarrow> run_ops sv (None, None) ops (wi_fs (st_world w)) = (out, fs) \<Longrightarrow>
      \<exists>w'. base c results w =
             Some (((Some \<lparr>cr_Status = final_status out, cr_Tag = [], cr_NumResults = length out\<rparr>, None),
                    out @ drop (length out) results), w') \<and>
           wi_fs (st_world w') = fs \<and> I w'"
begin

lemma retry_served:
  assumes "I w" and "served sv ops k (wi_fs (st_world w)) = (out, fs)"
  shows "\<exists>w' stale. retry_loop calm_ctx (Some sleepCtx) mx base c (Suc k) delay lst results w =
      Some ((if isRetriableStatus (final_status out) then (None, Some (StatusError (final_status out)))
             else (Some \<lparr>cr_Status = final_status out, cr_Tag = [], cr_NumResults = length out\<rparr>, None),
             out @ drop (length out) stale), w') \<and>
    wi_fs (st_world w') = fs \<and> I w' \<and> drop (length ops) stale = drop (length ops) results \<and>
    (final_status out = NFS4_OK \<longrightarrow> length out = length ops)"
  using assms
proof (induction k arbitrary: delay lst results w)
  case 0
  from inner [OF 0(1), of out fs results] 0(2) obtain w' where
    "base c results w = Some (((Some \<lparr>cr_Status = final_status out, cr_Tag = [], cr_NumResults = length out\<rparr>, None),
        out @ drop (length out) results), w')" "wi_fs (st_world w') = fs" "I w'" by auto
  moreover have "final_status out = NFS4_OK \<longrightarrow> length out = length ops"
    using run_ops_complete [of sv "(None, None)" ops] 0(2) by simp
  ultimately show ?case
    by (intro exI [of _ w'] exI [of _ results])
      (auto simp: calm_ctx_def Status_Err_def isRetriableStatus_def)
next
  case (Suc k)
  obtain out1 fs1 where out1: "run_ops sv (None, None) ops (wi_fs (st_world w)) = (out1, fs1)" by (metis prod.exhaust)
  from inner [OF Suc.prems(1) out1, of results] obtain w1 where
    w1: "base c results w = Some (((Some \<lparr>cr_Status = final_status out1, cr_Tag = [], cr_NumResults = length out1\<rparr>, None),
        out1 @ drop (length out1) results), w1)" "wi_fs (st_world w1) = fs1" "I w1" by auto
  note len = run_ops_complete [OF out1]
  show ?case
  proof (cases "isRetriableStatus (final_status out1)")
    case False
    with Suc.prems(2) out1 w1 len show ?thesis
      by (intro exI [of _ w1] exI [of _ results]) (simp add: calm_ctx_def)
  next
    case True
    with Suc.prems(2) out1 have "served sv ops k (wi_fs (st_world w1)) = (out, fs)" by (simp add: w1(2))
    note IH = Suc.IH [OF w1(3) this, of "next_delay mx delay"
        "(Some \<lparr>cr_Status = final_status out1, cr_Tag = [], cr_NumResults = length out1\<rparr>, None)"
        "out1 @ drop (length out1) results"]
    have "drop (length ops) (out1 @ drop (length out1) results) = drop (length ops) results" using len by simp
    moreover have "retry_loop calm_ctx (Some sleepCtx) mx base c (Suc (Suc k)) delay lst results w =
        retry_loop calm_ctx (Some sleepCtx) mx base c (Suc k) (next_delay mx delay)
          (Some \<lparr>cr_Status = final_status out1, cr_Tag = [], cr_NumResults = length out1\<rparr>, None)
          (out1 @ drop (length out1) results) w1"
      using True w1(1) by (subst retry_loop.simps(2)) (simp add: calm_ctx_def sleepCtx_def del: retry_loop.simps)
    ultimately show ?thesis using IH by metis
  qed
qed

end

text \<open>The two callers the program puts under the retries.\<close>

interpretation direct: inner_server sv ops "CallCompound (serve sv) BaseCaller calm_ctx"
    "\<lparr>cp_Tag = [], cp_MinorVersion = 0, cp_ops = ops\<rparr>" "\<lambda>_. True" for sv ops
  by unfold_locales (auto simp: serve_def)

interpretation sequenced: inner_server sv ops "CallCompound (serve sv) (newSessionCaller BaseCaller i) calm_ctx"
    "\<lparr>cp_Tag = [], cp_MinorVersion = 1, cp_ops = ops\<rparr>" "in_step i" for sv ops i
  by unfold_locales (rule in_step_call, simp_all)

subsection \<open>Connections\<close>

text \<open>A connection in use with the retry configuration \<open>cfg\<close>, which makes up to \<open>Suc k\<close> attempts.\<close>

definition conn_with :: "'s wire RetryConfig \<Rightarrow> 's wire Conn \<Rightarrow> 's wire store \<Rightarrow> bool" where
  "conn_with cfg c w \<longleftrightarrow>
     (cc_MinorVersion (cn_cfg c) = 0 \<and> cn_caller c = newRetryCaller BaseCaller cfg) \<or>
     (\<exists>i. cc_MinorVersion (cn_cfg c) = 1 \<and> cn_caller c = newRetryCaller (newSessionCaller BaseCaller i) cfg \<and> in_step i w)"

lemma conn_with_on: "conn_on c w \<longleftrightarrow> (\<exists>cfg. conn_with cfg c w)"
  by (auto simp: conn_on_def conn_with_def)

lemma retryCaller_calm:
  assumes "rc_sleep cfg = None" and "nat (rc_MaxAttempts (withDefaults cfg)) = Suc k"
  shows "CallCompound base (newRetryCaller cl cfg) calm_ctx c results w =
    retry_loop calm_ctx (Some sleepCtx) (rc_Max (withDefaults cfg)) (CallCompound base cl calm_ctx) c (Suc k)
      (rc_Initial (withDefaults cfg)) (None, None) results w"
proof -
  have "rc_sleep (withDefaults cfg) = Some sleepCtx" using assms(1) by (simp add: withDefaults_sleep)
  then show ?thesis
    using assms(2) by (simp add: newRetryCaller_def retryCaller_CallCompound_def del: retry_loop.simps)
qed

lemma Conn_call_delayed:
  assumes on: "conn_with cfg c w" and cfg: "rc_sleep cfg = None" "nat (rc_MaxAttempts (withDefaults cfg)) = Suc k"
    and out: "served sv ops k (wi_fs (st_world w)) = (out, s')"
  shows "\<exists>w' stale. Conn_call (env\<lparr>ev_base := serve sv\<rparr>) calm_ctx c ops results w =
      Some ((if isRetriableStatus (final_status out) then (None, Some (StatusError (final_status out)))
             else (Some \<lparr>cr_Status = final_status out, cr_Tag = [], cr_NumResults = length out\<rparr>, None),
             out @ drop (length out) stale), w') \<and>
    wi_fs (st_world w') = s' \<and> conn_with cfg c w' \<and>
    (final_status out = NFS4_OK \<longrightarrow> drop (length out) stale = drop (length out) results)"
proof -
  note calm = retryCaller_calm [OF cfg]
  from on consider
      (v0) "cc_MinorVersion (cn_cfg c) = 0" "cn_caller c = newRetryCaller BaseCaller cfg"
    | (v1) i where "cc_MinorVersion (cn_cfg c) = 1" "cn_caller c = newRetryCaller (newSessionCaller BaseCaller i) cfg" "in_step i w"
    by (auto simp: conn_with_def)
  then show ?thesis
  proof cases
    case v0
    then have "conn_with cfg c w'" for w' by (simp add: conn_with_def)
    with v0 direct.retry_served [OF TrueI out, of "rc_Max (withDefaults cfg)" "rc_Initial (withDefaults cfg)" "(None, None)" results]
    show ?thesis
      unfolding Conn_call_compound v0(2) calm by (elim exE conjE, intro exI conjI) (assumption | simp)+
  next
    case (v1 i)
    then have "in_step i w' \<Longrightarrow> conn_with cfg c w'" for w' by (auto simp: conn_with_def)
    with v1 sequenced.retry_served [OF v1(3) out, of "rc_Max (withDefaults cfg)" "rc_Initial (withDefaults cfg)" "(None, None)" results]
    show ?thesis
      unfolding Conn_call_compound v1(2) calm by (elim exE conjE, intro exI conjI) (assumption | simp)+
  qed
qed

subsection \<open>Properties\<close>

text \<open>C11: A server may answer NFS4ERR_DELAY or NFS4ERR_GRACE, also after having performed part of a
  compound. A connection sends the compound again until it gets another answer or the attempts are used
  up, for both minor versions and, with a session, with a new sequence id each time so that the client and
  the server stay in step. The results are those of the last attempt alone; the error is its status, and
  it is reported as a failed call when the last attempt was told to wait as well.\<close>

theorem delays_waited_out:
  assumes "conn_with cfg c w" and "rc_sleep cfg = None" and "nat (rc_MaxAttempts (withDefaults cfg)) = Suc k"
    and "served sv ops k (wi_fs (st_world w)) = (out, s')" and "st = final_status out"
  shows "\<exists>w'. Conn_ops (env\<lparr>ev_base := serve sv\<rparr>) calm_ctx c msg args ops results w =
      Some (if st = NFS4_OK then Inr (out @ drop (length out) results)
            else if isRetriableStatus st then Inl (WrapF msg args (StatusError st))
            else Inl (StatusError st), w') \<and>
    wi_fs (st_world w') = s' \<and> conn_with cfg c w'"
proof -
  from Conn_call_delayed [OF assms(1-4), of env results] obtain w' stale where
    w': "Conn_call (env\<lparr>ev_base := serve sv\<rparr>) calm_ctx c ops results w =
      Some ((if isRetriableStatus st then (None, Some (StatusError st))
             else (Some \<lparr>cr_Status = st, cr_Tag = [], cr_NumResults = length out\<rparr>, None),
             out @ drop (length out) stale), w')"
      "wi_fs (st_world w') = s'" "conn_with cfg c w'"
      "st = NFS4_OK \<longrightarrow> drop (length out) stale = drop (length out) results"
    unfolding assms(5) by blast
  then show ?thesis
    by (intro exI [of _ w'])
      (auto simp: Conn_ops_def result_Err_def CompoundResult_Err_def Status_Err_def isRetriableStatus_def)
qed

text \<open>The in-memory server with a REMOVE that asks for time until a counter has run down.\<close>

definition slow_server :: "mem server" where
  "slow_server = mem_server\<lparr>sv_remove := (\<lambda>fh name m.
     if me_next m \<le> 2 then (NFS4_OK, m) else (NFS4ERR_DELAY, m\<lparr>me_next := me_next m - 1\<rparr>))\<rparr>"

theorem delays_waited_out_witness:
  "\<exists>w'. Remove (sample_env\<lparr>ev_base := serve slow_server\<rparr>) calm_ctx sample_conn (Some [1]) ''a'' sample_store = Some (None, w') \<and>
     me_next (wi_fs (st_world w')) = 2"
proof -
  let ?cfg = "cc_Retry (sample_cfg 0)" and ?ops = "[PutfhArgs (Some [1]), RemoveArgs ''a'']"
  have on: "conn_with ?cfg sample_conn sample_store" by (simp add: conn_with_def sample_conn_def NewConn_def sample_cfg_def)
  have cfg: "rc_sleep ?cfg = None" "nat (rc_MaxAttempts (withDefaults ?cfg)) = Suc 9"
    by (simp_all add: sample_cfg_def withDefaults_def Let_def)
  have put: "sv_putfh slow_server [1] (sample_mem\<lparr>me_next := n\<rparr>) = 0" for n
    by (simp add: slow_server_def mem_server_def sample_mem_def)
  have run: "run_ops slow_server (None, None) ?ops (sample_mem\<lparr>me_next := n\<rparr>) =
      (if n \<le> 2 then ([StatusRes 0, RemoveRes 0], sample_mem\<lparr>me_next := n\<rparr>)
       else ([StatusRes 0, RemoveRes NFS4ERR_DELAY], sample_mem\<lparr>me_next := n - 1\<rparr>))" for n
    using put [of n] by (simp add: Let_def nilb_def) (simp add: slow_server_def)
  have "wi_fs (st_world sample_store) = sample_mem\<lparr>me_next := 4\<rparr>" by (simp add: sample_store_def sample_mem_def)
  moreover have "served slow_server ?ops (Suc (Suc k)) (sample_mem\<lparr>me_next := 4\<rparr>) = ([StatusRes 0, RemoveRes 0], sample_mem\<lparr>me_next := 2\<rparr>)" for k
    by (simp add: run served_prompt final_status_def isRetriableStatus_def del: run_ops.simps)
  note this [of 7]
  ultimately have "served slow_server ?ops 9 (wi_fs (st_world sample_store)) = ([StatusRes 0, RemoveRes 0], sample_mem\<lparr>me_next := 2\<rparr>)"
    by (simp del: served.simps)
  from delays_waited_out [OF on cfg this refl, of sample_env "''nfs4: REMOVE: %w''" "[]" "[StatusRes 0, RemoveRes 0]"]
  obtain w' where w': "Conn_ops (sample_env\<lparr>ev_base := serve slow_server\<rparr>) calm_ctx sample_conn ''nfs4: REMOVE: %w'' [] ?ops
      [StatusRes 0, RemoveRes 0] sample_store = Some (Inr [StatusRes 0, RemoveRes 0], w')"
      "wi_fs (st_world w') = sample_mem\<lparr>me_next := 2\<rparr>"
    by (auto simp: final_status_def)
  show ?thesis
    unfolding Remove_def w'(1) using w'(2) by (simp add: last_status_def Status_Err_def)
qed

end
