(* ===== verification/Closed_Props.thy ===== *)
theory Closed_Props
  imports Nfsd Transport
begin

text \<open>
  Connections that are lost: a cancelled call (\<open>Call\<close> of \<open>src/rpc/client.go\<close>) and \<open>Close\<close> close the
  socket, and what the callers and the methods above make of a closed one.
\<close>

definition conn_closed :: "'s wire store \<Rightarrow> bool" where
  "conn_closed w \<longleftrightarrow> nc_closed (cl_conn (wi_rpc (st_world w)))"

text \<open>A write to a closed socket fails, unless the request is too large to be tried.\<close>

definition closed_error :: "goerror \<Rightarrow> bool" where
  "closed_error e \<longleftrightarrow>
     e = WrapF ''rpc: writing request: %w'' [] errNetClosed \<or>
     e = WrapF ''rpc: writing request: %w'' [] (Sentinel ErrFragmentTooLarge)"

lemma closed_error_status: "closed_error e \<Longrightarrow> \<not> retriable (None, Some e)"
  by (auto simp: closed_error_def errorHasStatus_def errNetClosed_def)

lemma roundTrip_closed_error:
  assumes "nc_closed k"
  shows "\<exists>e. roundTrip peer req k = (Inl e, k) \<and> closed_error e"
  using assms by (auto simp: roundTrip_def WriteRecord_def netconn_Write_def closed_error_def)

lemma RPCCaller_closed:
  assumes "nc_closed (cl_conn cl)" and "rctx_Err ctx (cl_conn cl) = None" and "rctx_Done ctx (cl_conn cl) = None"
  shows "\<exists>e. RPCCaller_CallCompound peer ctx c results cl = (((None, Some e), results), snd (allocXID cl)) \<and> closed_error e"
proof -
  obtain xid cl1 where al: "allocXID cl = (xid, cl1)" by (metis prod.exhaust)
  then have k: "cl_conn cl1 = cl_conn cl" by (auto simp: allocXID_eq)
  note enc = call_request_ok [OF Compound_Encode_writes [of c], of cl1 xid Program Version4 ProcCompound]
  from roundTrip_closed_error [OF assms(1), of peer] obtain e where
    e: "roundTrip peer (enc_w (call_request cl1 xid Program Version4 ProcCompound (Some (Compound_Encode c)))) (cl_conn cl) =
        (Inl e, cl_conn cl)" "closed_error e" by blast
  have "cl1\<lparr>cl_conn := cl_conn cl\<rparr> = cl1" using k by (cases cl1) simp
  then show ?thesis
    using e assms(2,3) k by (intro exI [of _ e]) (simp add: RPCCaller_CallCompound_def Call_def al Let_def enc)
qed

lemma RPCCaller_cancelled:
  assumes "rctx_Err ctx (cl_conn cl) = None" and "rctx_Done ctx (cl_conn cl) = Some (err, k)"
  shows "RPCCaller_CallCompound peer ctx c results cl =
    (((None, Some err), results), (snd (allocXID cl))\<lparr>cl_conn := k\<lparr>nc_closed := True\<rparr>\<rparr>)"
proof -
  obtain xid cl1 where al: "allocXID cl = (xid, cl1)" by (metis prod.exhaust)
  then have k: "cl_conn cl1 = cl_conn cl" by (auto simp: allocXID_eq)
  note enc = call_request_ok [OF Compound_Encode_writes [of c], of cl1 xid Program Version4 ProcCompound]
  show ?thesis
    using assms k by (simp add: RPCCaller_CallCompound_def Call_def al Let_def enc)
qed

lemma plug_unit [simp]: "plug () (cl :: unit client) = cl"
  by (cases cl; cases "cl_conn cl") (simp add: plug_def)

lemma plug_simps [simp]:
  "nc_closed (cl_conn (plug t cl)) = nc_closed (cl_conn cl)" "nc_srv (cl_conn (plug t cl)) = t"
  "cl_conn (snd (allocXID cl)) = cl_conn cl" "plug u (snd (allocXID (plug t cl))) = snd (allocXID (plug u cl))"
  by (simp_all add: plug_def allocXID_eq)

lemma rpc_base_closed:
  assumes "conn_closed w"
  shows "\<exists>e. rpc_base sv calm_ctx c results w = Some (((None, Some e), results), w\<lparr>st_world := wire_tick (st_world w)\<rparr>) \<and> closed_error e"
proof -
  let ?cl = "wired (st_world w)"
  have "nc_closed (cl_conn ?cl)" using assms by (simp add: conn_closed_def wired_def)
  from RPCCaller_closed [OF this, of "\<lparr>rctx_Err = (\<lambda>_. None), rctx_Done = (\<lambda>_. None)\<rparr>" "nfsd sv" c results] obtain e where
    "RPCCaller_CallCompound (nfsd sv) \<lparr>rctx_Err = (\<lambda>_. None), rctx_Done = (\<lambda>_. None)\<rparr> c results ?cl =
       (((None, Some e), results), snd (allocXID ?cl))" "closed_error e" by auto
  then show ?thesis by (intro exI [of _ e]) (simp add: rpc_base_def calm_ctx_def wire_tick_def wired_def)
qed

text \<open>A cancelled call returns the error of the context and closes the socket; the server is wherever the
  goroutine of the call had brought it.\<close>

lemma rpc_base_cancelled:
  assumes "cx_Err ctx w = (None, w)" and "cx_select ctx w = (Some err, w1)"
  shows "\<exists>w'. rpc_base sv ctx c results w = Some (((None, Some err), results), w') \<and> conn_closed w' \<and>
    wi_fs (st_world w') = wi_fs (st_world w1)"
  by (simp add: rpc_base_def assms RPCCaller_cancelled conn_closed_def wired_def)

text \<open>After \<open>Close\<close> of the RPC client, whatever it reports.\<close>

lemma Client_Close_closed: "conn_closed (w\<lparr>st_world := (st_world w)\<lparr>wi_rpc := snd (Client_Close (wi_rpc (st_world w)))\<rparr>\<rparr>)"
  by (simp add: conn_closed_def Client_Close_def split: prod.split) (metis netconn_Close_closes netconn.select_convs(3) netconn.surjective netconn.update_convs(3) snd_conv)

subsection \<open>The callers\<close>

lemma session_call_closed:
  assumes step: "in_step i w" and closed: "conn_closed w"
  shows "\<exists>e. CallCompound (rpc_base sv) (newSessionCaller BaseCaller i) calm_ctx c results w =
    Some (((None, Some e), results), w\<lparr>st_world := wire_tick (st_world w)\<rparr>) \<and> closed_error e"
proof -
  let ?s = "get_session i w"
  from step have i: "i < length (st_sessions w)" and idle: "session_idle ?s" by (simp_all add: in_step_def)
  obtain l s1 where l: "AcquireSlot None ?s = Some (Inr l, s1)" using AcquireSlot_idle [OF idle] by blast
  have sel: "cx_select calm_ctx w = (None, w)" by (simp add: calm_ctx_def)
  let ?w1 = "put_session i s1 w"
  have "conn_closed ?w1" using closed by (simp add: conn_closed_def put_session_def)
  from rpc_base_closed [OF this, of sv "wrap_compound (se_id ?s) l c" "SequenceRes_zero # results"] obtain e where
    e: "CallCompound (rpc_base sv) BaseCaller calm_ctx (wrap_compound (se_id ?s) l c) (SequenceRes_zero # results) ?w1 =
        Some (((None, Some e), SequenceRes_zero # results), ?w1\<lparr>st_world := wire_tick (st_world w)\<rparr>)" "closed_error e"
    by (auto simp: put_session_def)
  have keep: "st_sessions (?w1\<lparr>st_world := wire_tick (st_world w)\<rparr>) = (st_sessions w)[i := s1]" by (simp add: put_session_def)
  have "bump False ?s = ?s" by (simp add: bump_def)
  then have "(st_sessions w)[i := bump False ?s] = st_sessions w" by (simp add: get_session_def)
  then show ?thesis
    using sessionCaller_idle [OF idle i sel l, of "CallCompound (rpc_base sv) BaseCaller calm_ctx", OF e(1) keep] e(2)
    by (intro exI [of _ e]) (simp add: newSessionCaller_def put_session_def)
qed

lemma Conn_call_closed:
  assumes "conn_on c w" and "conn_closed w"
  shows "\<exists>e. Conn_call (env\<lparr>ev_base := rpc_base sv\<rparr>) calm_ctx c ops results w =
    Some (((None, Some e), results), w\<lparr>st_world := wire_tick (st_world w)\<rparr>) \<and> closed_error e"
  using assms(1)
proof (unfold conn_on_def, elim disjE exE conjE)
  fix cfg assume c: "cn_caller c = newRetryCaller BaseCaller cfg"
  from rpc_base_closed [OF assms(2), of sv "\<lparr>cp_Tag = [], cp_MinorVersion = cc_MinorVersion (cn_cfg c), cp_ops = ops\<rparr>" results]
  obtain e where
    e: "CallCompound (rpc_base sv) BaseCaller calm_ctx \<lparr>cp_Tag = [], cp_MinorVersion = cc_MinorVersion (cn_cfg c), cp_ops = ops\<rparr> results w =
        Some (((None, Some e), results), w\<lparr>st_world := wire_tick (st_world w)\<rparr>)" "closed_error e" by auto
  from retry_first [OF e(1) closed_error_status [OF e(2)], of cfg] e(2) show ?thesis
    by (intro exI [of _ e]) (simp add: Conn_call_compound c)
next
  fix cfg i assume c: "cn_caller c = newRetryCaller (newSessionCaller BaseCaller i) cfg" and step: "in_step i w"
  from session_call_closed [OF step assms(2), of sv "\<lparr>cp_Tag = [], cp_MinorVersion = cc_MinorVersion (cn_cfg c), cp_ops = ops\<rparr>" results]
  obtain e where
    e: "CallCompound (rpc_base sv) (newSessionCaller BaseCaller i) calm_ctx
          \<lparr>cp_Tag = [], cp_MinorVersion = cc_MinorVersion (cn_cfg c), cp_ops = ops\<rparr> results w =
        Some (((None, Some e), results), w\<lparr>st_world := wire_tick (st_world w)\<rparr>)" "closed_error e" by blast
  from retry_first [OF e(1) closed_error_status [OF e(2)], of cfg] e(2) show ?thesis
    by (intro exI [of _ e]) (simp add: Conn_call_compound c)
qed

subsection \<open>Properties\<close>

text \<open>C12: On a socket that is closed, as a cancelled call and \<open>Close\<close> leave it, every operation of a connection,
  with either minor version, fails at once with the error of the socket, or of its size when the request is too
  large to be tried: nothing reaches the server, no attempt is repeated, a slot of the session is given back with
  its sequence id, and nothing changes but the next transaction id. The socket stays closed, so this holds for
  the operations that follow as well.\<close>

theorem lost_connection_fails:
  assumes "conn_on c w" and "conn_closed w"
  shows "\<exists>e w'. Conn_ops (env\<lparr>ev_base := rpc_base sv\<rparr>) calm_ctx c msg args ops results w = Some (Inl (WrapF msg args e), w') \<and>
    closed_error e \<and> w' = w\<lparr>st_world := wire_tick (st_world w)\<rparr> \<and> conn_on c w' \<and> conn_closed w'"
proof -
  let ?w = "w\<lparr>st_world := wire_tick (st_world w)\<rparr>"
  from Conn_call_closed [OF assms, of sv env ops results] obtain e where
    e: "Conn_call (env\<lparr>ev_base := rpc_base sv\<rparr>) calm_ctx c ops results w = Some (((None, Some e), results), ?w)" "closed_error e" by blast
  have "conn_on c ?w" using assms(1) by (auto simp: conn_on_def in_step_def get_session_def wire_tick_def)
  moreover have "conn_closed ?w" using assms(2) by (simp add: conn_closed_def wire_tick_def)
  ultimately show ?thesis using e by (intro exI [of _ e] exI [of _ ?w]) (simp add: Conn_ops_def)
qed

theorem lost_connection_fails_witness:
  "\<exists>e w'. Remove (sample_env\<lparr>ev_base := rpc_base mem_server\<rparr>) calm_ctx sample_conn (Some [1]) ''a''
       (sample_store\<lparr>st_world := (st_world sample_store)\<lparr>wi_rpc := snd (Client_Close (wi_rpc (st_world sample_store)))\<rparr>\<rparr>) =
     Some (Some (WrapF ''nfs4: REMOVE: %w'' [] e), w') \<and> closed_error e \<and> wi_fs (st_world w') = sample_mem"
proof -
  let ?w = "sample_store\<lparr>st_world := (st_world sample_store)\<lparr>wi_rpc := snd (Client_Close (wi_rpc (st_world sample_store)))\<rparr>\<rparr>"
  let ?ops = "[PutfhArgs (Some [1]), RemoveArgs ''a'']" and ?rs = "[StatusRes 0, RemoveRes 0]"
  have "cc_MinorVersion (cn_cfg sample_conn) = 0" by (simp add: sample_conn_def NewConn_def sample_cfg_def)
  then have "conn_on sample_conn ?w" using sample_conn_on by (auto simp: conn_on_def)
  from lost_connection_fails [OF this Client_Close_closed, where env = sample_env and sv = mem_server and
      msg = "''nfs4: REMOVE: %w''" and args = "[]" and ops = ?ops and results = ?rs]
  obtain e where
    e: "Conn_ops (sample_env\<lparr>ev_base := rpc_base mem_server\<rparr>) calm_ctx sample_conn ''nfs4: REMOVE: %w'' [] ?ops ?rs ?w =
        Some (Inl (WrapF ''nfs4: REMOVE: %w'' [] e), ?w\<lparr>st_world := wire_tick (st_world ?w)\<rparr>)" "closed_error e"
    by blast
  show ?thesis
    unfolding Remove_def e(1) by (rule exI [of _ e]) (simp add: last_status_def e(2))
qed

end
