(* ===== verification/Spec2Isabelle.thy ===== *)
theory Spec2Isabelle
  imports Lease Open_Bytes Dial_Bytes Delay_Props Closed_Props
begin

text \<open>
  A verification of the NFSv4 client library \<open>go-nfs-client\<close> (Go, under \<open>src/\<close>).

  \<^bold>\<open>The program.\<close> An application mounts a server with package \<open>client\<close> and uses it through \<open>io/fs\<close>
  interfaces or \<open>os.File\<close>-like handles. These call the methods of an \<open>nfs4.Conn\<close>, each of which sends one
  COMPOUND request through a stack of callers: \<open>retryCaller\<close> (backoff on DELAY and GRACE), for
  minor version 1 \<open>sessionCaller\<close> (a SEQUENCE operation with a slot of the session), and \<open>RPCCaller\<close>, which
  encodes the compound with package \<open>xdr\<close> and sends it with the ONC RPC client of package \<open>rpc\<close>, record
  marking included. A lease manager renews the client's lease in the background.

  \<^bold>\<open>How the code is modelled.\<close> Structs are records, enumerations and interfaces with known implementations are
  datatypes, fixed-width integers are words, and Go's \<open>int\<close>, \<open>int64\<close> and durations are integers with the
  wrap-around (\<open>wrap64\<close>) where the code adds or multiplies them. Methods are functions that take and
  return the state they change. Errors are values of \<open>goerror\<close> in a sum or option type. A result \<open>None\<close> of
  an operation that calls others means that it never returns (or panics, on a nil function). What is not under \<open>src/\<close> is a
  parameter: the network stream and the error its closing reports, random bytes, the host name, the context's cancellation, the sleeper, and
  the server. Goroutines that share the slots of a session, and those that start and stop a lease
  manager, are step relations.

  \<^bold>\<open>Theories, from the bottom up.\<close>
  \<^item> \<open>Prelude\<close>, \<open>Go_Std\<close>: words, bytes, strings; the parts of Go's standard library the code uses (readers
    over segmented streams, big-endian integers, errors and their chains, string functions).
  \<^item> \<open>Xdr\<close> (\<open>src/xdr\<close>): encoder and decoder as state monads with sticky errors and length limits; the
    locale \<open>codec\<close> relates writers and readers. Round trips, stickiness, bounds.
  \<^item> \<open>Rpc_Record\<close>, \<open>Rpc_Message\<close>, \<open>Rpc_Client\<close> (\<open>src/rpc\<close>): record marking, call and reply headers and
    credentials, and the client: \<open>Dial\<close> over a parameter for package \<open>net\<close>, transaction ids, \<open>Call\<close>
    with cancellation. A written record is read back
    however the stream is cut; records are bounded; a call without error has read the accepted
    reply to its own transaction id; a cancelled call closes the connection.
  \<^item> \<open>Nfs_Status\<close>, \<open>Nfs_Types\<close>, \<open>Attr\<close> (\<open>src/nfs4/consts.go\<close>, \<open>types.go\<close>, \<open>attr/\<close>): status codes and their
    \<open>io/fs\<close> errors, bitmaps, stateids, attribute masks and values, file modes.
  \<^item> \<open>Ops\<close>, \<open>Ops_Wire\<close>, \<open>Compound\<close> (\<open>ops.go\<close>, \<open>writeops.go\<close>, \<open>sessionops.go\<close>, \<open>compound.go\<close>, \<open>transport.go\<close>):
    arguments and results of all operations, their wire format, and COMPOUND. The server can
    recover the request; replies to any prefix of the operations fill exactly their results; any
    bytes at all keep the types of the result structs.
  \<^item> \<open>Session\<close> (\<open>session.go\<close>): the slot table and leases, as functions and as the relation
    \<open>session_step\<close> of concurrent goroutines. Slots are exclusive, sequence ids advance by one, and there is no
    deadlock.
  \<^item> \<open>Callers\<close> (\<open>retry.go\<close>, \<open>session.go\<close>): the three callers and their stacking; the locale
    \<open>compound_caller\<close> is the contract a caller needs of the one below and gives to the one above.
  \<^item> \<open>Conn\<close>, \<open>Conn_Ops\<close>, \<open>Transport\<close> (\<open>conn.go\<close>, \<open>conn_write.go\<close>, \<open>transport.go\<close>): mounting, all file operations,
    teardown, dialling and the choice of the minor version.
  \<^item> \<open>Server\<close>: the specification of a server as a record of abstract operations on a state \<open>'s\<close>, and \<open>serve\<close>,
    which runs a compound on it with current and saved file handle and, for minor version 1, the slots
    of its session. The locale \<open>conn_server\<close> is interpreted for both stacks of callers (\<open>v40\<close>, \<open>v41\<close>).
  \<^item> \<open>Conn_Refine\<close>, \<open>Conn_Props\<close>: every method of a connection refines the operation of the server.
  \<^item> \<open>Mem_Server\<close>: an in-memory server, on which the locales below are interpreted and witnesses
    are evaluated.
  \<^item> \<open>Client_FS\<close>, \<open>Client_File\<close>, \<open>Client_Mount\<close>, \<open>Lease\<close> (\<open>src/client\<close>): the file systems and open files over the
    interface \<open>Protocol\<close> (the record \<open>proto\<close>, which \<open>conn_proto\<close> implements with a connection), mounting
    an export, and the lease manager.
  \<^item> \<open>File_Laws\<close>, \<open>File_Props\<close>, \<open>FS_Laws\<close>, \<open>FS_Props\<close>, \<open>Open_Props\<close>: contracts of the server's files
    (\<open>file_server\<close>, \<open>eof_server\<close>) and directories (\<open>dir_server\<close>) give, through sublocales, contracts of
    the protocol interface (\<open>file_store\<close>, \<open>eof_store\<close>, \<open>dir_store\<close>), from which reading, writing, listing and
    opening are shown correct, however many bytes or entries the server handles at a time.
  \<^item> \<open>Nfsd\<close>, \<open>Stack\<close>: the server at the other end of the bytes. \<open>nfsd\<close> collects a record, parses
    the call, runs the compound and sends the reply; \<open>rpc_base\<close> is the RPC client of the program talking to it,
    and \<open>rpc_base_serve\<close> shows that a call within the limits of the formats is answered as \<open>serve\<close> says. The locales
    \<open>base_order\<close> and \<open>proto_order\<close> carry this through the callers, the connection, the file systems and the
    files: the interpretations \<open>on_bytes\<close> and \<open>on_server\<close> compare a run over \<open>rpc_base\<close> and one over \<open>serve\<close> with a run
    over \<open>fits_base\<close>, which only answers calls that fit.
  \<^item> \<open>Wire_Props\<close>, \<open>Conn_Bytes\<close>, \<open>Open_Bytes\<close>, \<open>Dial_Bytes\<close>: what holds over the bytes. All methods of a connection
    do what the server does, files opened by path keep what is written, and dialling and mounting lead from a
    fresh socket to a connection that is ready for use.
  \<^item> \<open>Delay_Props\<close>, \<open>Closed_Props\<close>: servers that ask for time (the locale \<open>inner_server\<close> is the caller below the
    retries, interpreted with and without a session), and closed sockets.

  \<^bold>\<open>Hypotheses about the server.\<close> They are what RFC 7530 and RFC 5661 promise: a READ returns bytes of the file,
  at least one before its end; a WRITE takes at least one byte; READDIR continues after the cookie with the
  verifier the server gave. \<open>never_delays\<close> restricts the statements on connections to servers that do
  not ask for retries; those that do are the subject of \<open>retry_backoff\<close> and \<open>delays_waited_out\<close>. The context \<open>calm_ctx\<close> is
  one that is not cancelled; cancellation is treated in \<open>Rpc_Client\<close> (a call whose goroutine may have got anywhere), \<open>Callers\<close> and \<open>Closed_Props\<close>. Over the bytes,
  \<open>call_fits\<close> asks that the request, the result and the reply are within the limits of the formats (names, handles and data
  up to 64 MiB), and \<open>sized_ids\<close> that verifiers and session ids have 8 and 16 bytes.

  \<^bold>\<open>Loops.\<close> The loops of \<open>ReadRecord\<close>, \<open>ReadAt\<close>, \<open>writeAt\<close>, the retries and the decoders are
  total functions with termination proofs. \<open>readDirAll\<close> and the renewal loop are partial functions in the
  option type, because a server (or nobody calling \<open>Stop\<close>) can keep them going; their theorems state
  that they return. There is no fuel in the models of the code; \<open>dir_pages\<close> and \<open>drain\<close>, which call
  \<open>ReadDir\<close> and \<open>Read\<close> up to a number of times, are part of the statements, and one call more than there are
  entries or bytes is enough.

  \<^bold>\<open>Comments the code does not follow.\<close> The properties are stated for the cases on which the code and its comments
  agree. What the code does in the others is in lemmas: \<open>writeAt\<close> goes on after a WRITE that was cut short
  (\<open>File_write_read_parts\<close>), the slot advances also after a refused SEQUENCE (\<open>sessionCaller_idle\<close>), results
  without an \<open>Op\<close> method are taken under any opnum (\<open>DecodeCompound_unchecked\<close>), file systems are rooted at the server's root
  whatever the export (\<open>client_Mount_root\<close>), fewer than one attempt are ten (\<open>withDefaults_no_attempts\<close>),
  and mounting again with minor version 1 adds a second session caller (\<open>createSession_again\<close>).

  \<^bold>\<open>Not modelled.\<close> TCP itself (what \<open>Dial\<close> and \<open>SetDeadline\<close> call in package \<open>net\<close> is the parameter \<open>netpkg\<close>; that a
  deadline passes is not expressed), the real clock of the lease manager, the
  texts of error messages beyond their format and arguments, and the mutexes of \<open>Conn\<close> and \<open>File\<close>:
  these guard single fields, and the models describe use by one goroutine at a time. The Go memory
  model and the garbage collector are not modelled. The tests, the integration scripts and the package
  comments have no part in the models.
\<close>

end
